(* ===== verification/Prelude.thy ===== *)
theory Prelude
  imports Complex_Main "HOL-Library.Word" "HOL-Library.Multiset"
begin

text \<open>
  What every component shares: the result type of a Go call that may return an error or
  panic, sequencing of such calls, indexing with Go's bounds check, and the insertion-ordered
  association lists that stand for Go maps.

  A Go function that returns \<open>(T, error)\<close> or may panic is a function into
  \<open>T result\<close>. \<open>Fails e\<close> is the error return, \<open>Panics p\<close> a run-time panic, which
  unwinds the goroutine. \<open>errors.Trace\<close> of juju/errors only records a stack and is the
  identity here; \<open>errors.Annotatef\<close> wraps an error and keeps its cause.
\<close>

named_theorems result_simps
  \<open>equations and inversions for the result type and its sequencing\<close>
named_theorems amap_simps
  \<open>lookup, domain and distinctness laws of the association lists that model Go maps\<close>

subsection \<open>Errors, panics and results\<close>

datatype go_error =
    ErrMsg string
  | ErrSyntax string
  | ErrRange string
  | ErrIndexNotReady
  | ErrInconsistentClusterState
  | ErrSphinxDisconnected
  | ErrIndexesNotReady
  | ErrExternal string
  | ErrAnnotated string go_error

fun error_cause :: "go_error \<Rightarrow> go_error" where
  "error_cause (ErrAnnotated msg e) = error_cause e"
| "error_cause e = e"

datatype go_panic =
    IndexOutOfRange
  | UnhashableKey
  | IntegerDivideByZero
  | NilDereference
  | TypeAssertion
  | PanicMsg string

datatype fault = Fails go_error | Panics go_panic

type_synonym 'a result = "fault + 'a"

definition bindR :: "'a result \<Rightarrow> ('a \<Rightarrow> 'b result) \<Rightarrow> 'b result" where
  "bindR m f = (case m of Inl e \<Rightarrow> Inl e | Inr x \<Rightarrow> f x)"

lemma bindR_Inl [simp]: "bindR (Inl e) f = Inl e"
  and bindR_Inr [simp]: "bindR (Inr x) f = f x"
  by (simp_all add: bindR_def)

lemma bindR_eq_Inr [result_simps]:
  "bindR m f = Inr y \<longleftrightarrow> (\<exists>x. m = Inr x \<and> f x = Inr y)"
  by (cases m) simp_all

lemma bindR_eq_Inl [result_simps]:
  "bindR m f = Inl e \<longleftrightarrow> m = Inl e \<or> (\<exists>x. m = Inr x \<and> f x = Inl e)"
  by (cases m) simp_all

lemma bindR_assoc: "bindR (bindR m f) g = bindR m (\<lambda>x. bindR (f x) g)"
  by (cases m) simp_all

lemma bindR_cong [fundef_cong]:
  "m = m' \<Longrightarrow> (\<And>x. m' = Inr x \<Longrightarrow> f x = f' x) \<Longrightarrow> bindR m f = bindR m' f'"
  by (cases m') simp_all

text \<open>A Go loop that appends one result per element and returns at the first failure.\<close>

fun mapR :: "('a \<Rightarrow> 'b result) \<Rightarrow> 'a list \<Rightarrow> 'b list result" where
  "mapR f [] = Inr []"
| "mapR f (x # xs) = bindR (f x) (\<lambda>y. bindR (mapR f xs) (\<lambda>ys. Inr (y # ys)))"

text \<open>A Go loop that updates a state and returns at the first failure.\<close>

fun foldR :: "('s \<Rightarrow> 'a \<Rightarrow> 's result) \<Rightarrow> 's \<Rightarrow> 'a list \<Rightarrow> 's result" where
  "foldR f s [] = Inr s"
| "foldR f s (x # xs) = bindR (f s x) (\<lambda>s'. foldR f s' xs)"

lemma mapR_length: "mapR f xs = Inr ys \<Longrightarrow> length ys = length xs"
  by (induction xs arbitrary: ys) (auto simp: result_simps)

lemma mapR_nth: "mapR f xs = Inr ys \<Longrightarrow> i < length xs \<Longrightarrow> f (xs ! i) = Inr (ys ! i)"
  by (induction xs arbitrary: ys i) (auto simp: result_simps nth_Cons split: nat.splits)

lemma mapR_all_Inr: "(\<And>x. x \<in> set xs \<Longrightarrow> f x = Inr (g x)) \<Longrightarrow> mapR f xs = Inr (map g xs)"
  by (induction xs) simp_all

lemma foldR_append: "foldR f s (xs @ ys) = bindR (foldR f s xs) (\<lambda>s'. foldR f s' ys)"
  by (induction xs arbitrary: s) (simp_all add: bindR_assoc)

lemma foldR_all_Inr: "(\<And>s x. x \<in> set xs \<Longrightarrow> f s x = Inr (g s x)) \<Longrightarrow> foldR f s xs = Inr (foldl g s xs)"
  by (induction xs arbitrary: s) simp_all

lemma foldR_invariant:
  assumes "foldR f s xs = Inr s'" and "P s"
    and "\<And>s x s'. x \<in> set xs \<Longrightarrow> P s \<Longrightarrow> f s x = Inr s' \<Longrightarrow> P s'"
  shows "P s'"
  using assms by (induction xs arbitrary: s) (auto simp: result_simps)

text \<open>A slice index expression: it panics out of range.\<close>

definition go_index :: "'a list \<Rightarrow> nat \<Rightarrow> 'a result" where
  "go_index xs i = (if i < length xs then Inr (xs ! i) else Inl (Panics IndexOutOfRange))"

lemma go_index_eq_Inr [result_simps]: "go_index xs i = Inr x \<longleftrightarrow> i < length xs \<and> x = xs ! i"
  by (auto simp: go_index_def)

lemma go_index_eq_Inl [result_simps]:
  "go_index xs i = Inl e \<longleftrightarrow> length xs \<le> i \<and> e = Panics IndexOutOfRange"
  by (auto simp: go_index_def)

subsection \<open>Calls on a state\<close>

text \<open>A call that also changes a state: the state afterwards and the result.\<close>

type_synonym ('s, 'a) call = "'s \<Rightarrow> 's \<times> 'a result"

definition bindS :: "('s, 'a) call \<Rightarrow> ('a \<Rightarrow> ('s, 'b) call) \<Rightarrow> ('s, 'b) call" where
  "bindS m f s = (case m s of (s', Inl e) \<Rightarrow> (s', Inl e) | (s', Inr x) \<Rightarrow> f x s')"

definition returnS :: "'a result \<Rightarrow> ('s, 'a) call" where
  "returnS x s = (s, x)"

text \<open>\<open>errors.Annotatef(err, ...)\<close> on the error of a call.\<close>

definition annotateR :: "string \<Rightarrow> 'a result \<Rightarrow> 'a result" where
  "annotateR msg r = (case r of Inl (Fails e) \<Rightarrow> Inl (Fails (ErrAnnotated msg e)) | _ \<Rightarrow> r)"

definition annotateS :: "string \<Rightarrow> ('s, 'a) call \<Rightarrow> ('s, 'a) call" where
  "annotateS msg m s = (let r = m s in (fst r, annotateR msg (snd r)))"

text \<open>A loop over calls that stops at the first error.\<close>

fun eachS :: "('a \<Rightarrow> ('s, unit) call) \<Rightarrow> 'a list \<Rightarrow> ('s, unit) call" where
  "eachS f [] = returnS (Inr ())"
| "eachS f (x # xs) = bindS (f x) (\<lambda>_. eachS f xs)"

lemma bindS_cases:
  "bindS m f s = (case snd (m s) of Inl e \<Rightarrow> (fst (m s), Inl e) | Inr x \<Rightarrow> f x (fst (m s)))"
  by (cases "m s") (auto simp: bindS_def split: sum.splits)

lemma bindS_Inl: "snd (m s) = Inl e \<Longrightarrow> bindS m f s = (fst (m s), Inl e)"
  and bindS_Inr: "snd (m s) = Inr x \<Longrightarrow> bindS m f s = f x (fst (m s))"
  by (simp_all add: bindS_cases)

lemma annotateS_simps [simp]:
  "fst (annotateS msg m s) = fst (m s)" "snd (annotateS msg m s) = annotateR msg (snd (m s))"
  by (simp_all add: annotateS_def Let_def)

lemma annotateR_eq_Inr [result_simps]: "annotateR msg r = Inr x \<longleftrightarrow> r = Inr x"
  by (auto simp: annotateR_def split: sum.splits fault.splits)

text \<open>The state after the calls \<open>xs\<close>, none of which failed.\<close>

fun runs :: "('a \<Rightarrow> ('s, unit) call) \<Rightarrow> 'a list \<Rightarrow> 's \<Rightarrow> 's option" where
  "runs f [] s = Some s"
| "runs f (x # xs) s = (case snd (f x s) of Inl e \<Rightarrow> None | Inr _ \<Rightarrow> runs f xs (fst (f x s)))"

lemma eachS_Inr: "eachS f xs s = (s', Inr u) \<longleftrightarrow> runs f xs s = Some s'"
  by (induction xs arbitrary: s) (auto simp: returnS_def bindS_cases split: sum.splits)

lemma eachS_Inl:
  "eachS f xs s = (s', Inl e) \<Longrightarrow>
   \<exists>ys x zs t. xs = ys @ x # zs \<and> runs f ys s = Some t \<and> f x t = (s', Inl e)"
proof (induction xs arbitrary: s)
  case (Cons x xs)
  show ?case
  proof (cases "snd (f x s)")
    case (Inl e')
    with Cons.prems have "f x s = (s', Inl e)" by (cases "f x s") (auto simp: bindS_cases)
    then show ?thesis by (intro exI[of _ "[]"]) simp
  next
    case (Inr u)
    with Cons.prems have "eachS f xs (fst (f x s)) = (s', Inl e)" by (simp add: bindS_cases)
    from Cons.IH[OF this] obtain ys y zs t
      where "xs = ys @ y # zs" "runs f ys (fst (f x s)) = Some t" "f y t = (s', Inl e)" by blast
    with Inr show ?thesis by (intro exI[of _ "x # ys"]) auto
  qed
qed (simp add: returnS_def)

lemma eachS_append: "eachS f (xs @ ys) = bindS (eachS f xs) (\<lambda>_. eachS f ys)"
proof
  fix s
  show "eachS f (xs @ ys) s = bindS (eachS f xs) (\<lambda>_. eachS f ys) s"
    by (induction xs arbitrary: s) (simp_all add: bindS_cases returnS_def split: sum.splits)
qed

subsection \<open>Go maps as association lists\<close>

text \<open>
  A Go map is an association list with distinct keys; the order of the entries stands for the
  order in which one \<open>range\<close> loop over the map visits them, which Go leaves open. Properties
  of a loop are therefore proved for every order, or from the lookup function alone.
\<close>

type_synonym ('k, 'v) amap = "('k \<times> 'v) list"

fun aput :: "'k \<Rightarrow> 'v \<Rightarrow> ('k, 'v) amap \<Rightarrow> ('k, 'v) amap" where
  "aput k v [] = [(k, v)]"
| "aput k v (e # m) = (if fst e = k then (k, v) # m else e # aput k v m)"

definition adel :: "'k \<Rightarrow> ('k, 'v) amap \<Rightarrow> ('k, 'v) amap" where
  "adel k m = filter (\<lambda>e. fst e \<noteq> k) m"

definition akeys :: "('k, 'v) amap \<Rightarrow> 'k list" where
  "akeys m = map fst m"

definition awf :: "('k, 'v) amap \<Rightarrow> bool" where
  "awf m \<longleftrightarrow> distinct (akeys m)"

lemma aput_lookup [amap_simps]: "map_of (aput k v m) = (map_of m)(k \<mapsto> v)"
  by (induction m) auto

lemma adel_lookup [amap_simps]: "map_of (adel k m) = (map_of m)(k := None)"
  by (induction m) (auto simp: adel_def fun_eq_iff)

lemma aput_keys [amap_simps]: "set (akeys (aput k v m)) = insert k (set (akeys m))"
  by (induction m) (auto simp: akeys_def)

lemma adel_keys [amap_simps]: "set (akeys (adel k m)) = set (akeys m) - {k}"
  by (auto simp: akeys_def adel_def)

lemma akeys_dom [amap_simps]: "k \<in> set (akeys m) \<longleftrightarrow> map_of m k \<noteq> None"
  by (simp add: akeys_def map_of_eq_None_iff)

lemma awf_Nil [amap_simps]: "awf []"
  by (simp add: awf_def akeys_def)

lemma awf_Cons [amap_simps]: "awf (e # m) \<longleftrightarrow> fst e \<notin> fst ` set m \<and> awf m"
  by (simp add: awf_def akeys_def)

lemma awf_aput [amap_simps]: "awf m \<Longrightarrow> awf (aput k v m)"
proof (induction m)
  case (Cons e m)
  have "set (akeys (aput k v m)) = insert k (set (akeys m))"
    by (rule aput_keys)
  with Cons show ?case by (auto simp: awf_def akeys_def)
qed (simp add: awf_def akeys_def)

lemma awf_adel [amap_simps]: "awf m \<Longrightarrow> awf (adel k m)"
  by (simp add: awf_def akeys_def adel_def distinct_map_filter)

lemma awf_filter [amap_simps]: "awf m \<Longrightarrow> awf (filter P m)"
  by (simp add: awf_def akeys_def distinct_map_filter)

lemma awf_lookup_iff: "awf m \<Longrightarrow> (k, v) \<in> set m \<longleftrightarrow> map_of m k = Some v"
  by (simp add: awf_def akeys_def map_of_eq_Some_iff)

lemma awf_filter_lookup:
  "awf m \<Longrightarrow> map_of (filter P m) k = (case map_of m k of None \<Rightarrow> None | Some v \<Rightarrow> if P (k, v) then Some v else None)"
proof (induction m)
  case (Cons e m)
  have "awf m" and "fst e \<notin> fst ` set m" using Cons.prems by (simp_all add: awf_Cons)
  then show ?case using Cons.IH
    by (cases e) (auto simp: map_of_eq_None_iff split: option.splits)
qed simp

lemma aput_fresh: "map_of m k = None \<Longrightarrow> aput k v m = m @ [(k, v)]"
  by (induction m) (auto split: if_splits)

lemma aput_entries:
  "awf m \<Longrightarrow> set (aput k v m) = insert (k, v) {e \<in> set m. fst e \<noteq> k}"
proof (induction m)
  case (Cons e m)
  have "awf m" using Cons.prems by (simp add: awf_Cons)
  moreover have "\<forall>x\<in>set m. fst x \<noteq> fst e"
    using Cons.prems unfolding awf_Cons by (metis image_eqI)
  ultimately show ?case using Cons.IH by (cases e) auto
qed simp

lemma aput_mset:
  "awf m \<Longrightarrow> map_of m k = Some v0 \<Longrightarrow> add_mset (k, v0) (mset (aput k v m)) = add_mset (k, v) (mset m)"
proof (induction m)
  case (Cons e m)
  have "awf m" using Cons.prems(1) by (simp add: awf_Cons)
  with Cons show ?case by (cases e) (auto simp: add_mset_commute split: if_splits)
qed simp

text \<open>Reordering the entries, as another \<open>range\<close> loop may, keeps the map.\<close>

lemma awf_perm: "awf m \<Longrightarrow> mset m = mset m' \<Longrightarrow> awf m'"
  unfolding awf_def akeys_def by (metis mset_eq_imp_distinct_iff mset_map)

lemma amap_perm_lookup:
  assumes "awf m" and "mset m = mset m'"
  shows "map_of m = map_of m'"
proof
  fix k
  have "set m = set m'" using assms(2) by (metis set_mset_mset)
  moreover have "awf m'" using assms by (rule awf_perm)
  ultimately show "map_of m k = map_of m' k"
    using assms(1) by (metis awf_lookup_iff not_Some_eq)
qed

end
