(* ===== verification/Go_Text.thy ===== *)
theory Go_Text
  imports Prelude "HOL-Library.Sublist"
begin

text \<open>
  The part of Go's \<open>strings\<close>, \<open>strconv\<close> and \<open>fmt\<close> packages that the program uses. A Go
  string is a sequence of bytes, here a list of characters: \<open>%d\<close> of integers, \<open>strings.Join\<close>,
  \<open>Split\<close> at one byte, \<open>Replace\<close> of one byte, \<open>Trim\<close> of one byte, \<open>HasPrefix\<close>,
  \<open>Contains\<close>, and \<open>strconv.ParseUint\<close> and \<open>ParseInt\<close> in base 10 with their 64-bit
  arithmetic. The parsers are compared with the value of a digit string computed on natural
  numbers.
\<close>

subsection \<open>Decimal digits\<close>

definition digit :: "nat \<Rightarrow> char" where
  "digit n = char_of (48 + n)"

definition digit_val :: "char \<Rightarrow> nat option" where
  "digit_val c = (let k = of_char c in if 48 \<le> k \<and> k \<le> (57::nat) then Some (k - 48) else None)"

lemma digit_val_digit [simp]: "n < 10 \<Longrightarrow> digit_val (digit n) = Some n"
  by (simp add: digit_val_def digit_def Let_def)

lemma digit_val_bound: "digit_val c = Some d \<Longrightarrow> d < 10"
  by (auto simp: digit_val_def Let_def split: if_splits)

lemma digit_of_digit_val: "digit_val c = Some d \<Longrightarrow> digit d = c"
  by (auto simp: digit_val_def digit_def Let_def split: if_splits)

text \<open>\<open>%d\<close> of an unsigned and of a signed integer.\<close>

fun dec :: "nat \<Rightarrow> string" where
  "dec n = (if n < 10 then [digit n] else dec (n div 10) @ [digit (n mod 10)])"

declare dec.simps [simp del]

definition dec_int :: "int \<Rightarrow> string" where
  "dec_int i = (if i < 0 then CHR ''-'' # dec (nat (- i)) else dec (nat i))"

text \<open>The value of a digit string, most significant digit first; \<open>None\<close> on any other byte.\<close>

fun dec_value :: "nat \<Rightarrow> string \<Rightarrow> nat option" where
  "dec_value acc [] = Some acc"
| "dec_value acc (c # cs) =
     (case digit_val c of None \<Rightarrow> None | Some d \<Rightarrow> dec_value (10 * acc + d) cs)"

definition all_digits :: "string \<Rightarrow> bool" where
  "all_digits s \<longleftrightarrow> (\<forall>c\<in>set s. digit_val c \<noteq> None)"

lemma all_digits_simps [simp]:
  "all_digits []" "all_digits (c # cs) \<longleftrightarrow> digit_val c \<noteq> None \<and> all_digits cs"
  "all_digits (xs @ ys) \<longleftrightarrow> all_digits xs \<and> all_digits ys"
  by (auto simp: all_digits_def)

lemma dec_value_append:
  "dec_value acc (xs @ ys) = (case dec_value acc xs of None \<Rightarrow> None | Some n \<Rightarrow> dec_value n ys)"
  by (induction xs arbitrary: acc) (auto split: option.splits)

lemma dec_value_Some_iff: "(\<exists>n. dec_value acc s = Some n) \<longleftrightarrow> all_digits s"
  by (induction s arbitrary: acc) (auto split: option.splits)

lemma dec_value_ge: "dec_value acc s = Some n \<Longrightarrow> acc \<le> n"
  by (induction s arbitrary: acc) (fastforce split: option.splits)+

lemma dec_nonempty [simp]: "dec n \<noteq> []"
  by (subst dec.simps) simp

lemma dec_value_dec [simp]: "dec_value 0 (dec n) = Some n"
proof (induction n rule: dec.induct)
  case (1 n)
  show ?case
  proof (cases "n < 10")
    case True
    then show ?thesis by (subst dec.simps) simp
  next
    case False
    with 1 show ?thesis by (subst dec.simps) (simp add: dec_value_append)
  qed
qed

lemma all_digits_dec [simp]: "all_digits (dec n)"
  using dec_value_dec dec_value_Some_iff by blast

lemma dec_inject [simp]: "dec m = dec n \<longleftrightarrow> m = n"
  by (metis dec_value_dec option.inject)

lemma digit_char_not_sep [simp]:
  "digit_val (CHR '','') = None" "digit_val (CHR '' '') = None" "digit_val (CHR ''-'') = None"
  "digit_val (CHR '')'') = None" "digit_val (CHR ''('') = None" "digit_val (CHR ''_'') = None"
  "digit_val (CHR ''+'') = None" "digit_val (CHR 0x27) = None" "digit_val (CHR ''.'') = None"
  by (simp_all add: digit_val_def Let_def)

lemma not_in_dec: "digit_val c = None \<Longrightarrow> c \<notin> set (dec n)"
  using all_digits_dec[of n] by (auto simp: all_digits_def)

subsection \<open>Joining, splitting, replacing\<close>

fun join :: "string \<Rightarrow> string list \<Rightarrow> string" where
  "join sep [] = []"
| "join sep [x] = x"
| "join sep (x # y # xs) = x @ sep @ join sep (y # xs)"

fun split_on :: "char \<Rightarrow> string \<Rightarrow> string list" where
  "split_on c [] = [[]]"
| "split_on c (x # xs) =
     (if x = c then [] # split_on c xs
      else (case split_on c xs of [] \<Rightarrow> [[x]] | w # ws \<Rightarrow> (x # w) # ws))"

lemma split_on_nonempty [simp]: "split_on c s \<noteq> []"
  by (induction s) (auto split: list.splits)

lemma join_Cons: "xs \<noteq> [] \<Longrightarrow> join sep (x # xs) = x @ sep @ join sep xs"
  by (cases xs) simp_all

lemma join_split_on: "join [c] (split_on c s) = s"
proof (induction s)
  case (Cons x xs)
  obtain w ws where ws: "split_on c xs = w # ws"
    by (cases "split_on c xs") (auto simp: split_on_nonempty)
  show ?case
  proof (cases "x = c")
    case True
    with Cons ws show ?thesis by (simp add: join_Cons)
  next
    case False
    with Cons ws show ?thesis by (cases ws) simp_all
  qed
qed simp

lemma split_on_no_sep: "c \<notin> set w \<Longrightarrow> split_on c w = [w]"
  by (induction w) auto

lemma split_on_append:
  "c \<notin> set w \<Longrightarrow> split_on c (w @ c # s) = w # split_on c s"
  by (induction w) auto

lemma split_on_join:
  "xs \<noteq> [] \<Longrightarrow> \<forall>x\<in>set xs. c \<notin> set x \<Longrightarrow> split_on c (join [c] xs) = xs"
proof (induction xs)
  case (Cons x xs)
  then show ?case
    by (cases "xs = []") (simp_all add: split_on_no_sep split_on_append join_Cons)
qed simp

text \<open>\<open>strings.Replace(s, string(c), r, -1)\<close> for one byte \<open>c\<close>.\<close>

definition replace_char :: "char \<Rightarrow> string \<Rightarrow> string \<Rightarrow> string" where
  "replace_char c r s = concat (map (\<lambda>x. if x = c then r else [x]) s)"

lemma replace_char_simps [simp]:
  "replace_char c r [] = []"
  "replace_char c r (x # xs) = (if x = c then r else [x]) @ replace_char c r xs"
  "replace_char c r (xs @ ys) = replace_char c r xs @ replace_char c r ys"
  by (simp_all add: replace_char_def)

text \<open>\<open>strings.Trim(s, string(c))\<close>: all leading and trailing occurrences of one byte.\<close>

definition trim_char :: "char \<Rightarrow> string \<Rightarrow> string" where
  "trim_char c s = rev (dropWhile (\<lambda>x. x = c) (rev (dropWhile (\<lambda>x. x = c) s)))"

text \<open>The text between single quotes, as in the format \<open>'%s'\<close>.\<close>

definition squote :: "string \<Rightarrow> string" where
  "squote s = [CHR 0x27] @ s @ [CHR 0x27]"

definition has_prefix :: "string \<Rightarrow> string \<Rightarrow> bool" where
  "has_prefix s p \<longleftrightarrow> take (length p) s = p"

fun str_contains :: "string \<Rightarrow> string \<Rightarrow> bool" where
  "str_contains [] p = (p = [])"
| "str_contains (c # cs) p = (has_prefix (c # cs) p \<or> str_contains cs p)"

lemma has_prefix_iff: "has_prefix s p \<longleftrightarrow> prefix p s"
  unfolding has_prefix_def prefix_def by (metis append_eq_conv_conj append_take_drop_id)

lemma str_contains_iff: "str_contains s p \<longleftrightarrow> sublist p s"
  by (induction s) (auto simp: has_prefix_iff sublist_Cons_right)

subsection \<open>strconv.ParseUint and strconv.ParseInt, base 10\<close>

text \<open>
  The loop of \<open>ParseUint\<close> on a 64-bit accumulator. \<open>cutoff\<close> is the smallest number that
  overflows when multiplied by ten. Letters are rejected with the same syntax error as any
  other byte, since their digit value is at least the base.
\<close>

fun ParseUint_loop :: "string \<Rightarrow> 64 word \<Rightarrow> 64 word \<Rightarrow> string \<Rightarrow> 64 word \<times> go_error option" where
  "ParseUint_loop s0 maxVal n [] = (n, None)"
| "ParseUint_loop s0 maxVal n (c # cs) =
     (case digit_val c of
        None \<Rightarrow> (0, Some (ErrSyntax s0))
      | Some d \<Rightarrow>
          if n \<ge> 1844674407370955162 then (maxVal, Some (ErrRange s0))
          else
            (let m = n * 10; n1 = m + of_nat d in
             if n1 < m \<or> n1 > maxVal then (maxVal, Some (ErrRange s0))
             else ParseUint_loop s0 maxVal n1 cs))"

definition ParseUint :: "string \<Rightarrow> nat \<Rightarrow> 64 word \<times> go_error option" where
  "ParseUint s bitSize =
     (if s = [] then (0, Some (ErrSyntax s))
      else ParseUint_loop s (push_bit bitSize 1 - 1) 0 s)"

text \<open>
  \<open>ParseInt\<close> for 64 bits: an optional sign, then \<open>ParseUint\<close>; a magnitude that does not fit
  saturates with a range error.
\<close>

definition ParseInt64 :: "string \<Rightarrow> 64 word \<times> go_error option" where
  "ParseInt64 s =
     (if s = [] then (0, Some (ErrSyntax s))
      else
        (let neg = (hd s = CHR ''-'');
             body = (if hd s = CHR ''+'' \<or> hd s = CHR ''-'' then tl s else s);
             r = ParseUint body 64; un = fst r; cutoff = (push_bit 63 1 :: 64 word)
         in case snd r of
              Some (ErrSyntax x) \<Rightarrow> (0, Some (ErrSyntax s))
            | _ \<Rightarrow>
                if \<not> neg \<and> un \<ge> cutoff then (cutoff - 1, Some (ErrRange s))
                else if neg \<and> un > cutoff then (- cutoff, Some (ErrRange s))
                else (if neg then - un else un, None)))"

text \<open>The overflow tests of the loop are exactly the bound on the digit string's value.\<close>

lemma ParseUint_step:
  assumes "unat (n::64 word) < 1844674407370955162" and "d < 10"
  shows "unat (n * 10) = 10 * unat n"
    and "(n * 10 + of_nat d < n * 10) \<longleftrightarrow> 2 ^ 64 \<le> 10 * unat n + d"
    and "10 * unat n + d < 2 ^ 64 \<Longrightarrow> unat (n * 10 + of_nat d) = 10 * unat n + d"
proof -
  have ten: "unat (10 :: 64 word) = 10" by simp
  have m: "unat (n * 10) = 10 * unat n"
    using assms(1) by (simp add: unat_word_ariths ten)
  show "unat (n * 10) = 10 * unat n" by (rule m)
  have d: "unat (of_nat d :: 64 word) = d"
    using assms(2) by (simp add: unat_of_nat)
  have "(n * 10 \<le> n * 10 + of_nat d) \<longleftrightarrow> 10 * unat n + d < 2 ^ 64"
    using no_olen_add_nat[of "n * 10" "of_nat d"] m d by simp
  then show "(n * 10 + of_nat d < n * 10) \<longleftrightarrow> 2 ^ 64 \<le> 10 * unat n + d"
    by (auto simp: not_le[symmetric])
  show "unat (n * 10 + of_nat d) = 10 * unat n + d" if "10 * unat n + d < 2 ^ 64"
    using that m d by (simp add: unat_word_ariths)
qed

lemma ParseUint_digit:
  assumes "unat (n :: 64 word) \<le> unat (maxVal :: 64 word)" and d: "d < 10"
  shows "n \<ge> 1844674407370955162 \<or> n * 10 + of_nat d < n * 10 \<or> n * 10 + of_nat d > maxVal \<longleftrightarrow>
    unat maxVal < 10 * unat n + d"
    and "10 * unat n + d \<le> unat maxVal \<Longrightarrow> unat (n * 10 + of_nat d) = 10 * unat n + d"
proof -
  have max: "unat maxVal < 2 ^ 64" using unsigned_less[of maxVal] by simp
  note step = ParseUint_step[OF _ d, of n]
  show grown: "10 * unat n + d \<le> unat maxVal \<Longrightarrow> unat (n * 10 + of_nat d) = 10 * unat n + d"
    using step(3) max by simp
  show "n \<ge> 1844674407370955162 \<or> n * 10 + of_nat d < n * 10 \<or> n * 10 + of_nat d > maxVal \<longleftrightarrow>
    unat maxVal < 10 * unat n + d"
  proof (cases "unat n < 1844674407370955162")
    case True
    then have "\<not> n \<ge> 1844674407370955162" by (simp add: word_le_nat_alt)
    then show ?thesis using step[OF True] max by (cases "10 * unat n + d < 2 ^ 64") (auto simp: word_less_nat_alt)
  next
    case False
    then show ?thesis using max by (simp add: word_le_nat_alt)
  qed
qed

lemma ParseUint_loop_accepts:
  "unat n \<le> unat maxVal \<Longrightarrow>
   snd (ParseUint_loop s0 maxVal n s) = None \<longleftrightarrow>
     (\<exists>v. dec_value (unat n) s = Some v \<and> v \<le> unat maxVal)"
proof (induction s arbitrary: n)
  case (Cons c cs)
  show ?case
  proof (cases "digit_val c")
    case (Some d)
    then have d: "d < 10" by (rule digit_val_bound)
    note digit = ParseUint_digit[OF Cons.prems d]
    show ?thesis
    proof (cases "10 * unat n + d \<le> unat maxVal")
      case True
      with digit Some Cons.IH[of "n * 10 + of_nat d"] show ?thesis by (auto simp: Let_def)
    next
      case False
      have "\<not> v \<le> unat maxVal" if "dec_value (10 * unat n + d) cs = Some v" for v
        using dec_value_ge[OF that] False by simp
      with digit(1) Some False show ?thesis by (auto simp: Let_def)
    qed
  qed simp
qed simp

lemma ParseUint_loop_value:
  "snd (ParseUint_loop s0 maxVal n s) = None \<Longrightarrow>
   dec_value (unat n) s = Some (unat (fst (ParseUint_loop s0 maxVal n s)))"
proof (induction s arbitrary: n)
  case (Cons c cs)
  from Cons.prems obtain d where d: "digit_val c = Some d"
    and lt: "\<not> n \<ge> 1844674407370955162"
    and nw: "\<not> n * 10 + of_nat d < n * 10"
    and rest: "snd (ParseUint_loop s0 maxVal (n * 10 + of_nat d) cs) = None"
    and eq: "ParseUint_loop s0 maxVal n (c # cs) = ParseUint_loop s0 maxVal (n * 10 + of_nat d) cs"
    by (auto simp: Let_def split: option.splits if_splits)
  have "unat n < 1844674407370955162" using lt by (simp add: word_le_nat_alt)
  note st = ParseUint_step[OF this digit_val_bound[OF d]]
  have "unat (n * 10 + of_nat d) = 10 * unat n + d" using st(2,3) nw by auto
  with Cons.IH[OF rest] d eq show ?case by simp
qed simp

lemma unat_uint_max:
  "b \<in> {32, 64} \<Longrightarrow> unat (push_bit b 1 - 1 :: 64 word) = 2 ^ b - 1"
  by auto

lemma ParseUint_accepts:
  assumes "b \<in> {32, 64}"
  shows "snd (ParseUint s b) = None \<longleftrightarrow> s \<noteq> [] \<and> (\<exists>v. dec_value 0 s = Some v \<and> v < 2 ^ b)"
proof -
  have "v \<le> 2 ^ b - 1 \<longleftrightarrow> v < 2 ^ b" for v :: nat
    by (metis Suc_pred' less_Suc_eq_le pos2 zero_less_power)
  then show ?thesis
    using ParseUint_loop_accepts[of 0 "push_bit b 1 - 1" s s] assms
    by (auto simp: ParseUint_def unat_uint_max[OF assms])
qed

lemma ParseUint_value:
  "snd (ParseUint s b) = None \<Longrightarrow> dec_value 0 s = Some (unat (fst (ParseUint s b)))"
  using ParseUint_loop_value[of s "push_bit b 1 - 1" 0 s]
  by (auto simp: ParseUint_def split: if_splits)

lemma ParseUint_dec:
  assumes "b \<in> {32, 64}" and "n < 2 ^ b"
  shows "ParseUint (dec n) b = (of_nat n, None)"
proof -
  have ok: "snd (ParseUint (dec n) b) = None"
    using assms by (simp add: ParseUint_accepts)
  from ParseUint_value[OF ok] have "unat (fst (ParseUint (dec n) b)) = n" by simp
  moreover have "fst (ParseUint (dec n) b) = of_nat (unat (fst (ParseUint (dec n) b)))" by simp
  ultimately have "fst (ParseUint (dec n) b) = of_nat n" by simp
  with ok show ?thesis by (simp add: prod_eq_iff)
qed

end
