(* ===== verification/Go_Values.thy ===== *)
theory Go_Values
  imports Go_Text
begin

text \<open>
  Go's \<open>interface{}\<close> values as they reach the program from binlog rows and JSON columns, and
  the conversions of \<open>src/util/coerce.go\<close>.

  Fixed-width integers are words. A floating-point number is its numeric value, so that \<open>=\<close>
  is Go's \<open>==\<close> (which identifies the two zeros); NaN and the infinities are left out, since
  neither a MySQL column nor a JSON document can hold one. A JSON object is the list of its
  entries in key order, so \<open>=\<close> on values is \<open>reflect.DeepEqual\<close>.
\<close>

datatype gval =
    GNil
  | GInt "64 word" | GInt8 "8 word" | GInt16 "16 word" | GInt32 "32 word" | GInt64 "64 word"
  | GUint "64 word" | GUint8 "8 word" | GUint16 "16 word" | GUint32 "32 word" | GUint64 "64 word"
  | GFloat32 rat | GFloat64 rat
  | GString string
  | GBytes string
  | GBool bool
  | GTime int
  | GList "gval list"
  | GMap "(string \<times> gval) list"

type_synonym row = "gval list"

text \<open>
  What the code takes from outside it: \<open>gob\<close> is \<open>encoding/gob\<close>'s encoding of a list (\<open>None\<close>
  for a list it refuses), \<open>unmarshal\<close> is \<open>json.Unmarshal\<close> into a
  \<open>map[string]interface{}\<close> (\<open>None\<close> for an error), and the three \<open>oor\<close> functions give the
  result of converting a float that does not fit the integer type, which Go leaves to the
  implementation.
\<close>

record go_env =
  gob :: "gval list \<Rightarrow> string option"
  unmarshal :: "string \<Rightarrow> (string \<times> gval) list option"
  oor_u32 :: "rat \<Rightarrow> 32 word"
  oor_i64 :: "rat \<Rightarrow> 64 word"
  oor_u64 :: "rat \<Rightarrow> 64 word"

text \<open>An environment for concrete runs: it refuses every encoding and document.\<close>

definition plain_env :: go_env where
  "plain_env = \<lparr>gob = (\<lambda>_. None), unmarshal = (\<lambda>_. None),
     oor_u32 = (\<lambda>_. 0), oor_i64 = (\<lambda>_. 0), oor_u64 = (\<lambda>_. 0)\<rparr>"

subsection \<open>Coercions (util/coerce.go)\<close>

text \<open>Conversion of a float discards the fraction, towards zero.\<close>

definition trunc_rat :: "rat \<Rightarrow> int" where
  "trunc_rat q = (if 0 \<le> q then \<lfloor>q\<rfloor> else - \<lfloor>- q\<rfloor>)"

definition float_to_unsigned :: "(rat \<Rightarrow> 'a::len word) \<Rightarrow> rat \<Rightarrow> 'a word" where
  "float_to_unsigned oor q =
     (let t = trunc_rat q in if 0 \<le> t \<and> t < 2 ^ LENGTH('a) then of_int t else oor q)"

definition float_to_int64 :: "(rat \<Rightarrow> 64 word) \<Rightarrow> rat \<Rightarrow> 64 word" where
  "float_to_int64 oor q =
     (let t = trunc_rat q in if - (2 ^ 63) \<le> t \<and> t < 2 ^ 63 then of_int t else oor q)"

text \<open>The results carry the value even beside an error, as \<open>strconv\<close> returns it.\<close>

fun CoerceToUint32 :: "go_env \<Rightarrow> gval \<Rightarrow> 32 word \<times> go_error option" where
  "CoerceToUint32 E (GInt t) = (ucast t, None)"
| "CoerceToUint32 E (GInt8 t) = (scast t, None)"
| "CoerceToUint32 E (GInt16 t) = (scast t, None)"
| "CoerceToUint32 E (GInt32 t) = (t, None)"
| "CoerceToUint32 E (GInt64 t) = (ucast t, None)"
| "CoerceToUint32 E (GUint t) = (ucast t, None)"
| "CoerceToUint32 E (GUint8 t) = (ucast t, None)"
| "CoerceToUint32 E (GUint16 t) = (ucast t, None)"
| "CoerceToUint32 E (GUint32 t) = (t, None)"
| "CoerceToUint32 E (GUint64 t) = (ucast t, None)"
| "CoerceToUint32 E (GFloat32 q) = (float_to_unsigned (oor_u32 E) q, None)"
| "CoerceToUint32 E (GFloat64 q) = (float_to_unsigned (oor_u32 E) q, None)"
| "CoerceToUint32 E (GString s) = (let r = ParseUint s 32 in (ucast (fst r), snd r))"
| "CoerceToUint32 E (GBytes s) = (let r = ParseUint s 32 in (ucast (fst r), snd r))"
| "CoerceToUint32 E GNil = (0, None)"
| "CoerceToUint32 E v = (0, Some (ErrMsg ''could not cource to uint32''))"

fun CoerceToInt64 :: "go_env \<Rightarrow> gval \<Rightarrow> 64 word \<times> go_error option" where
  "CoerceToInt64 E (GInt t) = (t, None)"
| "CoerceToInt64 E (GInt8 t) = (scast t, None)"
| "CoerceToInt64 E (GInt16 t) = (scast t, None)"
| "CoerceToInt64 E (GInt32 t) = (scast t, None)"
| "CoerceToInt64 E (GInt64 t) = (t, None)"
| "CoerceToInt64 E (GUint t) = (t, None)"
| "CoerceToInt64 E (GUint8 t) = (ucast t, None)"
| "CoerceToInt64 E (GUint16 t) = (ucast t, None)"
| "CoerceToInt64 E (GUint32 t) = (ucast t, None)"
| "CoerceToInt64 E (GUint64 t) = (t, None)"
| "CoerceToInt64 E (GFloat32 q) = (float_to_int64 (oor_i64 E) q, None)"
| "CoerceToInt64 E (GFloat64 q) = (float_to_int64 (oor_i64 E) q, None)"
| "CoerceToInt64 E (GString s) = ParseInt64 s"
| "CoerceToInt64 E (GBytes s) = ParseInt64 s"
| "CoerceToInt64 E GNil = (0, None)"
| "CoerceToInt64 E v = (0, Some (ErrMsg ''could not cource to int64''))"

fun CoerceToUint64 :: "go_env \<Rightarrow> gval \<Rightarrow> 64 word \<times> go_error option" where
  "CoerceToUint64 E (GInt t) = (t, None)"
| "CoerceToUint64 E (GInt8 t) = (scast t, None)"
| "CoerceToUint64 E (GInt16 t) = (scast t, None)"
| "CoerceToUint64 E (GInt32 t) = (scast t, None)"
| "CoerceToUint64 E (GInt64 t) = (t, None)"
| "CoerceToUint64 E (GUint t) = (t, None)"
| "CoerceToUint64 E (GUint8 t) = (ucast t, None)"
| "CoerceToUint64 E (GUint16 t) = (ucast t, None)"
| "CoerceToUint64 E (GUint32 t) = (ucast t, None)"
| "CoerceToUint64 E (GUint64 t) = (t, None)"
| "CoerceToUint64 E (GFloat32 q) = (float_to_unsigned (oor_u64 E) q, None)"
| "CoerceToUint64 E (GFloat64 q) = (float_to_unsigned (oor_u64 E) q, None)"
| "CoerceToUint64 E (GString s) = ParseUint s 64"
| "CoerceToUint64 E (GBytes s) = ParseUint s 64"
| "CoerceToUint64 E GNil = (0, None)"
| "CoerceToUint64 E v = (0, Some (ErrMsg ''could not cource to uint64''))"

text \<open>The caller's \<open>if err != nil { return errors.Trace(err) }\<close>.\<close>

definition checked :: "'a \<times> go_error option \<Rightarrow> 'a result" where
  "checked r = (case snd r of None \<Rightarrow> Inr (fst r) | Some e \<Rightarrow> Inl (Fails e))"

lemma checked_eq_Inr [result_simps]: "checked r = Inr x \<longleftrightarrow> r = (x, None)"
  by (cases r) (auto simp: checked_def split: option.splits)

lemma checked_eq_Inl [result_simps]:
  "checked r = Inl f \<longleftrightarrow> (\<exists>e. snd r = Some e \<and> f = Fails e)"
  by (cases r) (auto simp: checked_def split: option.splits)

lemma checked_pair [simp]: "checked (x, None) = Inr x" "checked (x, Some e) = Inl (Fails e)"
  by (simp_all add: checked_def)

text \<open>
  The number an integer of any of the ten kinds denotes. Every coercion reduces it modulo the
  target width: a conversion of a Go integer never fails, it wraps.
\<close>

fun int_value :: "gval \<Rightarrow> int option" where
  "int_value (GInt t) = Some (sint t)"
| "int_value (GInt8 t) = Some (sint t)"
| "int_value (GInt16 t) = Some (sint t)"
| "int_value (GInt32 t) = Some (sint t)"
| "int_value (GInt64 t) = Some (sint t)"
| "int_value (GUint t) = Some (uint t)"
| "int_value (GUint8 t) = Some (uint t)"
| "int_value (GUint16 t) = Some (uint t)"
| "int_value (GUint32 t) = Some (uint t)"
| "int_value (GUint64 t) = Some (uint t)"
| "int_value v = None"

lemma coerce_int:
  assumes "int_value v = Some i"
  shows "CoerceToUint32 E v = (word_of_int i, None)"
    and "CoerceToUint64 E v = (word_of_int i, None)"
    and "CoerceToInt64 E v = (word_of_int i, None)"
proof -
  have s: "word_of_int (sint t) = (scast t :: 'a::len word)" for t :: "'b::len word"
    by simp
  have u: "word_of_int (uint t) = (ucast t :: 'a::len word)" for t :: "'b::len word"
    by simp
  have d: "(scast t :: 32 word) = ucast t" for t :: "64 word"
    by (rule bit_word_eqI) (simp add: bit_word_scast_iff bit_word_ucast_iff)
  show "CoerceToUint32 E v = (word_of_int i, None)"
    using assms by (cases v) (auto simp: d)
  show "CoerceToUint64 E v = (word_of_int i, None)"
    using assms by (cases v) auto
  show "CoerceToInt64 E v = (word_of_int i, None)"
    using assms by (cases v) auto
qed

end
