(* ===== verification/Row_Change.thy ===== *)
theory Row_Change
  imports Go_Values
begin

text \<open>
  \<open>src/river/table_row_change.go\<close> and the row helpers of \<open>rule.go\<close>: one changed database
  row as the replication handler emits it, primary keys, and the conversion of values and rows
  into comparable Go array keys. A Go array or interface used as a map key or set element
  panics when it holds a slice or a map.
\<close>

type_synonym column_map = "(string, string list) amap"

datatype PrimaryKey = PrimaryKey (pk_Len: nat) (pk_Value: "gval list")

abbreviation InsertAction :: string where "InsertAction \<equiv> ''insert''"
abbreviation UpdateAction :: string where "UpdateAction \<equiv> ''update''"
abbreviation DeleteAction :: string where "DeleteAction \<equiv> ''delete''"

record TableRowChange =
  trc_Action :: string
  trc_Columns :: "string list"
  trc_ColumnMap :: column_map
  trc_DocID :: "64 word"
  trc_EventID :: "64 word"
  trc_Index :: string
  trc_OldRow :: row
  trc_NewRow :: row
  trc_PK :: PrimaryKey
  trc_TableName :: string
  trc_TS :: int

record ValuePair =
  vp_Old :: gval
  vp_New :: gval

subsection \<open>Hashable values\<close>

fun hashable :: "go_env \<Rightarrow> gval \<Rightarrow> gval" where
  "hashable E (GList xs) = (case gob E xs of Some buf \<Rightarrow> GString buf | None \<Rightarrow> GList xs)"
| "hashable E (GBytes s) = GString s"
| "hashable E v = v"

text \<open>Which dynamic types Go accepts as (part of) a map key.\<close>

fun key_ok :: "gval \<Rightarrow> bool" where
  "key_ok (GList xs) = False"
| "key_ok (GMap m) = False"
| "key_ok (GBytes s) = False"
| "key_ok v = True"

definition HasSameValues :: "ValuePair \<Rightarrow> bool" where
  "HasSameValues v \<longleftrightarrow> vp_Old v = vp_New v"

definition ColumnDiff :: "go_env \<Rightarrow> TableRowChange \<Rightarrow> nat \<Rightarrow> ValuePair result" where
  "ColumnDiff E c colNo =
     bindR (go_index (trc_OldRow c) colNo) (\<lambda>old.
     bindR (go_index (trc_NewRow c) colNo) (\<lambda>new.
     Inr \<lparr>vp_Old = hashable E old, vp_New = hashable E new\<rparr>))"

definition DocIDList :: "TableRowChange list \<Rightarrow> 64 word list" where
  "DocIDList c = map trc_DocID c"

subsection \<open>Rows and primary keys as arrays (rule.go)\<close>

text \<open>\<open>[128]interface{}\<close>: a longer row is an index panic, a shorter one is padded with nil.\<close>

definition rowToArray :: "go_env \<Rightarrow> row \<Rightarrow> gval list result" where
  "rowToArray E r =
     (if length r > 128 then Inl (Panics IndexOutOfRange)
      else Inr (map (hashable E) r @ replicate (128 - length r) GNil))"

text \<open>\<open>[16]interface{}\<close>, the key values of a row.\<close>

definition pk_array :: "gval list \<Rightarrow> PrimaryKey result" where
  "pk_array vs =
     (if length vs > 16 then Inl (Panics IndexOutOfRange)
      else Inr (PrimaryKey (length vs) (vs @ replicate (16 - length vs) GNil)))"

definition newPrimaryKey :: "go_env \<Rightarrow> gval list \<Rightarrow> PrimaryKey result" where
  "newPrimaryKey E values = pk_array (map (hashable E) values)"

definition newPrimaryKeyFromRow :: "go_env \<Rightarrow> nat list \<Rightarrow> row \<Rightarrow> PrimaryKey result" where
  "newPrimaryKeyFromRow E pkCols r =
     bindR (mapR (\<lambda>colNo. bindR (go_index r colNo) (\<lambda>v. Inr (hashable E v))) pkCols) pk_array"

definition emptyRow :: "row \<Rightarrow> row" where
  "emptyRow r = replicate (length r) GNil"

lemma hashable_GNil [simp]: "hashable E GNil = GNil"
  by simp

lemma hashable_key_ok: "key_ok v \<Longrightarrow> hashable E v = v"
  by (cases v) simp_all

lemma rowToArray_nth:
  "rowToArray E r = Inr a \<Longrightarrow> j < length r \<Longrightarrow> a ! j = hashable E (r ! j)"
  by (auto simp: rowToArray_def nth_append split: if_splits)

lemma rowToArray_eq_nth:
  "rowToArray E r = Inr a \<Longrightarrow> rowToArray E r' = Inr a \<Longrightarrow> j < length r \<Longrightarrow> j < length r' \<Longrightarrow>
   hashable E (r ! j) = hashable E (r' ! j)"
  using rowToArray_nth by metis

lemma rowToArray_ok: "length r \<le> 128 \<Longrightarrow> \<exists>a. rowToArray E r = Inr a"
  by (simp add: rowToArray_def)

lemma rowToArray_set:
  "rowToArray E r = Inr a \<Longrightarrow> set a \<subseteq> hashable E ` set r \<union> {GNil}"
  by (auto simp: rowToArray_def split: if_splits)

text \<open>Two rows with the same key have the same hashed values in the key columns.\<close>

lemma newPrimaryKeyFromRow_inject:
  assumes "newPrimaryKeyFromRow E cols r = Inr k" and "newPrimaryKeyFromRow E cols r' = Inr k"
    and "i < length cols"
  shows "hashable E (r ! (cols ! i)) = hashable E (r' ! (cols ! i))"
proof -
  let ?f = "\<lambda>r colNo. bindR (go_index r colNo) (\<lambda>v. Inr (hashable E v))"
  obtain vs ws where vs: "mapR (?f r) cols = Inr vs" "pk_array vs = Inr k"
    and ws: "mapR (?f r') cols = Inr ws" "pk_array ws = Inr k"
    using assms(1,2) by (auto simp: newPrimaryKeyFromRow_def result_simps)
  have "length vs = length ws" using vs(1) ws(1) by (simp add: mapR_length)
  with vs(2) ws(2) have "vs = ws" by (auto simp: pk_array_def split: if_splits)
  with mapR_nth[OF vs(1) assms(3)] mapR_nth[OF ws(1) assms(3)] show ?thesis
    by (auto simp: result_simps)
qed

end
