(* ===== verification/Changeset.thy ===== *)
theory Changeset
  imports Row_Change
begin

text \<open>
  \<open>src/river/changeset.go\<close>: the net changes of one document. The row changes of a document
  are folded into one \<open>RowDiff\<close> per table and primary key, tables and rows without a net
  change are pruned, and what is left tells which columns, and so which index attributes,
  changed. \<open>golang-set\<close> sets are sets; adding an unhashable element panics.
\<close>

record RowDiff =
  rd_IsInsert :: bool
  rd_IsUpdate :: bool
  rd_IsDelete :: bool
  rd_Old :: row
  rd_New :: row

record TableChangeSet =
  tcs_Columns :: "string list"
  tcs_ColumnMap :: column_map
  tcs_Changes :: "(PrimaryKey, RowDiff) amap"

record DocChangeSet =
  dcs_Changes :: "(string, TableChangeSet) amap"

subsection \<open>Folding row changes\<close>

definition first_diff :: "TableRowChange \<Rightarrow> RowDiff" where
  "first_diff c =
     \<lparr>rd_IsInsert = (trc_Action c = InsertAction),
      rd_IsUpdate = (trc_Action c = UpdateAction),
      rd_IsDelete = (trc_Action c = DeleteAction),
      rd_Old = trc_OldRow c, rd_New = trc_NewRow c\<rparr>"

definition next_diff :: "RowDiff \<Rightarrow> TableRowChange \<Rightarrow> RowDiff" where
  "next_diff d c =
     (let isInsert = (rd_IsInsert d \<and> trc_Action c \<noteq> DeleteAction);
          isDelete = (\<not> rd_IsInsert d \<and> trc_Action c = DeleteAction)
      in \<lparr>rd_IsInsert = isInsert,
          rd_IsUpdate = (\<not> isInsert \<and> \<not> isDelete),
          rd_IsDelete = isDelete,
          rd_Old = rd_Old d, rd_New = trc_NewRow c\<rparr>)"

definition TableChangeSet_ApplyChange ::
  "TableChangeSet \<Rightarrow> TableRowChange \<Rightarrow> TableChangeSet result" where
  "TableChangeSet_ApplyChange t c =
     (if \<not> list_all key_ok (pk_Value (trc_PK c)) then Inl (Panics UnhashableKey)
      else Inr (t\<lparr>tcs_Changes := aput (trc_PK c)
             (case map_of (tcs_Changes t) (trc_PK c) of
                Some d \<Rightarrow> next_diff d c
              | None \<Rightarrow> first_diff c) (tcs_Changes t)\<rparr>))"

definition DocChangeSet_ApplyChange ::
  "DocChangeSet \<Rightarrow> TableRowChange \<Rightarrow> DocChangeSet result" where
  "DocChangeSet_ApplyChange s c =
     (let table = trc_TableName c;
          t = (case map_of (dcs_Changes s) table of
                 Some t \<Rightarrow> t
               | None \<Rightarrow> \<lparr>tcs_Columns = trc_Columns c, tcs_ColumnMap = trc_ColumnMap c,
                          tcs_Changes = []\<rparr>)
      in bindR (TableChangeSet_ApplyChange t c) (\<lambda>t'.
         Inr (s\<lparr>dcs_Changes := aput table t' (dcs_Changes s)\<rparr>)))"

definition PruneUnchangedRows :: "TableChangeSet \<Rightarrow> TableChangeSet" where
  "PruneUnchangedRows t =
     t\<lparr>tcs_Changes := filter (\<lambda>e. rd_Old (snd e) \<noteq> rd_New (snd e)) (tcs_Changes t)\<rparr>"

definition PruneUnchangedTables :: "DocChangeSet \<Rightarrow> DocChangeSet" where
  "PruneUnchangedTables s =
     s\<lparr>dcs_Changes := filter (\<lambda>e. tcs_Changes (snd e) \<noteq> [])
        (map (\<lambda>e. (fst e, PruneUnchangedRows (snd e))) (dcs_Changes s))\<rparr>"

definition NewDocChangeSet :: "TableRowChange list \<Rightarrow> DocChangeSet result" where
  "NewDocChangeSet changeList =
     bindR (foldR DocChangeSet_ApplyChange \<lparr>dcs_Changes = []\<rparr> changeList) (\<lambda>s.
     Inr (PruneUnchangedTables s))"

subsection \<open>Changed columns and attributes\<close>

definition set_Add :: "gval list set \<Rightarrow> gval list \<Rightarrow> gval list set result" where
  "set_Add s a = (if list_all key_ok a then Inr (insert a s) else Inl (Panics UnhashableKey))"

definition collect_row ::
  "go_env \<Rightarrow> bool \<Rightarrow> row \<Rightarrow> gval list set \<Rightarrow> gval list set result" where
  "collect_row E cond r s = (if cond then bindR (rowToArray E r) (set_Add s) else Inr s)"

definition collect_diff ::
  "go_env \<Rightarrow> gval list set \<times> gval list set \<Rightarrow> RowDiff \<Rightarrow> (gval list set \<times> gval list set) result" where
  "collect_diff E ba d =
     bindR (collect_row E (rd_IsDelete d \<or> rd_IsUpdate d) (rd_Old d) (fst ba)) (\<lambda>olds.
     bindR (collect_row E (rd_IsInsert d \<or> rd_IsUpdate d) (rd_New d) (snd ba)) (\<lambda>news.
     Inr (olds, news)))"

text \<open>The inner loop over the columns; a row shorter than the column list is an index panic.\<close>

fun diff_columns :: "string list \<Rightarrow> row \<Rightarrow> row \<Rightarrow> string list result" where
  "diff_columns [] old new = Inr []"
| "diff_columns (col # cols) (x # old) (y # new) =
     bindR (diff_columns cols old new) (\<lambda>r. Inr (if x \<noteq> y then col # r else r))"
| "diff_columns (col # cols) old new = Inl (Panics IndexOutOfRange)"

definition add_columns :: "string list \<Rightarrow> string list \<Rightarrow> string list" where
  "add_columns columnSet r = columnSet @ filter (\<lambda>c. c \<notin> set columnSet) (remdups r)"

definition ChangedColumnNames :: "go_env \<Rightarrow> TableChangeSet \<Rightarrow> string list result" where
  "ChangedColumnNames E t =
     (let diffs = map snd (tcs_Changes t) in
      bindR (foldR (collect_diff E) ({}, {}) diffs) (\<lambda>ba.
        let olds = fst ba; news = snd ba in
        if news = olds then Inr []
        else if card news > 1 \<or> card olds > 1 then Inr (tcs_Columns t)
        else foldR (\<lambda>columnSet d.
               bindR (diff_columns (tcs_Columns t) (rd_Old d) (rd_New d)) (\<lambda>r.
               Inr (add_columns columnSet r))) [] diffs))"

definition mapped_attrs :: "column_map \<Rightarrow> string \<Rightarrow> string list" where
  "mapped_attrs cm col = (case map_of cm col of None \<Rightarrow> [] | Some as \<Rightarrow> as)"

definition attrs_of_columns :: "column_map \<Rightarrow> string list \<Rightarrow> string set" where
  "attrs_of_columns cm cols = (\<Union>col\<in>set cols. set (mapped_attrs cm col))"

definition ChangedAttrs :: "go_env \<Rightarrow> TableRowChange list \<Rightarrow> string set result" where
  "ChangedAttrs E changeList =
     bindR (NewDocChangeSet changeList) (\<lambda>dcs.
       foldR (\<lambda>attrs tcs.
         bindR (ChangedColumnNames E tcs) (\<lambda>cols.
         Inr (attrs \<union> attrs_of_columns (tcs_ColumnMap tcs) cols)))
       {} (map snd (dcs_Changes dcs)))"

subsection \<open>Value diffs of one column\<close>

text \<open>
  The \<open>ColumnValueDiff\<close> interface with its two implementations. Looking a value up in a set
  hashes it, and so panics on an unhashable one.
\<close>

datatype ColumnValueDiff =
    PlainValueDiff (pvd_OldValue: gval) (pvd_NewValue: gval)
  | SetValueDiff (svd_Added: "gval set") (svd_Deleted: "gval set")

definition IdentityRelation :: string where "IdentityRelation = ''identity''"
definition OneToOneRelation :: string where "OneToOneRelation = ''one_to_one''"
definition OneToManyRelation :: string where "OneToManyRelation = ''one_to_many''"
definition ManyToManyRelation :: string where "ManyToManyRelation = ''many_to_many''"

definition value_Add :: "gval \<Rightarrow> gval set \<Rightarrow> gval set result" where
  "value_Add v s =
     (if v = GNil then Inr s
      else if key_ok v then Inr (insert v s) else Inl (Panics UnhashableKey))"

definition PlainValueDiff_Init :: "ValuePair \<Rightarrow> ColumnValueDiff result" where
  "PlainValueDiff_Init v = Inr (PlainValueDiff (vp_Old v) (vp_New v))"

definition SetValueDiff_Init :: "ValuePair \<Rightarrow> ColumnValueDiff result" where
  "SetValueDiff_Init v =
     bindR (value_Add (vp_Old v) {}) (\<lambda>deleted.
     bindR (value_Add (vp_New v) {}) (\<lambda>added. Inr (SetValueDiff added deleted)))"

definition NewColumnValueDiff :: "ValuePair \<Rightarrow> string \<Rightarrow> ColumnValueDiff result" where
  "NewColumnValueDiff v relation =
     (if relation = IdentityRelation \<or> relation = OneToOneRelation then PlainValueDiff_Init v
      else if relation = OneToManyRelation then SetValueDiff_Init v
      else Inl (Panics (PanicMsg ''unknown table relation type'')))"

text \<open>Move a value into one set unless the other holds it, in which case it leaves that one.\<close>

definition cancel_or_add :: "gval \<Rightarrow> gval set \<Rightarrow> gval set \<Rightarrow> (gval set \<times> gval set) result" where
  "cancel_or_add v other this =
     (if v = GNil then Inr (other, this)
      else if \<not> key_ok v then Inl (Panics UnhashableKey)
      else if v \<in> other then Inr (other - {v}, this)
      else Inr (other, insert v this))"

definition PlainValueDiff_ApplyValue :: "gval \<Rightarrow> ValuePair \<Rightarrow> ColumnValueDiff" where
  [simp]: "PlainValueDiff_ApplyValue old v = PlainValueDiff old (vp_New v)"

fun ApplyValue :: "ColumnValueDiff \<Rightarrow> ValuePair \<Rightarrow> ColumnValueDiff result" where
  "ApplyValue (PlainValueDiff old new) v = Inr (PlainValueDiff_ApplyValue old v)"
| "ApplyValue (SetValueDiff added deleted) v =
     (if HasSameValues v then Inr (SetValueDiff added deleted)
      else
        bindR (cancel_or_add (vp_Old v) added deleted) (\<lambda>r.
        bindR (cancel_or_add (vp_New v) (snd r) (fst r)) (\<lambda>q.
        Inr (SetValueDiff (snd q) (fst q)))))"

definition PlainValueDiff_IsEmpty :: "gval \<Rightarrow> gval \<Rightarrow> bool" where
  [simp]: "PlainValueDiff_IsEmpty old new \<longleftrightarrow> HasSameValues \<lparr>vp_Old = old, vp_New = new\<rparr>"

fun ColumnValueDiff_IsEmpty :: "ColumnValueDiff \<Rightarrow> bool" where
  "ColumnValueDiff_IsEmpty (PlainValueDiff old new) = PlainValueDiff_IsEmpty old new"
| "ColumnValueDiff_IsEmpty (SetValueDiff added deleted) \<longleftrightarrow> added = deleted"

text \<open>
  The meaning of a set diff: the value set \<open>S\<close> of a one-to-many column compared with the set
  \<open>S0\<close> it started from.
\<close>

definition set_diff_of :: "gval set \<Rightarrow> gval set \<Rightarrow> ColumnValueDiff" where
  "set_diff_of S0 S = SetValueDiff (S - S0) (S0 - S)"

definition value_step :: "gval set \<Rightarrow> ValuePair \<Rightarrow> gval set" where
  "value_step S v = (S - {vp_Old v}) \<union> ({vp_New v} - {GNil})"

lemma cancel_or_add_eq:
  assumes "v = GNil \<or> key_ok v"
  shows "cancel_or_add v other this =
     Inr (other - ({v} - {GNil}), this \<union> (({v} - {GNil}) - other))"
  using assms by (auto simp: cancel_or_add_def)

lemma ApplyValue_set_diff:
  assumes "vp_Old v = GNil \<or> vp_Old v \<in> S" and "GNil \<notin> S" "GNil \<notin> S0"
    and "vp_New v = vp_Old v \<or> vp_New v \<notin> S"
    and "\<forall>x\<in>{vp_Old v, vp_New v}. x = GNil \<or> key_ok x"
  shows "ApplyValue (set_diff_of S0 S) v = Inr (set_diff_of S0 (value_step S v))"
proof (cases "HasSameValues v")
  case True
  then have "value_step S v = S"
    using assms(1,2) by (auto simp: value_step_def HasSameValues_def)
  with True show ?thesis by (simp add: set_diff_of_def)
next
  case False
  let ?o = "{vp_Old v} - {GNil}" and ?n = "{vp_New v} - {GNil}"
  have "ApplyValue (set_diff_of S0 S) v =
      Inr (SetValueDiff (((S - S0) - ?o) \<union> (?n - ((S0 - S) \<union> (?o - (S - S0)))))
        (((S0 - S) \<union> (?o - (S - S0))) - ?n))"
    using False assms(5) by (simp add: set_diff_of_def cancel_or_add_eq)
  moreover have "((S - S0) - ?o) \<union> (?n - ((S0 - S) \<union> (?o - (S - S0)))) = value_step S v - S0"
    and "((S0 - S) \<union> (?o - (S - S0))) - ?n = S0 - value_step S v"
    using assms(1-4) False by (auto simp: value_step_def HasSameValues_def)
  ultimately show ?thesis by (simp add: set_diff_of_def)
qed

lemma set_diff_IsEmpty: "ColumnValueDiff_IsEmpty (set_diff_of S0 S) \<longleftrightarrow> S = S0"
  by (auto simp: set_diff_of_def)

end
