(* ===== verification/Query_Text.thy ===== *)
theory Query_Text
  imports Go_Values
begin

text \<open>
  The query texts the program sends to Manticore: \<open>QuoteString\<close> of \<open>src/sphinx/sphinx.go\<close> and
  the three formatters of \<open>src/river/format_query.go\<close>, with the reader of a quoted literal that
  says what the text means.
\<close>

subsection \<open>Quoting\<close>

definition QuoteString :: "string \<Rightarrow> string" where
  "QuoteString val =
     (let val = replace_char (CHR 0x5C) [CHR 0x5C, CHR 0x5C] val;
          val = replace_char (CHR 0x27) [CHR 0x5C, CHR 0x27] val;
          val = replace_char (CHR 0x00) [] val
      in [CHR 0x27] @ val @ [CHR 0x27])"

text \<open>
  Reading a literal back: a backslash makes the next byte literal, an unescaped quote ends it.
  The result is the literal's value and the text behind the closing quote.
\<close>

fun read_body :: "string \<Rightarrow> (string \<times> string) option" where
  "read_body [] = None"
| "read_body (c # cs) =
     (if c = CHR 0x27 then Some ([], cs)
      else if c = CHR 0x5C
      then (case cs of [] \<Rightarrow> None
            | e # cs' \<Rightarrow> map_option (\<lambda>r. (e # fst r, snd r)) (read_body cs'))
      else map_option (\<lambda>r. (c # fst r, snd r)) (read_body cs))"

definition read_literal :: "string \<Rightarrow> (string \<times> string) option" where
  "read_literal s =
     (case s of [] \<Rightarrow> None | c # cs \<Rightarrow> if c = CHR 0x27 then read_body cs else None)"

lemma read_body_quoted:
  "read_body (replace_char (CHR 0x00) [] (replace_char (CHR 0x27) [CHR 0x5C, CHR 0x27]
      (replace_char (CHR 0x5C) [CHR 0x5C, CHR 0x5C] v)) @ CHR 0x27 # rest)
   = Some (filter (\<lambda>c. c \<noteq> CHR 0x00) v, rest)"
  by (induction v) auto

lemma read_body_plain:
  "CHR 0x27 \<notin> set v \<Longrightarrow> CHR 0x5C \<notin> set v \<Longrightarrow> read_body (v @ CHR 0x27 # rest) = Some (v, rest)"
  by (induction v) auto

subsection \<open>Statements (format_query.go)\<close>

definition formatReplaceQuery :: "string \<Rightarrow> string list \<Rightarrow> string list list \<Rightarrow> string" where
  "formatReplaceQuery index flds values =
     ''REPLACE INTO '' @ index @ '' ('' @ join '','' flds @ '') VALUES '' @
     join '','' (map (\<lambda>data. ''('' @ join '','' data @ '')'') values)"

text \<open>The loop over the fields reads \<open>values[i]\<close>: fewer values than fields is an index panic.\<close>

fun set_clauses :: "string list \<Rightarrow> string list \<Rightarrow> string list result" where
  "set_clauses [] vs = Inr []"
| "set_clauses (f # fs) [] = Inl (Panics IndexOutOfRange)"
| "set_clauses (f # fs) (v # vs) =
     bindR (set_clauses fs vs) (\<lambda>r. Inr ((f @ '' = '' @ v) # r))"

definition formatUpdateQuery ::
  "string \<Rightarrow> 64 word \<Rightarrow> string list \<Rightarrow> string list \<Rightarrow> string result" where
  "formatUpdateQuery index docid flds values =
     bindR (set_clauses flds values) (\<lambda>setClause.
     Inr (''UPDATE '' @ index @ '' SET '' @ join '','' setClause @
          '' WHERE id = '' @ dec (unat docid)))"

definition formatDeleteQuery :: "string \<Rightarrow> 64 word list \<Rightarrow> string" where
  "formatDeleteQuery index docIDs =
     ''DELETE FROM '' @ index @ '' WHERE id IN ('' @
     join '','' (map (\<lambda>i. dec (unat i)) docIDs) @ '')''"

lemma set_clauses_ok:
  "length fs \<le> length vs \<Longrightarrow> set_clauses fs vs = Inr (map (\<lambda>(f, v). f @ '' = '' @ v) (zip fs vs))"
  by (induction fs vs rule: set_clauses.induct) auto

subsection \<open>Properties\<close>

text \<open>
  C29. Quoting is safe: whatever the bytes of a value, the literal \<open>QuoteString\<close> makes of it reads
  back as that value without its NUL bytes, and ends exactly where the quoted text ends, so no
  part of a value is ever read as query text.
\<close>

theorem QuoteString_roundtrip:
  "read_literal (QuoteString v @ rest) = Some (filter (\<lambda>c. c \<noteq> CHR 0x00) v, rest)"
proof -
  have "CHR 0x27 # s @ [CHR 0x27] @ rest = CHR 0x27 # (s @ CHR 0x27 # rest)" for s by simp
  then show ?thesis
    by (simp add: QuoteString_def Let_def read_literal_def read_body_quoted del: replace_char_simps)
qed

text \<open>
  The id list of a DELETE statement is unambiguous: splitting the parenthesised text at the
  commas and parsing every piece as a 64-bit unsigned number gives back exactly the ids, so the
  statement deletes the documents it was made for.
\<close>

theorem formatDeleteQuery_ids:
  assumes "ids \<noteq> []"
  shows "\<exists>body. formatDeleteQuery index ids = ''DELETE FROM '' @ index @ '' WHERE id IN ('' @ body @ '')'' \<and>
           map (\<lambda>s. ParseUint s 64) (split_on (CHR '','') body) = map (\<lambda>i. (i, None)) ids"
proof -
  let ?body = "join '','' (map (\<lambda>i. dec (unat i)) ids)"
  have "split_on (CHR '','') ?body = map (\<lambda>i. dec (unat i)) ids"
    using assms by (intro split_on_join) (auto simp: not_in_dec)
  moreover have "ParseUint (dec (unat i)) 64 = (i, None)" for i :: "64 word"
    using ParseUint_dec[of 64 "unat i"] unsigned_less[of i] by simp
  ultimately show ?thesis by (intro exI[of _ ?body]) (simp add: formatDeleteQuery_def)
qed

theorem formatDeleteQuery_ids_witness:
  "\<exists>body. formatDeleteQuery ''idx'' [7, 12] = ''DELETE FROM '' @ ''idx'' @ '' WHERE id IN ('' @ body @ '')'' \<and>
     map (\<lambda>s. ParseUint s 64) (split_on (CHR '','') body) = map (\<lambda>i. (i, None)) [7, 12]"
  by (rule formatDeleteQuery_ids) simp

end
