(* ===== verification/Source_Config.thy ===== *)
theory Source_Config
  imports Go_Values
begin

text \<open>
  The data-source part of \<open>src/river/config.go\<close>: field types, what the parsed query of an index
  provides, and the checks on both. The parsed query template of the SQL parser is the function
  from a list of document ids to the query text that \<open>buildSelectQuery\<close> obtains from it.
\<close>

definition DocID :: string where "DocID = ''id''"
definition AttrJson :: string where "AttrJson = ''attr_json''"
definition AttrTimestamp :: string where "AttrTimestamp = ''attr_timestamp''"
definition AttrBool :: string where "AttrBool = ''attr_bool''"
definition AttrFloat :: string where "AttrFloat = ''attr_float''"
definition AttrUint :: string where "AttrUint = ''attr_uint''"
definition AttrBigint :: string where "AttrBigint = ''attr_bigint''"
definition AttrMulti :: string where "AttrMulti = ''attr_multi''"
definition AttrMulti64 :: string where "AttrMulti64 = ''attr_multi_64''"
definition AttrString :: string where "AttrString = ''attr_string''"
definition TextField :: string where "TextField = ''field''"

lemmas field_type_defs =
  DocID_def AttrJson_def AttrTimestamp_def AttrBool_def AttrFloat_def AttrUint_def AttrBigint_def
  AttrMulti_def AttrMulti64_def AttrString_def TextField_def

definition checkIndexColumnType :: "string \<Rightarrow> unit result" where
  "checkIndexColumnType t =
     (if t \<in> {DocID, AttrJson, AttrTimestamp, AttrBool, AttrFloat, AttrUint, AttrBigint,
              AttrMulti, AttrMulti64, AttrString, TextField}
      then Inr ()
      else Inl (Fails (ErrMsg (''invalid index column type: '' @ t))))"

record IndexConfigField =
  icf_Name :: string
  icf_Type :: string

record SourceConfigDetails =
  scd_attrFields :: "string set"
  scd_fieldList :: "IndexConfigField list"
  scd_fieldTypes :: "(string, string) amap"
  scd_queryTables :: "(string, string) amap"
  scd_queryColumns :: "(string, string set) amap"
  scd_queryTpl :: "64 word list \<Rightarrow> string result"

record SourceConfig =
  sc_Query :: string
  sc_Parts :: "16 word"
  sc_JsonTable :: string
  sc_StoragePath :: string
  sc_details :: SourceConfigDetails

definition hasTable :: "SourceConfig \<Rightarrow> string \<Rightarrow> bool" where
  "hasTable s tableName \<longleftrightarrow> tableName \<in> snd ` set (scd_queryTables (sc_details s))"

definition buildSelectQuery :: "(64 word list \<Rightarrow> string result) \<Rightarrow> 64 word list \<Rightarrow> string result" where
  "buildSelectQuery queryTpl ids = queryTpl ids"

end
