(* ===== verification/DB_Value.thy ===== *)
theory DB_Value
  imports Query_Text Source_Config
begin

text \<open>
  \<open>src/river/db_value.go\<close>: the text of one field of a fetched row, by the field's index type.
  \<open>mysql.Result\<close> is a library type: its accessors are the fields of a record, each giving a
  value and an error.
\<close>

record mysql_result =
  res_Fields :: "string list"
  res_FieldNames :: "(string, nat) amap"
  res_RowNumber :: nat
  res_AffectedRows :: "64 word"
  res_GetUint :: "nat \<Rightarrow> nat \<Rightarrow> 64 word \<times> go_error option"
  res_GetFloat :: "nat \<Rightarrow> nat \<Rightarrow> rat \<times> go_error option"
  res_GetString :: "nat \<Rightarrow> nat \<Rightarrow> string \<times> go_error option"
  res_GetValue :: "nat \<Rightarrow> nat \<Rightarrow> gval \<times> go_error option"
  res_GetUintByName :: "nat \<Rightarrow> string \<Rightarrow> 64 word \<times> go_error option"
  res_GetStringByName :: "nat \<Rightarrow> string \<Rightarrow> string \<times> go_error option"

subsection \<open>fmt verbs\<close>

definition round_half_even :: "rat \<Rightarrow> nat" where
  "round_half_even q =
     (let f = nat \<lfloor>q\<rfloor>; r = q - of_nat f
      in if r > 1 / 2 \<or> (r = 1 / 2 \<and> odd f) then f + 1 else f)"

definition pad_zeros :: "nat \<Rightarrow> string \<Rightarrow> string" where
  "pad_zeros n s = replicate (n - length s) (CHR ''0'') @ s"

text \<open>\<open>%.<p>f\<close>: \<open>p\<close> decimals, rounded to even on a tie.\<close>

definition fmt_fixed :: "nat \<Rightarrow> rat \<Rightarrow> string" where
  "fmt_fixed p q =
     (let n = round_half_even (\<bar>q\<bar> * 10 ^ p)
      in (if q < 0 then ''-'' else []) @ dec (n div 10 ^ p) @
         (if p = 0 then [] else ''.'' @ pad_zeros p (dec (n mod 10 ^ p))))"

text \<open>
  \<open>%d\<close> of an arbitrary value: integers in decimal, byte slices as the list of their bytes, and
  fmt's complaint \<open>%!d(type=value)\<close> for what is not an integer. \<open>fmt_v\<close> prints the value in
  the complaint for the kinds whose default format is not needed here.
\<close>

fun fmt_d :: "(gval \<Rightarrow> string) \<Rightarrow> gval \<Rightarrow> string" where
  "fmt_d fmt_v (GInt t) = dec_int (sint t)"
| "fmt_d fmt_v (GInt8 t) = dec_int (sint t)"
| "fmt_d fmt_v (GInt16 t) = dec_int (sint t)"
| "fmt_d fmt_v (GInt32 t) = dec_int (sint t)"
| "fmt_d fmt_v (GInt64 t) = dec_int (sint t)"
| "fmt_d fmt_v (GUint t) = dec (unat t)"
| "fmt_d fmt_v (GUint8 t) = dec (unat t)"
| "fmt_d fmt_v (GUint16 t) = dec (unat t)"
| "fmt_d fmt_v (GUint32 t) = dec (unat t)"
| "fmt_d fmt_v (GUint64 t) = dec (unat t)"
| "fmt_d fmt_v GNil = ''%!d(<nil>)''"
| "fmt_d fmt_v (GString s) = ''%!d(string='' @ s @ '')''"
| "fmt_d fmt_v (GBytes s) = ''['' @ join '' '' (map (\<lambda>c. dec (of_char c)) s) @ '']''"
| "fmt_d fmt_v (GBool b) = ''%!d(bool='' @ (if b then ''true'' else ''false'') @ '')''"
| "fmt_d fmt_v v = ''%!d('' @ fmt_v v @ '')''"

subsection \<open>Formatting by field type\<close>

definition formatDocID :: "mysql_result \<Rightarrow> nat \<Rightarrow> nat \<Rightarrow> string result" where
  "formatDocID result rowNo colNo =
     bindR (checked (res_GetUint result rowNo colNo)) (\<lambda>val. Inr (dec (unat val)))"

definition formatFloat :: "mysql_result \<Rightarrow> nat \<Rightarrow> nat \<Rightarrow> string result" where
  "formatFloat result rowNo colNo =
     bindR (checked (res_GetFloat result rowNo colNo)) (\<lambda>val. Inr (fmt_fixed 6 val))"

definition formatUint :: "go_env \<Rightarrow> mysql_result \<Rightarrow> nat \<Rightarrow> nat \<Rightarrow> string result" where
  "formatUint E result rowNo colNo =
     bindR (checked (res_GetValue result rowNo colNo)) (\<lambda>val.
     bindR (checked (CoerceToUint32 E val)) (\<lambda>typed. Inr (dec (unat typed))))"

definition formatBigint :: "go_env \<Rightarrow> mysql_result \<Rightarrow> nat \<Rightarrow> nat \<Rightarrow> string result" where
  "formatBigint E result rowNo colNo =
     bindR (checked (res_GetValue result rowNo colNo)) (\<lambda>val.
     bindR (checked (CoerceToInt64 E val)) (\<lambda>typed. Inr (dec_int (sint typed))))"

definition formatString :: "mysql_result \<Rightarrow> nat \<Rightarrow> nat \<Rightarrow> string result" where
  "formatString result rowNo colNo =
     bindR (checked (res_GetString result rowNo colNo)) (\<lambda>val. Inr (QuoteString val))"

definition formatMulti :: "mysql_result \<Rightarrow> nat \<Rightarrow> nat \<Rightarrow> string result" where
  "formatMulti result rowNo colNo =
     bindR (checked (res_GetString result rowNo colNo)) (\<lambda>val.
       if val = ''null'' \<or> val = [] then Inr ''()''
       else Inr (''('' @ trim_char (CHR '']'') (trim_char (CHR ''['') val) @ '')''))"

definition formatBool :: "(gval \<Rightarrow> string) \<Rightarrow> mysql_result \<Rightarrow> nat \<Rightarrow> nat \<Rightarrow> string result" where
  "formatBool fmt_v result rowNo colNo =
     bindR (checked (res_GetValue result rowNo colNo)) (\<lambda>val. Inr (fmt_d fmt_v val))"

definition formatTimestamp :: "mysql_result \<Rightarrow> nat \<Rightarrow> nat \<Rightarrow> string result" where
  "formatTimestamp result rowNo colNo =
     bindR (checked (res_GetFloat result rowNo colNo)) (\<lambda>val. Inr (fmt_fixed 0 val))"

definition formatJson :: "mysql_result \<Rightarrow> nat \<Rightarrow> nat \<Rightarrow> string result" where
  "formatJson result rowNo colNo =
     bindR (checked (res_GetString result rowNo colNo)) (\<lambda>val. Inr (squote val))"

definition getDBValueExpression ::
  "go_env \<Rightarrow> (gval \<Rightarrow> string) \<Rightarrow> mysql_result \<Rightarrow> string \<Rightarrow> nat \<Rightarrow> nat \<Rightarrow> string result" where
  "getDBValueExpression E fmt_v result fieldType rowNo colNo =
     (if fieldType = DocID then formatDocID result rowNo colNo
      else if fieldType = AttrFloat then formatFloat result rowNo colNo
      else if fieldType = AttrUint then formatUint E result rowNo colNo
      else if fieldType = AttrBigint then formatBigint E result rowNo colNo
      else if fieldType = AttrString \<or> fieldType = TextField then formatString result rowNo colNo
      else if fieldType = AttrMulti \<or> fieldType = AttrMulti64 then formatMulti result rowNo colNo
      else if fieldType = AttrBool then formatBool fmt_v result rowNo colNo
      else if fieldType = AttrTimestamp then formatTimestamp result rowNo colNo
      else if fieldType = AttrJson then formatJson result rowNo colNo
      else Inl (Fails (ErrMsg (''somehow got invalid '' @ squote fieldType @ '' type from config''))))"

subsection \<open>Lemmas on the verbs\<close>

lemma round_half_even_of_nat [simp]: "round_half_even (of_nat n) = n"
  by (simp add: round_half_even_def Let_def)

lemma round_half_even_error:
  assumes "0 \<le> q"
  shows "\<bar>of_nat (round_half_even q) - q\<bar> \<le> 1 / 2"
proof -
  define f where "f = nat \<lfloor>q\<rfloor>"
  have "0 \<le> \<lfloor>q\<rfloor>" using assms by simp
  then have fq: "(of_nat f :: rat) = of_int \<lfloor>q\<rfloor>" unfolding f_def by (metis int_nat_eq of_int_of_nat_eq)
  have lo: "of_nat f \<le> q" and hi: "q < of_nat f + 1" unfolding fq by linarith+
  consider "round_half_even q = f + 1" "q - of_nat f \<ge> 1 / 2"
    | "round_half_even q = f" "q - of_nat f \<le> 1 / 2"
    unfolding round_half_even_def f_def[symmetric] Let_def
    by (cases "q - of_nat f > 1 / 2"; cases "q - of_nat f = 1 / 2"; cases "even f") auto
  then show ?thesis using lo hi by cases (auto simp: abs_if)
qed

lemma fmt_fixed_nat: "fmt_fixed 0 (of_nat n) = dec n"
  using round_half_even_of_nat[of n] by (simp add: fmt_fixed_def Let_def)

lemma trim_char_brackets:
  assumes "c \<noteq> d" and "c \<notin> set s" and "d \<notin> set s" and "s \<noteq> []"
  shows "trim_char d (trim_char c (c # s @ [d])) = s"
proof -
  have dw: "dropWhile (\<lambda>x. x = a) t = t" if "a \<notin> set t" for a and t :: string
    using that by (cases t) auto
  have "dropWhile (\<lambda>x. x = c) (s @ [d]) = s @ [d]"
    using assms by (cases s) auto
  then have "trim_char c (c # s @ [d]) = s @ [d]" using assms(1,2) dw[of c "rev s"] by (simp add: trim_char_def)
  moreover have "dropWhile (\<lambda>x. x = d) (s @ [d]) = s @ [d]" using assms by (cases s) auto
  ultimately show ?thesis using assms(3) dw[of d "rev s"] by (simp add: trim_char_def)
qed

subsection \<open>Properties\<close>

definition sample_result :: "gval \<Rightarrow> string \<Rightarrow> mysql_result" where
  "sample_result v s =
     \<lparr>res_Fields = [''f''], res_FieldNames = [(''f'', 0)], res_RowNumber = 1, res_AffectedRows = 1,
      res_GetUint = (\<lambda>_ _. (1, None)), res_GetFloat = (\<lambda>_ _. (1, None)),
      res_GetString = (\<lambda>_ _. (s, None)), res_GetValue = (\<lambda>_ _. (v, None)),
      res_GetUintByName = (\<lambda>_ _. (1, None)), res_GetStringByName = (\<lambda>_ _. (s, None))\<rparr>"

text \<open>
  An integer column of any width and signedness, formatted for a 32-bit attribute, is the
  decimal text of its value modulo \<open>2^32\<close>: formatting an integer never fails, and it keeps every
  value that fits.
\<close>

theorem formatUint_integer:
  assumes "res_GetValue result rowNo colNo = (v, None)" and "int_value v = Some i"
  shows "formatUint E result rowNo colNo = Inr (dec (nat (i mod 2 ^ 32)))"
proof -
  have "unat (word_of_int i :: 32 word) = nat (i mod 2 ^ 32)"
    by (simp add: unsigned_of_int take_bit_eq_mod)
  then show ?thesis using assms(1) coerce_int(1)[OF assms(2)] by (simp add: formatUint_def)
qed

theorem formatUint_integer_witness:
  "formatUint plain_env (sample_result (GInt8 (- 1)) []) 0 0 = Inr (dec (nat ((- 1) mod 2 ^ 32)))"
  by (rule formatUint_integer[where v = "GInt8 (- 1)"]) (simp_all add: sample_result_def)

text \<open>
  The switch over field types is exactly the set of types that the configuration accepts:
  when the library reads every field without error and the values are convertible, a field is
  formatted if and only if \<open>checkIndexColumnType\<close> allows its type.
\<close>

theorem getDBValueExpression_exhaustive:
  assumes "snd (res_GetUint result i j) = None" and "snd (res_GetFloat result i j) = None"
    and "snd (res_GetString result i j) = None" and "snd (res_GetValue result i j) = None"
    and "snd (CoerceToUint32 E (fst (res_GetValue result i j))) = None"
    and "snd (CoerceToInt64 E (fst (res_GetValue result i j))) = None"
  shows "(\<exists>s. getDBValueExpression E fmt_v result t i j = Inr s) \<longleftrightarrow> checkIndexColumnType t = Inr ()"
proof -
  note fmts = formatDocID_def formatFloat_def formatUint_def formatBigint_def formatString_def
    formatMulti_def formatBool_def formatTimestamp_def formatJson_def checked_def
  obtain s6 where multi: "formatMulti result i j = Inr s6"
    using assms(3)
    by (cases "fst (res_GetString result i j) \<in> {''null'', []}") (auto simp: fmts)
  obtain s1 s2 s3 s4 s5 s7 s8 s9 where
    "formatDocID result i j = Inr s1" "formatFloat result i j = Inr s2"
    "formatUint E result i j = Inr s3" "formatBigint E result i j = Inr s4"
    "formatString result i j = Inr s5"
    "formatBool fmt_v result i j = Inr s7" "formatTimestamp result i j = Inr s8"
    "formatJson result i j = Inr s9"
    using assms by (simp add: fmts)
  note texts = this multi
  have some: "(\<exists>s. (if c then Inr x else y) = Inr s) \<longleftrightarrow> c \<or> (\<exists>s. y = Inr s)"
    for c and x :: string and y :: "string result" by simp
  show ?thesis
    unfolding getDBValueExpression_def checkIndexColumnType_def texts some by simp
qed

theorem getDBValueExpression_exhaustive_witness:
  "(\<exists>s. getDBValueExpression plain_env (\<lambda>_. []) (sample_result GNil []) AttrBool 0 0 = Inr s) \<longleftrightarrow>
   checkIndexColumnType AttrBool = Inr ()"
  by (rule getDBValueExpression_exhaustive) (simp_all add: sample_result_def)

text \<open>
  C40. A JSON column is put between quotes without escaping. If its text holds a quote, reading
  the literal back stops at that quote: the value is cut there and the rest of the column's text
  is read as part of the statement. (An apostrophe inside a JSON string is enough.)
\<close>

theorem formatJson_unescaped_quote:
  assumes "res_GetString result rowNo colNo = (pre @ CHR 0x27 # post, None)"
    and "CHR 0x27 \<notin> set pre" and "CHR 0x5C \<notin> set pre"
  shows "\<exists>lit. formatJson result rowNo colNo = Inr lit \<and>
           read_literal (lit @ rest) = Some (pre, post @ [CHR 0x27] @ rest)"
  using assms(1) read_body_plain[OF assms(2,3), of "post @ CHR 0x27 # rest"]
  by (simp add: formatJson_def squote_def read_literal_def)

theorem formatJson_unescaped_quote_witness:
  "\<exists>lit. formatJson (sample_result GNil (''[1'' @ CHR 0x27 # '']'')) 0 0 = Inr lit \<and>
     read_literal (lit @ '')'') = Some (''[1'', '']'' @ [CHR 0x27] @ '')'')"
  by (rule formatJson_unescaped_quote) (simp_all add: sample_result_def)

text \<open>
  A NULL in a boolean column is not formatted as a value: fmt prints its complaint
  \<open>%!d(<nil>)\<close>, which goes into the statement as it is. (The numeric types turn NULL into 0.)
\<close>

theorem formatBool_null:
  assumes "res_GetValue result rowNo colNo = (GNil, None)"
  shows "formatBool fmt_v result rowNo colNo = Inr ''%!d(<nil>)'' \<and>
         formatUint E result rowNo colNo = Inr ''0'' \<and> formatBigint E result rowNo colNo = Inr ''0''"
proof -
  have "dec 0 = ''0''" by code_simp
  then show ?thesis
    using assms by (simp add: formatBool_def formatUint_def formatBigint_def dec_int_def)
qed

theorem formatBool_null_witness:
  "formatBool (\<lambda>_. []) (sample_result GNil []) 0 0 = Inr ''%!d(<nil>)'' \<and>
   formatUint plain_env (sample_result GNil []) 0 0 = Inr ''0'' \<and>
   formatBigint plain_env (sample_result GNil []) 0 0 = Inr ''0''"
  by (rule formatBool_null) (simp add: sample_result_def)

end
