(* ===== verification/Conventions.thy ===== *)
theory Conventions
  imports Go_Text
begin

text \<open>
  The naming conventions of \<open>src/util/conventions.go\<close>: the names of the parts of a
  partitioned index and the part a document lives in. The remainder by a number of parts of
  zero is Go's division panic.
\<close>

definition IndexChunkName :: "string \<Rightarrow> 16 word \<Rightarrow> 16 word \<Rightarrow> string" where
  "IndexChunkName index parts chunkNo =
     (if parts > 1 then index @ ''_part_'' @ dec (unat chunkNo) else index)"

definition IndexChunk :: "64 word \<Rightarrow> 16 word \<Rightarrow> 16 word result" where
  "IndexChunk docid parts =
     (if parts = 0 then Inl (Panics IntegerDivideByZero)
      else Inr (ucast (docid mod (ucast parts :: 64 word))))"

definition PlainIndexName :: "string \<Rightarrow> string" where
  "PlainIndexName index = index @ ''_plain''"

text \<open>
  \<open>filepath.Base\<close> on a slash-separated path: trailing slashes are dropped, then everything up
  to the last slash; the empty path is ``.'' and a path of slashes only is ``/''.
\<close>

definition filepath_Base :: "string \<Rightarrow> string" where
  "filepath_Base path =
     (if path = [] then ''.''
      else
        (let p = rev (dropWhile (\<lambda>c. c = CHR ''/'') (rev path));
             b = rev (takeWhile (\<lambda>c. c \<noteq> CHR ''/'') (rev p))
         in if b = [] then ''/'' else b))"

definition DictionaryTmpFilename :: "string \<Rightarrow> string \<Rightarrow> string" where
  "DictionaryTmpFilename index file = index @ ''.dictionary.'' @ filepath_Base file"

lemma IndexChunk_eq:
  assumes "parts \<noteq> 0"
  shows "\<exists>c. IndexChunk docid parts = Inr c \<and> unat c = unat docid mod unat parts \<and> c < parts"
proof -
  let ?m = "docid mod (ucast parts :: 64 word)"
  have lt: "unat parts < 2 ^ 16" using unsigned_less[of parts] by simp
  then have p: "unat (ucast parts :: 64 word) = unat parts"
    by (simp add: unsigned_ucast_eq take_bit_nat_eq_self_iff)
  have "0 < unat parts" using assms by (simp add: unat_gt_0)
  have m: "unat ?m = unat docid mod unat parts"
    by (simp add: unat_mod p)
  have r: "unat docid mod unat parts < unat parts"
    using \<open>0 < unat parts\<close> by simp
  then have "unat ?m < 2 ^ 16" using m lt by simp
  then have c: "unat (ucast ?m :: 16 word) = unat docid mod unat parts"
    using m by (simp add: unsigned_ucast_eq take_bit_nat_eq_self_iff)
  moreover have "(ucast ?m :: 16 word) < parts"
    unfolding word_less_nat_alt using c r by simp
  ultimately show ?thesis using assms by (simp add: IndexChunk_def)
qed

lemma IndexChunkName_inject:
  "parts > 1 \<Longrightarrow> IndexChunkName index parts c = IndexChunkName index parts d \<Longrightarrow> c = d"
  by (simp add: IndexChunkName_def word_unat_eq_iff)

lemma filepath_Base_nonempty: "filepath_Base p \<noteq> []"
  by (simp add: filepath_Base_def Let_def)

lemma filepath_Base_no_slash:
  "filepath_Base p = ''/'' \<or> CHR ''/'' \<notin> set (filepath_Base p)"
  by (auto simp: filepath_Base_def Let_def dest: set_takeWhileD)

end
