(* ===== verification/Net_Addr.thy ===== *)
theory Net_Addr
  imports Go_Text
begin

text \<open>
  \<open>net.SplitHostPort\<close>, which the configuration and the Manticore connections apply to
  addresses.
\<close>

fun first_index :: "'a \<Rightarrow> 'a list \<Rightarrow> nat option" where
  "first_index x [] = None"
| "first_index x (y # ys) = (if y = x then Some 0 else map_option Suc (first_index x ys))"

fun last_index :: "'a \<Rightarrow> 'a list \<Rightarrow> nat option" where
  "last_index x [] = None"
| "last_index x (y # ys) =
     (case last_index x ys of Some i \<Rightarrow> Some (Suc i) | None \<Rightarrow> if y = x then Some 0 else None)"

definition addr_error :: "string \<Rightarrow> string \<Rightarrow> 'a result" where
  "addr_error addr why =
     Inl (Fails (ErrMsg (if addr = [] then why else ''address '' @ addr @ '': '' @ why)))"

text \<open>The checks behind the choice of host: \<open>j\<close> and \<open>k\<close> are where stray brackets are looked for.\<close>

definition host_and_port :: "string \<Rightarrow> string \<Rightarrow> nat \<Rightarrow> nat \<Rightarrow> nat \<Rightarrow> (string \<times> string) result" where
  "host_and_port hostport host i j k =
     (if CHR ''['' \<in> set (drop j hostport)
      then addr_error hostport (''unexpected '' @ squote ''['' @ '' in address'')
      else if CHR '']'' \<in> set (drop k hostport)
      then addr_error hostport (''unexpected '' @ squote '']'' @ '' in address'')
      else Inr (host, drop (Suc i) hostport))"

definition SplitHostPort :: "string \<Rightarrow> (string \<times> string) result" where
  "SplitHostPort hostport =
     (case last_index (CHR '':'') hostport of
        None \<Rightarrow> addr_error hostport ''missing port in address''
      | Some i \<Rightarrow>
          if hd hostport = CHR ''[''
          then
            (case first_index (CHR '']'') hostport of
               None \<Rightarrow> addr_error hostport (''missing '' @ squote '']'' @ '' in address'')
             | Some e \<Rightarrow>
                 if Suc e = length hostport then addr_error hostport ''missing port in address''
                 else if Suc e = i then host_and_port hostport (take (e - 1) (drop 1 hostport)) i 1 (Suc e)
                 else if hostport ! Suc e = CHR '':''
                 then addr_error hostport ''too many colons in address''
                 else addr_error hostport ''missing port in address'')
          else
            (let host = take i hostport
             in if CHR '':'' \<in> set host then addr_error hostport ''too many colons in address''
                else host_and_port hostport host i 0 0))"

lemma last_index_None: "last_index x xs = None \<longleftrightarrow> x \<notin> set xs"
  by (induction xs) (auto split: option.splits)

lemma last_index_Some:
  "last_index x xs = Some i \<Longrightarrow> i < length xs \<and> xs ! i = x \<and> x \<notin> set (drop (Suc i) xs)"
proof (induction xs arbitrary: i)
  case (Cons y ys)
  then show ?case
    by (cases "last_index x ys") (auto simp: last_index_None split: if_splits)
qed simp

lemma last_index_split:
  "x \<notin> set ys \<Longrightarrow> last_index x (xs @ x # ys) = Some (length xs)"
proof (induction xs)
  case Nil
  then show ?case by (simp add: last_index_None[THEN iffD2])
qed simp

text \<open>A plain host and port are split at the colon between them.\<close>

lemma SplitHostPort_plain:
  assumes "set host \<inter> {CHR '':'', CHR ''['', CHR '']''} = {}"
    and "set port \<inter> {CHR '':'', CHR ''['', CHR '']''} = {}"
  shows "SplitHostPort (host @ CHR '':'' # port) = Inr (host, port)"
proof -
  have "last_index (CHR '':'') (host @ CHR '':'' # port) = Some (length host)"
    using assms(2) by (intro last_index_split) auto
  moreover have "hd (host @ CHR '':'' # port) \<noteq> CHR ''[''" using assms(1) by (cases host) auto
  ultimately show ?thesis
    using assms by (auto simp: SplitHostPort_def host_and_port_def Let_def)
qed

text \<open>Without brackets, a split gives back the address.\<close>

lemma SplitHostPort_join:
  assumes "SplitHostPort a = Inr (host, port)" and "hd a \<noteq> CHR ''[''"
  shows "a = host @ CHR '':'' # port"
proof -
  obtain i where i: "last_index (CHR '':'') a = Some i" "host = take i a" "port = drop (Suc i) a"
    using assms by (auto simp: SplitHostPort_def host_and_port_def addr_error_def Let_def
        split: option.splits if_splits)
  with last_index_Some[OF i(1)] show ?thesis by (metis id_take_nth_drop)
qed

end
