(* ===== verification/Sphinx.thy ===== *)
theory Sphinx
  imports DB_Value Conventions Net_Addr
begin

text \<open>
  \<open>src/sphinx/sphinx.go\<close>: the connection to one Manticore backend (its retry logic and the
  requests its goroutine serves) and the operations on the list of all backends.

  The backend and the network are outside the program: \<open>'b\<close> is their state as one connection
  sees it, and an \<open>sph_env\<close> holds what the client library does to it: executing a statement,
  closing the connection, dialling, waiting; also its classification of errors and addresses. Each connection
  is served by its own goroutine, one request at a time, so a request to all backends runs each
  connection's handler once and collects the results in connection order.
\<close>

record 'b sph_env =
  se_execute :: "string \<Rightarrow> 'b \<Rightarrow> 'b \<times> mysql_result result"
  se_close :: "'b \<Rightarrow> 'b \<times> go_error option"
  se_connect :: "string \<Rightarrow> 'b \<Rightarrow> 'b \<times> go_error option"
  se_sleep :: "int \<Rightarrow> 'b \<Rightarrow> 'b"
  se_is_bad_conn :: "go_error \<Rightarrow> bool"
  se_error_text :: "go_error \<Rightarrow> string"
  se_remote_addr :: "'b \<Rightarrow> string"

record 'b SphConn =
  conn_addr :: string
  conn_hostname :: string
  conn_DisconnectRetryDelay :: int
  conn_OverloadRetryDelay :: int
  conn_maxRetries :: int
  conn_attempts :: int
  conn_backend :: 'b

type_synonym ('b, 'a) conn_call = "('b SphConn, 'a) call"

definition chunk_numbers :: "16 word \<Rightarrow> 16 word list" where
  "chunk_numbers parts = map of_nat [0..<unat parts]"

subsection \<open>Executing with retries\<close>

definition canRetry :: "'b sph_env \<Rightarrow> 'b SphConn \<Rightarrow> go_error \<Rightarrow> bool \<times> int" where
  "canRetry S c err =
     (if conn_attempts c > conn_maxRetries c then (False, 0)
      else if se_is_bad_conn S err then (True, conn_DisconnectRetryDelay c)
      else if str_contains (se_error_text S (error_cause err)) ''connection refused''
      then (True, conn_DisconnectRetryDelay c)
      else if has_prefix (se_error_text S (error_cause err)) ''invalid sequence ''
      then (True, conn_OverloadRetryDelay c)
      else (False, 0))"

definition reconnect :: "'b sph_env \<Rightarrow> ('b, unit) conn_call" where
  "reconnect S c =
     (case SplitHostPort (conn_addr c) of
        Inl e \<Rightarrow> (c, Inl e)
      | Inr hp \<Rightarrow>
          (let r = se_connect S (conn_addr c) (conn_backend c)
           in case snd r of
                Some e \<Rightarrow> (c\<lparr>conn_backend := fst r\<rparr>, Inl (Fails e))
              | None \<Rightarrow> (c\<lparr>conn_backend := fst r, conn_hostname := fst hp\<rparr>, Inr ())))"

lemma reconnect_frame [simp]:
  "conn_attempts (fst (reconnect S c)) = conn_attempts c"
  "conn_maxRetries (fst (reconnect S c)) = conn_maxRetries c"
  "conn_addr (fst (reconnect S c)) = conn_addr c"
  by (auto simp: reconnect_def Let_def split: sum.splits option.splits)

text \<open>The endless \<open>for\<close> of \<open>retry\<close>: it ends because every turn counts as an attempt.\<close>

definition wait_and_count :: "'b sph_env \<Rightarrow> int \<Rightarrow> 'b SphConn \<Rightarrow> 'b SphConn" where
  "wait_and_count S pause c =
     c\<lparr>conn_backend := se_sleep S pause (conn_backend c), conn_attempts := conn_attempts c + 1\<rparr>"

function retry_loop :: "'b sph_env \<Rightarrow> int \<Rightarrow> 'b SphConn \<Rightarrow> 'b SphConn \<times> unit result" where
  "retry_loop S pause c =
     (let r = reconnect S (wait_and_count S pause c)
      in case snd r of
           Inr _ \<Rightarrow> r
         | Inl e \<Rightarrow> if conn_attempts (fst r) > conn_maxRetries (fst r) then r
                   else retry_loop S pause (fst r))"
  by pat_completeness auto
termination
  by (relation "measure (\<lambda>(S, pause, c). nat (conn_maxRetries c + 1 - conn_attempts c))")
    (auto simp: wait_and_count_def)

declare retry_loop.simps [simp del]

definition resend :: "'b sph_env \<Rightarrow> string \<Rightarrow> ('b, mysql_result) conn_call" where
  "resend S stmt c =
     (let x = se_execute S stmt (conn_backend c)
      in (c\<lparr>conn_attempts := 0, conn_backend := fst x\<rparr>, snd x))"

definition retry :: "'b sph_env \<Rightarrow> int \<Rightarrow> string \<Rightarrow> ('b, mysql_result) conn_call" where
  "retry S pause stmt c =
     (let cl = se_close S (conn_backend c);
          c' = c\<lparr>conn_backend := fst cl\<rparr>;
          again = bindS (retry_loop S pause) (\<lambda>_. resend S stmt) c'
      in case snd cl of
           Some e \<Rightarrow> if conn_attempts c' > conn_maxRetries c' then (c', Inl (Fails e)) else again
         | None \<Rightarrow> again)"

definition execute :: "'b sph_env \<Rightarrow> string \<Rightarrow> ('b, mysql_result) conn_call" where
  "execute S stmt c =
     (let x = se_execute S stmt (conn_backend c);
          c' = c\<lparr>conn_backend := fst x\<rparr>
      in case snd x of
           Inr res \<Rightarrow> (c'\<lparr>conn_attempts := 0\<rparr>, Inr res)
         | Inl (Fails err) \<Rightarrow>
             (if fst (canRetry S c' err) then retry S (snd (canRetry S c' err)) stmt c'
              else (c', Inl (Fails err)))
         | Inl p \<Rightarrow> (c', Inl p))"

subsection \<open>Index status and maintenance\<close>

record IndexStatus =
  is_IndexType :: string
  is_IndexedDocuments :: "64 word"
  is_IndexedBytes :: "64 word"
  is_RAMBytes :: "64 word"
  is_DiskBytes :: "64 word"
  is_RAMChunkBytes :: "64 word"
  is_DiskChunks :: "64 word"
  is_MemLimit :: "64 word"

definition empty_status :: IndexStatus where
  "empty_status = \<lparr>is_IndexType = [], is_IndexedDocuments = 0, is_IndexedBytes = 0, is_RAMBytes = 0,
     is_DiskBytes = 0, is_RAMChunkBytes = 0, is_DiskChunks = 0, is_MemLimit = 0\<rparr>"

definition decodeStatusRow :: "mysql_result \<Rightarrow> nat \<Rightarrow> IndexStatus \<Rightarrow> IndexStatus result" where
  "decodeStatusRow result rowNo status =
     bindR (annotateR ''could not read variable name'' (checked (res_GetString result rowNo 0)))
       (\<lambda>varName.
         let str = checked (res_GetString result rowNo 1);
             num = checked (res_GetUint result rowNo 1)
         in annotateR (''could not decode value of '' @ varName)
           (if varName = ''index_type'' then bindR str (\<lambda>v. Inr (status\<lparr>is_IndexType := v\<rparr>))
            else if varName = ''indexed_documents'' then bindR num (\<lambda>v. Inr (status\<lparr>is_IndexedDocuments := v\<rparr>))
            else if varName = ''indexed_bytes'' then bindR num (\<lambda>v. Inr (status\<lparr>is_IndexedBytes := v\<rparr>))
            else if varName = ''ram_bytes'' then bindR num (\<lambda>v. Inr (status\<lparr>is_RAMBytes := v\<rparr>))
            else if varName = ''disk_bytes'' then bindR num (\<lambda>v. Inr (status\<lparr>is_DiskBytes := v\<rparr>))
            else if varName = ''ram_chunk'' then bindR num (\<lambda>v. Inr (status\<lparr>is_RAMChunkBytes := v\<rparr>))
            else if varName = ''disk_chunks'' then bindR num (\<lambda>v. Inr (status\<lparr>is_DiskChunks := v\<rparr>))
            else if varName = ''mem_limit'' then bindR num (\<lambda>v. Inr (status\<lparr>is_MemLimit := v\<rparr>))
            else Inr status))"

definition getIndexChunkStatus :: "'b sph_env \<Rightarrow> string \<Rightarrow> ('b, IndexStatus) conn_call" where
  "getIndexChunkStatus S index =
     bindS (execute S (''SHOW INDEX '' @ index @ '' STATUS'')) (\<lambda>result.
       returnS (foldR (\<lambda>st i. decodeStatusRow result i st) empty_status [0..<res_RowNumber result]))"

definition doIndexChunkOptimize :: "'b sph_env \<Rightarrow> string \<Rightarrow> ('b, unit) conn_call" where
  "doIndexChunkOptimize S rtIndex =
     bindS (execute S (''FLUSH RAMCHUNK '' @ rtIndex)) (\<lambda>_.
     bindS (execute S (''OPTIMIZE INDEX '' @ rtIndex)) (\<lambda>_. returnS (Inr ())))"

definition checkIndexChunkForOptimize :: "'b sph_env \<Rightarrow> string \<Rightarrow> 64 word \<Rightarrow> ('b, unit) conn_call" where
  "checkIndexChunkForOptimize S rtIndex maxRAMChunkBytes =
     bindS (annotateS (''could not get status for '' @ rtIndex) (getIndexChunkStatus S rtIndex)) (\<lambda>status.
       if is_RAMChunkBytes status > maxRAMChunkBytes \<and> maxRAMChunkBytes > 0
       then doIndexChunkOptimize S rtIndex else returnS (Inr ()))"

definition chunk_message :: "string \<Rightarrow> string \<Rightarrow> 16 word \<Rightarrow> string" where
  "chunk_message what index chunkNo =
     what @ '' index '' @ squote index @ '' (chunk #'' @ dec (unat chunkNo) @ '')''"

definition checkIndexForOptimize ::
  "'b sph_env \<Rightarrow> string \<Rightarrow> 16 word \<Rightarrow> 64 word \<Rightarrow> ('b, unit) conn_call" where
  "checkIndexForOptimize S rtIndex parts maxRAMChunkBytes =
     eachS (\<lambda>chunkNo. annotateS (chunk_message ''could not optimize'' rtIndex chunkNo)
         (checkIndexChunkForOptimize S (IndexChunkName rtIndex parts chunkNo) maxRAMChunkBytes))
       (chunk_numbers parts)"

subsection \<open>Reloading an index\<close>

definition reloadPlainIndex :: "'b sph_env \<Rightarrow> string \<Rightarrow> ('b, unit) conn_call" where
  "reloadPlainIndex S index = bindS (execute S (''RELOAD INDEX '' @ index)) (\<lambda>_. returnS (Inr ()))"

definition truncateWithAttach :: "'b sph_env \<Rightarrow> string \<Rightarrow> string \<Rightarrow> ('b, unit) conn_call" where
  "truncateWithAttach S plainIndex rtIndex =
     bindS (execute S (''TRUNCATE RTINDEX '' @ rtIndex)) (\<lambda>_.
     bindS (execute S (''ATTACH INDEX '' @ plainIndex @ '' TO RTINDEX '' @ rtIndex)) (\<lambda>_.
     returnS (Inr ())))"

definition reloadRtIndexChunk :: "'b sph_env \<Rightarrow> string \<Rightarrow> string \<Rightarrow> ('b, unit) conn_call" where
  "reloadRtIndexChunk S rtIndex plainIndex =
     bindS (reloadPlainIndex S plainIndex) (\<lambda>_. truncateWithAttach S plainIndex rtIndex)"

definition reloadRtIndex :: "'b sph_env \<Rightarrow> string \<Rightarrow> 16 word \<Rightarrow> ('b, unit) conn_call" where
  "reloadRtIndex S rtIndex parts =
     eachS (\<lambda>chunkNo. annotateS (chunk_message ''failed to reload'' rtIndex chunkNo)
         (reloadRtIndexChunk S (IndexChunkName rtIndex parts chunkNo)
            (IndexChunkName (PlainIndexName rtIndex) parts chunkNo)))
       (chunk_numbers parts)"

subsection \<open>Index readiness\<close>

definition IndexExists :: "'b sph_env \<Rightarrow> string \<Rightarrow> ('b, bool) conn_call" where
  "IndexExists S index =
     bindS (annotateS (''could not check if '' @ index @ '' index exists'')
         (execute S (''SHOW TABLES LIKE '' @ squote index)))
       (\<lambda>res. returnS (Inr (res_RowNumber res > 0)))"

text \<open>The first three column names of a description, as a set.\<close>

definition first_fields :: "mysql_result \<Rightarrow> string set result" where
  "first_fields res =
     foldR (\<lambda>fieldSet i. bindR (checked (res_GetString res i 0)) (\<lambda>columnName.
       Inr (insert columnName fieldSet))) {} [0..<3]"

definition IndexChunkIsUninitialized :: "'b sph_env \<Rightarrow> string \<Rightarrow> ('b, bool) conn_call" where
  "IndexChunkIsUninitialized S index =
     annotateS (''could not check if '' @ index @ '' index is empty'')
       (bindS (execute S (''DESC '' @ index)) (\<lambda>res. returnS
         (bindR (first_fields res) (\<lambda>fieldSet.
           Inr (fieldSet = {''id'', ''dummy_field'', ''dummy_attr''})))))"

definition assertIndexIsReady :: "'b sph_env \<Rightarrow> string \<Rightarrow> 16 word \<Rightarrow> ('b, unit) conn_call" where
  "assertIndexIsReady S index parts =
     eachS (\<lambda>chunkNo.
         bindS (annotateS (chunk_message ''failed to reload'' index chunkNo)
             (IndexChunkIsUninitialized S (IndexChunkName index parts chunkNo)))
           (\<lambda>isEmpty.
             if isEmpty
             then returnS (Inl (Fails (ErrAnnotated
                    (''index chunk '' @ IndexChunkName index parts chunkNo @ '' is not ready'')
                    ErrIndexNotReady)))
             else returnS (Inr ())))
       (chunk_numbers parts)"

subsection \<open>Synchronization state\<close>

record Position =
  pos_Name :: string
  pos_Pos :: "32 word"

text \<open>
  GTID sets are the library's: \<open>'g\<close> with the operations the program uses. A nil interface is
  \<open>None\<close>; \<open>Clone\<close> gives an equal set and is the identity here. \<open>ge_Parse\<close> is
  \<open>mysql.ParseGTIDSet\<close>, \<open>ge_Compare\<close> the library's comparison of positions and \<open>ge_Json\<close> the
  JSON text of a state in an error message.
\<close>

record 'g SyncState =
  ss_Position :: Position
  ss_GTID :: "'g option"
  ss_Flavor :: string

record 'g gtid_env =
  ge_String :: "'g \<Rightarrow> string"
  ge_Contain :: "'g \<Rightarrow> 'g \<Rightarrow> bool"
  ge_Parse :: "string \<Rightarrow> string \<Rightarrow> 'g option result"
  ge_Json :: "'g SyncState option \<Rightarrow> string"
  ge_Compare :: "Position \<Rightarrow> Position \<Rightarrow> int"

definition sync_state_stmt :: "Position \<Rightarrow> string \<Rightarrow> string \<Rightarrow> string" where
  "sync_state_stmt p gtid flavor =
     ''REPLACE INTO sync_state (id, binlog_name, binlog_position, gtid, flavor) VALUES (1, '' @
     QuoteString (pos_Name p) @ '', '' @ dec (unat (pos_Pos p)) @ '', '' @
     QuoteString gtid @ '', '' @ QuoteString flavor @ '')''"

text \<open>Printing the GTID of a state that has none calls a method on a nil interface.\<close>

definition savePosition :: "'b sph_env \<Rightarrow> 'g gtid_env \<Rightarrow> 'g SyncState \<Rightarrow> ('b, mysql_result) conn_call" where
  "savePosition S G p =
     (case ss_GTID p of
        None \<Rightarrow> returnS (Inl (Panics NilDereference))
      | Some g \<Rightarrow> execute S (sync_state_stmt (ss_Position p) (ge_String G g) (ss_Flavor p)))"

definition loadPosition :: "'b sph_env \<Rightarrow> ('b, mysql_result option) conn_call" where
  "loadPosition S =
     bindS (execute S ''SELECT binlog_name, binlog_position, gtid, flavor FROM sync_state WHERE id = 1'')
       (\<lambda>res. returnS (Inr (if res_RowNumber res < 1 then None else Some res)))"

definition newSyncState :: "'g gtid_env \<Rightarrow> mysql_result option \<Rightarrow> 'g SyncState option result" where
  "newSyncState G r =
     (case r of
        None \<Rightarrow> Inr None
      | Some res \<Rightarrow>
          bindR (checked (res_GetStringByName res 0 ''binlog_name'')) (\<lambda>binlogName.
          bindR (checked (res_GetUintByName res 0 ''binlog_position'')) (\<lambda>binlogPosition.
          bindR (checked (res_GetStringByName res 0 ''gtid'')) (\<lambda>gtidStr.
          bindR (checked (res_GetStringByName res 0 ''flavor'')) (\<lambda>flavor.
          bindR (ge_Parse G flavor gtidStr) (\<lambda>gtid.
          Inr (Some \<lparr>ss_Position = \<lparr>pos_Name = binlogName, pos_Pos = ucast binlogPosition\<rparr>,
                     ss_GTID = gtid, ss_Flavor = flavor\<rparr>)))))))"

subsection \<open>All backends\<close>

text \<open>
  A request goes to the goroutine of every connection, then the answers are collected. A panic
  in one of them ends the process.
\<close>

definition request_all :: "('b, 'a) conn_call \<Rightarrow> 'b SphConn list \<Rightarrow> 'b SphConn list \<times> 'a result list" where
  "request_all m sph = (map (\<lambda>c. fst (m c)) sph, map (\<lambda>c. snd (m c)) sph)"

definition ExecuteInParallel ::
  "'b sph_env \<Rightarrow> 'b SphConn list \<Rightarrow> string \<Rightarrow> 'b SphConn list \<times> mysql_result result list" where
  "ExecuteInParallel S sph stmt = request_all (execute S stmt) sph"

definition first_error :: "'a result list \<Rightarrow> unit result" where
  "first_error rs = foldR (\<lambda>_ r. bindR r (\<lambda>_. Inr ())) () rs"

fun ready_of_results :: "unit result list \<Rightarrow> bool result" where
  "ready_of_results [] = Inr True"
| "ready_of_results (Inr _ # rs) = ready_of_results rs"
| "ready_of_results (Inl (Fails e) # rs) =
     (if error_cause e = ErrIndexNotReady then Inr False else Inl (Fails e))"
| "ready_of_results (Inl p # rs) = Inl p"

definition IndexIsReady ::
  "'b sph_env \<Rightarrow> 'b SphConn list \<Rightarrow> string \<Rightarrow> 16 word \<Rightarrow> 'b SphConn list \<times> bool result" where
  "IndexIsReady S sph index parts =
     (let r = request_all (assertIndexIsReady S index parts) sph in (fst r, ready_of_results (snd r)))"

definition CheckIndexForOptimize ::
  "'b sph_env \<Rightarrow> 'b SphConn list \<Rightarrow> string \<Rightarrow> 16 word \<Rightarrow> 64 word \<Rightarrow> 'b SphConn list \<times> unit result" where
  "CheckIndexForOptimize S sph index parts maxRAMChunkBytes =
     (let r = request_all (checkIndexForOptimize S index parts maxRAMChunkBytes) sph
      in (fst r, first_error (snd r)))"

definition SaveSyncState ::
  "'b sph_env \<Rightarrow> 'g gtid_env \<Rightarrow> 'b SphConn list \<Rightarrow> 'g SyncState \<Rightarrow> 'b SphConn list \<times> unit result" where
  "SaveSyncState S G sph state =
     (let r = request_all (savePosition S G state) sph in (fst r, first_error (snd r)))"

text \<open>
  The first loop of \<open>LoadSyncState\<close>. When a saved row cannot be decoded, the function returns
  the error of the (successful) query, which is nil, together with a nil state.
\<close>

fun decode_states :: "'g gtid_env \<Rightarrow> mysql_result option result list \<Rightarrow>
   'g SyncState option list \<Rightarrow> 'g SyncState option result + 'g SyncState option list" where
  "decode_states G [] acc = Inr acc"
| "decode_states G (Inl f # rs) acc = Inl (Inl f)"
| "decode_states G (Inr res # rs) acc =
     (case newSyncState G res of
        Inl (Panics p) \<Rightarrow> Inl (Inl (Panics p))
      | Inl (Fails e) \<Rightarrow> Inl (Inr None)
      | Inr state \<Rightarrow> decode_states G rs (acc @ [state]))"

text \<open>The second loop: neighbours must agree; the result is the last state.\<close>

fun compare_states :: "'g gtid_env \<Rightarrow> nat \<Rightarrow> 'g SyncState option \<Rightarrow> 'g SyncState option list \<Rightarrow>
   'g SyncState option result" where
  "compare_states G i prev [] = Inr prev"
| "compare_states G i prev (st # sts) =
     (if st \<noteq> prev
      then Inl (Fails (ErrAnnotated (''backend #'' @ dec (i - 1) @ '': '' @ ge_Json G prev @
             ''; backend #'' @ dec i @ '': '' @ ge_Json G st) ErrInconsistentClusterState))
      else compare_states G (Suc i) st sts)"

definition LoadSyncState ::
  "'b sph_env \<Rightarrow> 'g gtid_env \<Rightarrow> 'b SphConn list \<Rightarrow> 'b SphConn list \<times> 'g SyncState option result" where
  "LoadSyncState S G sph =
     (let r = request_all (loadPosition S) sph
      in (fst r,
          case decode_states G (snd r) [] of
            Inl res \<Rightarrow> res
          | Inr [] \<Rightarrow> Inr None
          | Inr (st # sts) \<Rightarrow> compare_states G 1 st sts))"

end
