(* ===== verification/Batch.thy ===== *)
theory Batch
  imports Changeset Sphinx
begin

text \<open>
  \<open>src/river/batch.go\<close> with \<open>Query\<close> of \<open>sphinx_service.go\<close>: the queue of changed documents per
  index, the split of a document set into changed and unchanged ones, the fetch of the changed
  documents from MySQL and the statements that bring every part of the index up to date.
\<close>

subsection \<open>The change queue\<close>

record DocumentChange =
  dc_Changes :: "TableRowChange list"
  dc_DocID :: "64 word"
  dc_Index :: string
  dc_FirstTS :: int
  dc_LastTS :: int

record IndexChangeSet =
  ics_ChangedDocs :: "(64 word, DocumentChange) amap"
  ics_Index :: string

record BatchedChangeSet =
  bcs_Changes :: "(string, IndexChangeSet) amap"
  bcs_Label :: string

definition NewBatchedChangeSet :: "string \<Rightarrow> BatchedChangeSet" where
  "NewBatchedChangeSet label = \<lparr>bcs_Changes = [], bcs_Label = label\<rparr>"

definition NewBatchedChangeSetPair :: "BatchedChangeSet \<times> BatchedChangeSet" where
  "NewBatchedChangeSetPair = (NewBatchedChangeSet ''staged'', NewBatchedChangeSet ''queue'')"

definition mergeWith :: "DocumentChange \<Rightarrow> DocumentChange \<Rightarrow> DocumentChange" where
  "mergeWith current latest =
     (let c = current\<lparr>dc_Changes := dc_Changes current @ dc_Changes latest\<rparr>
      in if dc_LastTS c < dc_LastTS latest then c\<lparr>dc_LastTS := dc_LastTS latest\<rparr> else c)"

definition addDocumentChange :: "IndexChangeSet \<Rightarrow> DocumentChange \<Rightarrow> IndexChangeSet" where
  "addDocumentChange ics dc =
     (case map_of (ics_ChangedDocs ics) (dc_DocID dc) of
        Some changeBatch \<Rightarrow>
          ics\<lparr>ics_ChangedDocs := aput (dc_DocID dc) (mergeWith changeBatch dc) (ics_ChangedDocs ics)\<rparr>
      | None \<Rightarrow> ics\<lparr>ics_ChangedDocs := aput (dc_DocID dc) dc (ics_ChangedDocs ics)\<rparr>)"

definition AddDocumentChange :: "BatchedChangeSet \<Rightarrow> DocumentChange \<Rightarrow> BatchedChangeSet" where
  "AddDocumentChange b dc =
     (let index = dc_Index dc
      in case map_of (bcs_Changes b) index of
           Some ics \<Rightarrow> b\<lparr>bcs_Changes := aput index (addDocumentChange ics dc) (bcs_Changes b)\<rparr>
         | None \<Rightarrow> b\<lparr>bcs_Changes := aput index
             \<lparr>ics_ChangedDocs = [(dc_DocID dc, dc)], ics_Index = index\<rparr> (bcs_Changes b)\<rparr>)"

definition row_document :: "TableRowChange \<Rightarrow> DocumentChange" where
  "row_document d = \<lparr>dc_Changes = [d], dc_DocID = trc_DocID d, dc_Index = trc_Index d,
     dc_FirstTS = trc_TS d, dc_LastTS = trc_TS d\<rparr>"

definition AddRowChange :: "BatchedChangeSet \<Rightarrow> TableRowChange \<Rightarrow> BatchedChangeSet" where
  "AddRowChange b d = AddDocumentChange b (row_document d)"

definition docIDList :: "IndexChangeSet \<Rightarrow> 64 word list" where
  "docIDList b = akeys (ics_ChangedDocs b)"

record ChangeSetStats =
  css_DocCount :: nat
  css_RowCount :: nat

definition Stats :: "BatchedChangeSet \<Rightarrow> (string, ChangeSetStats) amap" where
  "Stats b = map (\<lambda>(index, changeSet). (index,
     \<lparr>css_DocCount = length (ics_ChangedDocs changeSet),
      css_RowCount = foldl (\<lambda>n doc. n + length (dc_Changes doc)) 0 (map snd (ics_ChangedDocs changeSet))\<rparr>))
     (bcs_Changes b)"

text \<open>The three nested loops, with the running minimum and the flag \<open>found\<close>.\<close>

definition seen_row :: "64 word \<times> bool \<Rightarrow> TableRowChange \<Rightarrow> 64 word \<times> bool" where
  "seen_row s rowChange = (if fst s > trc_EventID rowChange then (trc_EventID rowChange, True) else s)"

definition seen_doc :: "64 word \<times> bool \<Rightarrow> DocumentChange \<Rightarrow> 64 word \<times> bool" where
  "seen_doc s doc = foldl seen_row s (dc_Changes doc)"

definition seen_index :: "64 word \<times> bool \<Rightarrow> IndexChangeSet \<Rightarrow> 64 word \<times> bool" where
  "seen_index s changeSet = foldl seen_doc s (map snd (ics_ChangedDocs changeSet))"

definition FirstSeenPositionEventID :: "BatchedChangeSet \<Rightarrow> 64 word \<Rightarrow> 64 word" where
  "FirstSeenPositionEventID b lastID =
     (let s = foldl seen_index (0xffffffffffffffff, False) (map snd (bcs_Changes b))
      in if snd s then fst s else lastID)"

subsection \<open>Changed documents\<close>

record BatchChangedAttrs =
  bca_Attrs :: "(64 word, string set) amap"
  bca_ChangedDocIDs :: "64 word list"
  bca_UnchangedDocIDs :: "64 word list"

definition add_doc_attrs ::
  "go_env \<Rightarrow> BatchChangedAttrs \<Rightarrow> 64 word \<times> DocumentChange \<Rightarrow> BatchChangedAttrs result" where
  "add_doc_attrs E s e =
     bindR (ChangedAttrs E (dc_Changes (snd e))) (\<lambda>a.
       let s' = s\<lparr>bca_Attrs := aput (fst e) a (bca_Attrs s)\<rparr>
       in Inr (if card a > 0 then s'\<lparr>bca_ChangedDocIDs := bca_ChangedDocIDs s' @ [fst e]\<rparr>
               else s'\<lparr>bca_UnchangedDocIDs := bca_UnchangedDocIDs s' @ [fst e]\<rparr>))"

definition ChangedAttrsByDocID :: "go_env \<Rightarrow> IndexChangeSet \<Rightarrow> BatchChangedAttrs result" where
  "ChangedAttrsByDocID E ics =
     foldR (add_doc_attrs E)
       \<lparr>bca_Attrs = [], bca_ChangedDocIDs = [], bca_UnchangedDocIDs = []\<rparr> (ics_ChangedDocs ics)"

subsection \<open>Fetching documents\<close>

record indexDataFromDB =
  idx_fields :: "string list"
  idx_docs :: "(64 word, string list) amap"

text \<open>The expression of one field; only the document id's field also sets the row's id.\<close>

definition fetch_field ::
  "go_env \<Rightarrow> (gval \<Rightarrow> string) \<Rightarrow> mysql_result \<Rightarrow> SourceConfig \<Rightarrow> nat \<Rightarrow>
   64 word \<times> string list \<Rightarrow> string \<times> nat \<Rightarrow> (64 word \<times> string list) result" where
  "fetch_field E fmt_v result dataSource rowNo acc f =
     (case map_of (scd_fieldTypes (sc_details dataSource)) (fst f) of
        None \<Rightarrow> Inl (Fails (ErrMsg (''field '' @ squote (fst f) @ '' is not specified in config'')))
      | Some dbFieldType \<Rightarrow>
          bindR (if dbFieldType = DocID
                 then bindR (checked (res_GetUint result rowNo (snd f))) (\<lambda>i. Inr (i, dec (unat i)))
                 else bindR (getDBValueExpression E fmt_v result dbFieldType rowNo (snd f)) (\<lambda>x.
                      Inr (fst acc, x)))
            (\<lambda>r. if snd f < length (snd acc) then Inr (fst r, (snd acc)[snd f := snd r])
                 else Inl (Panics IndexOutOfRange)))"

definition fetchRow ::
  "go_env \<Rightarrow> (gval \<Rightarrow> string) \<Rightarrow> mysql_result \<Rightarrow> SourceConfig \<Rightarrow> nat \<Rightarrow> (64 word \<times> string list) result" where
  "fetchRow E fmt_v result dataSource rowNo =
     foldR (fetch_field E fmt_v result dataSource rowNo)
       (0, replicate (length (res_Fields result)) []) (res_FieldNames result)"

definition fetchIndexData ::
  "go_env \<Rightarrow> (gval \<Rightarrow> string) \<Rightarrow> mysql_result \<Rightarrow> SourceConfig \<Rightarrow> indexDataFromDB result" where
  "fetchIndexData E fmt_v result dataSource =
     bindR (foldR (\<lambda>docs rowNo. bindR (fetchRow E fmt_v result dataSource rowNo) (\<lambda>r.
             Inr (aput (fst r) (snd r) docs))) [] [0..<res_RowNumber result])
       (\<lambda>docs. Inr \<lparr>idx_fields = res_Fields result, idx_docs = docs\<rparr>)"

subsection \<open>Statements per index part\<close>

record updateQueryData =
  uq_id :: "64 word"
  uq_fields :: "string list"
  uq_values :: "string list"

record querySet =
  qs_index :: string
  qs_fields :: "string list"
  qs_replace :: "string list list"
  qs_update :: "updateQueryData list"
  qs_delete :: "64 word list"

definition newQueryBatch :: "string \<Rightarrow> string list \<Rightarrow> 16 word \<Rightarrow> querySet list" where
  "newQueryBatch index flds parts =
     map (\<lambda>chunkNo. \<lparr>qs_index = IndexChunkName index parts chunkNo, qs_fields = flds,
        qs_replace = [], qs_update = [], qs_delete = []\<rparr>) (chunk_numbers parts)"

text \<open>The changed fields of a document with their values; a short document row is a panic.\<close>

fun pick_fields :: "string set \<Rightarrow> string list \<Rightarrow> string list \<Rightarrow> (string list \<times> string list) result" where
  "pick_fields docAttrs [] docData = Inr ([], [])"
| "pick_fields docAttrs (f # fs) (x # docData) =
     bindR (pick_fields docAttrs fs docData) (\<lambda>r.
     Inr (if f \<in> docAttrs then (f # fst r, x # snd r) else r))"
| "pick_fields docAttrs (f # fs) [] =
     (if f \<in> docAttrs then Inl (Panics IndexOutOfRange) else pick_fields docAttrs fs [])"

definition fill_query_set ::
  "BatchChangedAttrs \<Rightarrow> indexDataFromDB \<Rightarrow> SourceConfig \<Rightarrow> 64 word \<Rightarrow> querySet \<Rightarrow> querySet result" where
  "fill_query_set attrInfo indexData dataSource i q =
     (case map_of (idx_docs indexData) i of
        None \<Rightarrow> Inr (q\<lparr>qs_delete := qs_delete q @ [i]\<rparr>)
      | Some docData \<Rightarrow>
          (case map_of (bca_Attrs attrInfo) i of
             None \<Rightarrow> Inl (Panics NilDereference)
           | Some docAttrs \<Rightarrow>
               if docAttrs \<subseteq> scd_attrFields (sc_details dataSource)
               then bindR (pick_fields docAttrs (idx_fields indexData) docData) (\<lambda>r.
                    Inr (q\<lparr>qs_update := qs_update q @
                            [\<lparr>uq_id = i, uq_fields = fst r, uq_values = snd r\<rparr>]\<rparr>))
               else Inr (q\<lparr>qs_replace := qs_replace q @ [docData]\<rparr>)))"

definition fill_doc ::
  "BatchChangedAttrs \<Rightarrow> indexDataFromDB \<Rightarrow> SourceConfig \<Rightarrow> querySet list \<Rightarrow> 64 word \<Rightarrow> querySet list result" where
  "fill_doc attrInfo indexData dataSource qs i =
     bindR (IndexChunk i (sc_Parts dataSource)) (\<lambda>k.
     bindR (go_index qs (unat k)) (\<lambda>q.
     bindR (fill_query_set attrInfo indexData dataSource i q) (\<lambda>q'.
     Inr (qs[unat k := q']))))"

definition fillQueryBatch ::
  "querySet list \<Rightarrow> BatchChangedAttrs \<Rightarrow> indexDataFromDB \<Rightarrow> SourceConfig \<Rightarrow> querySet list result" where
  "fillQueryBatch qs attrInfo indexData dataSource =
     foldR (fill_doc attrInfo indexData dataSource) qs (bca_ChangedDocIDs attrInfo)"

subsection \<open>Executing a batch\<close>

text \<open>The counters of \<open>status.go\<close>; \<open>sync2.AtomicUint64\<close> wraps at \<open>2^64\<close>.\<close>

record stat =
  st_ProcessedRowEvents :: "64 word"
  st_ProcessedDocEvents :: "64 word"
  st_ProcessedBatches :: "64 word"
  st_ReplaceAffectedRows :: "64 word"
  st_ReplaceQueries :: "64 word"
  st_ReplaceQueryDocs :: "64 word"
  st_UpdateAffectedRows :: "64 word"
  st_UpdateQueries :: "64 word"
  st_DeleteAffectedRows :: "64 word"
  st_DeleteQueries :: "64 word"
  st_DeleteQueryDocs :: "64 word"

text \<open>
  What a batch acts on: the counters, the Manticore connections (\<open>None\<close> while disconnected) and
  the MySQL server behind \<open>canal.Execute\<close>, whose state is \<open>'m\<close>.
\<close>

record ('b, 'm) engine =
  en_stat :: stat
  en_sph :: "'b SphConn list option"
  en_mysql :: 'm

record ('b, 'm) batch_env =
  be_sphinx :: "'b sph_env"
  be_mysql :: "string \<Rightarrow> 'm \<Rightarrow> 'm \<times> mysql_result result"
  be_go :: go_env
  be_fmt_v :: "gval \<Rightarrow> string"
  be_DataSource :: "(string, SourceConfig) amap"

text \<open>The loop of \<open>Query\<close> over the backends' answers, adding up the affected rows.\<close>

fun count_results ::
  "'b sph_env \<Rightarrow> nat \<Rightarrow> 'b SphConn list \<Rightarrow> mysql_result result list \<Rightarrow> 64 word \<Rightarrow> 64 word \<times> unit result" where
  "count_results S i (c # cs) (r # rs) counter =
     (case r of
        Inl (Fails e) \<Rightarrow> (counter, Inl (Fails (ErrAnnotated
          (''error executing query on server#'' @ dec i @ '' ('' @ se_remote_addr S (conn_backend c) @ '')'') e)))
      | Inl p \<Rightarrow> (counter, Inl p)
      | Inr res \<Rightarrow> count_results S (Suc i) cs rs (counter + res_AffectedRows res))"
| "count_results S i cs rs counter = (counter, Inr ())"

definition SphinxService_Query ::
  "'b sph_env \<Rightarrow> 'b SphConn list option \<Rightarrow> string \<Rightarrow> 64 word \<Rightarrow> 'b SphConn list option \<times> 64 word \<times> unit result" where
  "SphinxService_Query S sph stmt counter =
     (case sph of
        None \<Rightarrow> (None, counter, Inl (Fails ErrSphinxDisconnected))
      | Some conns \<Rightarrow>
          (let r = ExecuteInParallel S conns stmt
           in (Some (fst r), count_results S 0 (fst r) (snd r) counter)))"

text \<open>A statement counted in one of the \<open>AffectedRows\<close> counters.\<close>

definition run_query ::
  "('b, 'm) batch_env \<Rightarrow> (stat \<Rightarrow> 64 word) \<Rightarrow> ((64 word \<Rightarrow> 64 word) \<Rightarrow> stat \<Rightarrow> stat) \<Rightarrow> string \<Rightarrow>
   (('b, 'm) engine, unit) call" where
  "run_query R get upd stmt e =
     (let r = SphinxService_Query (be_sphinx R) (en_sph e) stmt (get (en_stat e))
      in (e\<lparr>en_sph := fst r, en_stat := upd (\<lambda>_. fst (snd r)) (en_stat e)\<rparr>, snd (snd r)))"

definition add_stat :: "(stat \<Rightarrow> stat) \<Rightarrow> (('b, 'm) engine, unit) call" where
  "add_stat f e = (e\<lparr>en_stat := f (en_stat e)\<rparr>, Inr ())"

definition exec_replace :: "('b, 'm) batch_env \<Rightarrow> querySet \<Rightarrow> (('b, 'm) engine, unit) call" where
  "exec_replace R q =
     (if length (qs_replace q) > 0
      then bindS (run_query R st_ReplaceAffectedRows st_ReplaceAffectedRows_update
                   (formatReplaceQuery (qs_index q) (qs_fields q) (qs_replace q))) (\<lambda>_.
           add_stat (\<lambda>st. st\<lparr>st_ReplaceQueries := st_ReplaceQueries st + 1,
             st_ReplaceQueryDocs := st_ReplaceQueryDocs st + of_nat (length (qs_replace q))\<rparr>))
      else returnS (Inr ()))"

definition exec_delete :: "('b, 'm) batch_env \<Rightarrow> querySet \<Rightarrow> (('b, 'm) engine, unit) call" where
  "exec_delete R q =
     (if length (qs_delete q) > 0
      then bindS (run_query R st_DeleteAffectedRows st_DeleteAffectedRows_update
                   (formatDeleteQuery (qs_index q) (qs_delete q))) (\<lambda>_.
           add_stat (\<lambda>st. st\<lparr>st_DeleteQueries := st_DeleteQueries st + 1,
             st_DeleteQueryDocs := st_DeleteQueryDocs st + of_nat (length (qs_delete q))\<rparr>))
      else returnS (Inr ()))"

definition exec_update :: "('b, 'm) batch_env \<Rightarrow> string \<Rightarrow> updateQueryData \<Rightarrow> (('b, 'm) engine, unit) call" where
  "exec_update R index update =
     bindS (returnS (formatUpdateQuery index (uq_id update) (uq_fields update) (uq_values update))) (\<lambda>query.
     bindS (run_query R st_UpdateAffectedRows st_UpdateAffectedRows_update query) (\<lambda>_.
     add_stat (\<lambda>st. st\<lparr>st_UpdateQueries := st_UpdateQueries st + 1\<rparr>)))"

definition executeQuerySet :: "('b, 'm) batch_env \<Rightarrow> querySet \<Rightarrow> (('b, 'm) engine, unit) call" where
  "executeQuerySet R q =
     bindS (exec_replace R q) (\<lambda>_.
     bindS (exec_delete R q) (\<lambda>_.
     eachS (exec_update R (qs_index q)) (qs_update q)))"

definition canal_Execute :: "('b, 'm) batch_env \<Rightarrow> string \<Rightarrow> (('b, 'm) engine, mysql_result) call" where
  "canal_Execute R query e =
     (let r = be_mysql R query (en_mysql e) in (e\<lparr>en_mysql := fst r\<rparr>, snd r))"

definition doIndexChangeSet :: "('b, 'm) batch_env \<Rightarrow> IndexChangeSet \<Rightarrow> (('b, 'm) engine, unit) call" where
  "doIndexChangeSet R ics =
     (case map_of (be_DataSource R) (ics_Index ics) of
        None \<Rightarrow> returnS (Inl (Fails (ErrMsg
          (''no data source for '' @ squote (ics_Index ics) @ '' index''))))
      | Some dataSource \<Rightarrow>
          bindS (returnS (ChangedAttrsByDocID (be_go R) ics)) (\<lambda>attrChangeInfo.
            if bca_ChangedDocIDs attrChangeInfo = [] then returnS (Inr ())
            else
              bindS (returnS (buildSelectQuery (scd_queryTpl (sc_details dataSource))
                       (bca_ChangedDocIDs attrChangeInfo))) (\<lambda>query.
              bindS (canal_Execute R query) (\<lambda>result.
              bindS (add_stat (\<lambda>st. st\<lparr>st_ProcessedBatches := st_ProcessedBatches st + 1\<rparr>)) (\<lambda>_.
              bindS (returnS (fetchIndexData (be_go R) (be_fmt_v R) result dataSource)) (\<lambda>indexData.
              bindS (returnS (fillQueryBatch (newQueryBatch (ics_Index ics) (idx_fields indexData)
                       (sc_Parts dataSource)) attrChangeInfo indexData dataSource)) (\<lambda>qs.
              eachS (executeQuerySet R) qs)))))))"

definition doBatch :: "('b, 'm) batch_env \<Rightarrow> BatchedChangeSet \<Rightarrow> (('b, 'm) engine, unit) call" where
  "doBatch R batch =
     (if bcs_Changes batch = [] then returnS (Inr ())
      else eachS (doIndexChangeSet R) (map snd (bcs_Changes batch)))"

end
