(* ===== verification/Keyed_Log.thy ===== *)
theory Keyed_Log
  imports Prelude
begin

text \<open>
  The accumulation pattern that the program uses four times: a map from keys to accumulators,
  where an event creates the accumulator of its key or is merged into it. The locale states
  what such an accumulator must promise (it describes the events of its key, in order), and
  proves once that the map then describes every key.
\<close>

definition upsert ::
  "('e \<Rightarrow> 'k) \<Rightarrow> ('e \<Rightarrow> 'v) \<Rightarrow> ('v \<Rightarrow> 'e \<Rightarrow> 'v) \<Rightarrow> ('k, 'v) amap \<Rightarrow> 'e \<Rightarrow> ('k, 'v) amap" where
  "upsert key first step m e =
     aput (key e) (case map_of m (key e) of None \<Rightarrow> first e | Some v \<Rightarrow> step v e) m"

lemma upsert_lookup:
  "map_of (upsert key first step m e) k =
     (if k = key e then Some (case map_of m k of None \<Rightarrow> first e | Some v \<Rightarrow> step v e)
      else map_of m k)"
  by (simp add: upsert_def amap_simps)

lemma awf_upsert: "awf m \<Longrightarrow> awf (upsert key first step m e)"
  by (simp add: upsert_def amap_simps)

lemma awf_foldl_upsert: "awf m \<Longrightarrow> awf (foldl (upsert key first step) m es)"
  by (induction es arbitrary: m) (simp_all add: awf_upsert)

abbreviation for_key :: "('e \<Rightarrow> 'k) \<Rightarrow> 'k \<Rightarrow> 'e list \<Rightarrow> 'e list" where
  "for_key key k es \<equiv> filter (\<lambda>e. key e = k) es"

locale keyed_log =
  fixes key :: "'e \<Rightarrow> 'k"
    and first :: "'e \<Rightarrow> 'v"
    and step :: "'v \<Rightarrow> 'e \<Rightarrow> 'v"
    and ok :: "'e \<Rightarrow> bool"
    and describes :: "'e list \<Rightarrow> 'v \<Rightarrow> bool"
  assumes first_describes: "ok e \<Longrightarrow> describes [e] (first e)"
    and step_describes:
      "es \<noteq> [] \<Longrightarrow> \<forall>x\<in>set es. ok x \<and> key x = key e \<Longrightarrow> ok e \<Longrightarrow> describes es v \<Longrightarrow>
       describes (es @ [e]) (step v e)"
begin

abbreviation log_map :: "'e list \<Rightarrow> ('k, 'v) amap" where
  "log_map es \<equiv> foldl (upsert key first step) [] es"

lemma log_map_entry:
  "\<forall>e\<in>set es. ok e \<Longrightarrow>
   (case map_of (log_map es) k of
      None \<Rightarrow> for_key key k es = []
    | Some v \<Rightarrow> for_key key k es \<noteq> [] \<and> describes (for_key key k es) v)"
proof (induction es rule: rev_induct)
  case (snoc e es)
  then have IH: "case map_of (log_map es) k of
      None \<Rightarrow> for_key key k es = []
    | Some v \<Rightarrow> for_key key k es \<noteq> [] \<and> describes (for_key key k es) v" by simp
  show ?case
  proof (cases "key e = k")
    case True
    with IH snoc.prems show ?thesis
      by (auto simp: upsert_lookup first_describes split: option.splits intro!: step_describes)
  next
    case False
    with IH show ?thesis by (auto simp: upsert_lookup split: option.splits)
  qed
qed simp

lemma log_map_None:
  "\<forall>e\<in>set es. ok e \<Longrightarrow> map_of (log_map es) k = None \<longleftrightarrow> for_key key k es = []"
  using log_map_entry[of es k] by (auto split: option.splits)

lemma log_map_Some:
  "\<forall>e\<in>set es. ok e \<Longrightarrow> map_of (log_map es) k = Some v \<Longrightarrow>
   for_key key k es \<noteq> [] \<and> describes (for_key key k es) v"
  using log_map_entry[of es k] by simp

lemma log_map_awf: "awf (log_map es)"
  by (rule awf_foldl_upsert) (simp add: amap_simps)

lemma log_map_keys: "\<forall>e\<in>set es. ok e \<Longrightarrow> set (akeys (log_map es)) = key ` set es"
  using log_map_None by (auto simp: akeys_dom filter_empty_conv set_eq_iff simp del: not_None_eq)

end

end
