(* ===== verification/Batch_Queue.thy ===== *)
theory Batch_Queue
  imports Batch Keyed_Log
begin

text \<open>
  The contents of the change queue. Both of its levels (documents of an index, indexes of a
  batch) are instances of the keyed log, so a queue is described by the list of document changes
  it was filled with; the smallest event id it holds is what \<open>FirstSeenPositionEventID\<close> returns.
\<close>

subsection \<open>Documents of an index\<close>

definition doc_describes :: "DocumentChange list \<Rightarrow> DocumentChange \<Rightarrow> bool" where
  "doc_describes ds d \<longleftrightarrow>
     dc_Changes d = concat (map dc_Changes ds) \<and> dc_DocID d = dc_DocID (hd ds) \<and>
     dc_Index d = dc_Index (hd ds) \<and> dc_FirstTS d = dc_FirstTS (hd ds) \<and>
     dc_LastTS d = Max (set (map dc_LastTS ds))"

lemma mergeWith_simps [simp]:
  "dc_Changes (mergeWith a b) = dc_Changes a @ dc_Changes b"
  "dc_DocID (mergeWith a b) = dc_DocID a"
  "dc_Index (mergeWith a b) = dc_Index a"
  "dc_FirstTS (mergeWith a b) = dc_FirstTS a"
  "dc_LastTS (mergeWith a b) = max (dc_LastTS a) (dc_LastTS b)"
  by (simp_all add: mergeWith_def Let_def)

interpretation doc_changes: keyed_log dc_DocID "\<lambda>d. d" mergeWith "\<lambda>_. True" doc_describes
proof unfold_locales
  fix ds d e
  assume ne: "ds \<noteq> []" and desc: "doc_describes ds d"
  have "Max (set (map dc_LastTS (ds @ [e]))) = max (Max (set (map dc_LastTS ds))) (dc_LastTS e)"
    using ne by (simp add: Max_insert max.commute)
  with ne desc show "doc_describes (ds @ [e]) (mergeWith d e)"
    by (simp add: doc_describes_def)
qed (simp add: doc_describes_def)

abbreviation doc_log :: "DocumentChange list \<Rightarrow> (64 word, DocumentChange) amap" where
  "doc_log ds \<equiv> foldl (upsert dc_DocID (\<lambda>d. d) mergeWith) [] ds"

lemma addDocumentChange_upsert:
  "addDocumentChange ics d =
     ics\<lparr>ics_ChangedDocs := upsert dc_DocID (\<lambda>d. d) mergeWith (ics_ChangedDocs ics) d\<rparr>"
  by (simp add: addDocumentChange_def upsert_def split: option.splits)

subsection \<open>Indexes of a batch\<close>

definition new_index_set :: "DocumentChange \<Rightarrow> IndexChangeSet" where
  "new_index_set d = \<lparr>ics_ChangedDocs = [(dc_DocID d, d)], ics_Index = dc_Index d\<rparr>"

definition index_describes :: "DocumentChange list \<Rightarrow> IndexChangeSet \<Rightarrow> bool" where
  "index_describes ds ics \<longleftrightarrow> ics_Index ics = dc_Index (hd ds) \<and> ics_ChangedDocs ics = doc_log ds"

interpretation index_sets:
  keyed_log dc_Index new_index_set addDocumentChange "\<lambda>_. True" index_describes
  by unfold_locales
    (auto simp: index_describes_def new_index_set_def addDocumentChange_upsert upsert_def)

abbreviation index_log :: "DocumentChange list \<Rightarrow> (string, IndexChangeSet) amap" where
  "index_log ds \<equiv> foldl (upsert dc_Index new_index_set addDocumentChange) [] ds"

lemma AddDocumentChange_upsert:
  "AddDocumentChange b d =
     b\<lparr>bcs_Changes := upsert dc_Index new_index_set addDocumentChange (bcs_Changes b) d\<rparr>"
  by (simp add: AddDocumentChange_def upsert_def new_index_set_def Let_def split: option.splits)

lemma fold_AddDocumentChange:
  "bcs_Changes (foldl AddDocumentChange b ds) =
     foldl (upsert dc_Index new_index_set addDocumentChange) (bcs_Changes b) ds"
  by (induction ds arbitrary: b) (simp_all add: AddDocumentChange_upsert)

subsection \<open>The queue filled with a list of document changes\<close>

text \<open>\<open>batch_of\<close> is the queue without its label, which only names it in the log.\<close>

definition batch_of :: "DocumentChange list \<Rightarrow> BatchedChangeSet \<Rightarrow> bool" where
  "batch_of ds b \<longleftrightarrow> bcs_Changes b = index_log ds"

lemma batch_of_New: "batch_of [] (NewBatchedChangeSet label)"
  by (simp add: batch_of_def NewBatchedChangeSet_def)

lemma batch_of_Add: "batch_of ds b \<Longrightarrow> batch_of (ds @ [d]) (AddDocumentChange b d)"
  by (simp add: batch_of_def AddDocumentChange_upsert)

lemma batch_of_fold: "batch_of ds b \<Longrightarrow> batch_of (ds @ es) (foldl AddDocumentChange b es)"
  by (simp add: batch_of_def fold_AddDocumentChange)

definition batch_doc :: "BatchedChangeSet \<Rightarrow> string \<Rightarrow> 64 word \<Rightarrow> DocumentChange option" where
  "batch_doc b index i =
     (case map_of (bcs_Changes b) index of
        None \<Rightarrow> None | Some ics \<Rightarrow> map_of (ics_ChangedDocs ics) i)"

definition changes_for :: "string \<Rightarrow> 64 word \<Rightarrow> DocumentChange list \<Rightarrow> DocumentChange list" where
  "changes_for index i ds = for_key dc_DocID i (for_key dc_Index index ds)"

lemma batch_doc_describes:
  assumes "batch_of ds b"
  shows "case batch_doc b index i of
           None \<Rightarrow> changes_for index i ds = []
         | Some d \<Rightarrow> changes_for index i ds \<noteq> [] \<and> doc_describes (changes_for index i ds) d"
proof -
  have b: "bcs_Changes b = index_log ds" using assms by (simp add: batch_of_def)
  show ?thesis
  proof (cases "map_of (index_log ds) index")
    case None
    then show ?thesis
      using index_sets.log_map_None[of ds index] by (simp add: batch_doc_def b changes_for_def)
  next
    case (Some ics)
    then have "ics_ChangedDocs ics = doc_log (for_key dc_Index index ds)"
      using index_sets.log_map_Some[of ds index ics] by (simp add: index_describes_def)
    then show ?thesis
      using Some doc_changes.log_map_entry[of "for_key dc_Index index ds" i]
      unfolding batch_doc_def b changes_for_def by simp
  qed
qed

subsection \<open>All documents and all row changes of a queue\<close>

definition batch_docs :: "BatchedChangeSet \<Rightarrow> DocumentChange list" where
  "batch_docs b = concat (map (\<lambda>e. map snd (ics_ChangedDocs (snd e))) (bcs_Changes b))"

definition batch_rows :: "BatchedChangeSet \<Rightarrow> TableRowChange list" where
  "batch_rows b = concat (map dc_Changes (batch_docs b))"

lemma foldl_seen_docs: "foldl seen_doc s ds = foldl seen_row s (concat (map dc_Changes ds))"
  by (induction ds arbitrary: s) (simp_all add: seen_doc_def)

lemma FirstSeen_rows:
  "FirstSeenPositionEventID b lastID =
     (let s = foldl seen_row (0xffffffffffffffff, False) (batch_rows b)
      in if snd s then fst s else lastID)"
proof -
  have "foldl seen_index s ics = foldl seen_row s
      (concat (map dc_Changes (concat (map (\<lambda>c. map snd (ics_ChangedDocs c)) ics))))" for s ics
    by (induction ics arbitrary: s) (simp_all add: seen_index_def foldl_seen_docs del: foldl_map)
  then show ?thesis
    by (simp add: FirstSeenPositionEventID_def batch_rows_def batch_docs_def comp_def)
qed

lemma seen_row_fold:
  "foldl seen_row (m, f) rs =
     (foldl min m (map trc_EventID rs), f \<or> (\<exists>c\<in>set rs. trc_EventID c < m))"
proof (induction rs arbitrary: m f)
  case (Cons c rs)
  show ?case
  proof (cases "trc_EventID c < m")
    case True
    then have "min m (trc_EventID c) = trc_EventID c" and "seen_row (m, f) c = (trc_EventID c, True)"
      by (simp_all add: seen_row_def)
    with True show ?thesis by (simp add: Cons)
  next
    case False
    then have "min m (trc_EventID c) = m" and "seen_row (m, f) c = (m, f)"
      by (simp_all add: seen_row_def)
    with False show ?thesis by (auto simp: Cons)
  qed
qed simp

lemma foldl_min: "foldl min m xs = Min (insert m (set xs))" for m :: "'a::linorder"
proof (induction xs rule: rev_induct)
  case (snoc x xs)
  have "insert m (set (xs @ [x])) = insert x (insert m (set xs))" by auto
  then show ?case by (simp add: snoc min.commute)
qed simp

lemma max_event: "x \<le> (0xffffffffffffffff :: 64 word)"
proof -
  have "(0xffffffffffffffff :: 64 word) = - 1" by simp
  then show ?thesis using word_n1_ge[of x] by metis
qed

text \<open>Two queues with the same row changes have the same first event.\<close>

lemma FirstSeen_Min:
  "FirstSeenPositionEventID b lastID =
     (if \<exists>c\<in>set (batch_rows b). trc_EventID c < 0xffffffffffffffff
      then Min (trc_EventID ` set (batch_rows b)) else lastID)"
proof (cases "\<exists>c\<in>set (batch_rows b). trc_EventID c < 0xffffffffffffffff")
  case True
  then have "batch_rows b \<noteq> []" by auto
  then have "Min (insert 0xffffffffffffffff (trc_EventID ` set (batch_rows b))) =
      min 0xffffffffffffffff (Min (trc_EventID ` set (batch_rows b)))"
    by (intro Min_insert) auto
  also have "\<dots> = Min (trc_EventID ` set (batch_rows b))"
    by (simp add: min_absorb2 max_event)
  finally show ?thesis using True by (simp add: FirstSeen_rows seen_row_fold foldl_min Let_def)
qed (simp add: FirstSeen_rows seen_row_fold foldl_min Let_def)

subsection \<open>No row change is lost\<close>

definition rows_mset :: "('k, DocumentChange) amap \<Rightarrow> TableRowChange multiset" where
  "rows_mset m = (\<Sum>e\<in>#mset m. mset (dc_Changes (snd e)))"

definition batch_mset :: "(string, IndexChangeSet) amap \<Rightarrow> TableRowChange multiset" where
  "batch_mset m = (\<Sum>e\<in>#mset m. rows_mset (ics_ChangedDocs (snd e)))"

lemma batch_rows_mset: "mset (batch_rows b) = batch_mset (bcs_Changes b)"
proof -
  have "mset (concat (map dc_Changes (concat (map (\<lambda>e. map snd (ics_ChangedDocs (snd e))) m)))) = batch_mset m" for m
    by (induction m) (simp_all add: batch_mset_def rows_mset_def mset_concat comp_def flip: sum_mset_sum_list)
  then show ?thesis by (simp add: batch_rows_def batch_docs_def)
qed

lemma rows_mset_upsert:
  assumes "awf m"
  shows "rows_mset (upsert dc_DocID (\<lambda>d. d) mergeWith m d) = rows_mset m + mset (dc_Changes d)"
proof (cases "map_of m (dc_DocID d)")
  case None
  then show ?thesis by (simp add: upsert_def rows_mset_def aput_fresh)
next
  case (Some v0)
  from arg_cong[OF aput_mset[OF assms Some, of "mergeWith v0 d"],
      of "\<lambda>M. \<Sum>e\<in>#M. mset (dc_Changes (snd e))"] Some
  show ?thesis by (simp add: upsert_def rows_mset_def)
qed

lemma batch_mset_upsert:
  assumes "awf m" and "\<forall>ics\<in>snd ` set m. awf (ics_ChangedDocs ics)"
  shows "batch_mset (upsert dc_Index new_index_set addDocumentChange m d) =
     batch_mset m + mset (dc_Changes d)"
proof (cases "map_of m (dc_Index d)")
  case None
  then show ?thesis by (simp add: upsert_def batch_mset_def aput_fresh new_index_set_def rows_mset_def)
next
  case (Some ics)
  then have "(dc_Index d, ics) \<in> set m" by (rule map_of_SomeD)
  then have "awf (ics_ChangedDocs ics)" using assms(2) by force
  from rows_mset_upsert[OF this] have one: "rows_mset (ics_ChangedDocs (addDocumentChange ics d)) =
      rows_mset (ics_ChangedDocs ics) + mset (dc_Changes d)"
    by (simp add: addDocumentChange_upsert)
  from arg_cong[OF aput_mset[OF assms(1) Some, of "addDocumentChange ics d"],
      of "\<lambda>M. \<Sum>e\<in>#M. rows_mset (ics_ChangedDocs (snd e))"] Some
  show ?thesis by (simp add: upsert_def batch_mset_def one)
qed

lemma index_log_awf: "awf (index_log ds) \<and> (\<forall>ics\<in>snd ` set (index_log ds). awf (ics_ChangedDocs ics))"
proof -
  have awf: "awf (index_log ds)" by (rule index_sets.log_map_awf)
  moreover have "awf (ics_ChangedDocs ics)" if m: "(k, ics) \<in> set (index_log ds)" for k ics
  proof -
    have "map_of (index_log ds) k = Some ics" using m awf by (simp add: awf_lookup_iff)
    then show ?thesis
      using index_sets.log_map_Some[of ds k ics] doc_changes.log_map_awf by (simp add: index_describes_def)
  qed
  ultimately show ?thesis by auto
qed

lemma batch_of_rows:
  "batch_of ds b \<Longrightarrow> mset (batch_rows b) = mset (concat (map dc_Changes ds))"
proof -
  have "batch_mset (index_log ds) = mset (concat (map dc_Changes ds))"
  proof (induction ds rule: rev_induct)
    case (snoc d ds)
    then show ?case using index_log_awf[of ds] by (simp add: batch_mset_upsert)
  qed (simp add: batch_mset_def)
  then show "batch_of ds b \<Longrightarrow> ?thesis" by (simp add: batch_rows_mset batch_of_def)
qed

lemma batch_of_rows_set: "batch_of ds b \<Longrightarrow> set (batch_rows b) = (\<Union>d\<in>set ds. set (dc_Changes d))"
  using arg_cong[OF batch_of_rows, of _ _ set_mset] by fastforce

text \<open>The documents of a queue are those it was filled with, one entry per document.\<close>

definition batch_wf :: "BatchedChangeSet \<Rightarrow> bool" where
  "batch_wf b \<longleftrightarrow> (\<exists>ds. batch_of ds b)"

lemma batch_wf_New [simp]: "batch_wf (NewBatchedChangeSet label)"
  using batch_of_New by (auto simp: batch_wf_def)

lemma batch_wf_Add [simp]: "batch_wf b \<Longrightarrow> batch_wf (AddDocumentChange b d)"
  using batch_of_Add by (auto simp: batch_wf_def)

lemma batch_rows_Add:
  "batch_wf b \<Longrightarrow> mset (batch_rows (AddDocumentChange b d)) = mset (batch_rows b) + mset (dc_Changes d)"
  using batch_of_Add batch_of_rows by (fastforce simp: batch_wf_def)

lemma batch_rows_AddRow:
  "batch_wf b \<Longrightarrow> mset (batch_rows (AddRowChange b c)) = add_mset c (mset (batch_rows b))"
  by (simp add: AddRowChange_def batch_rows_Add row_document_def)

lemma batch_wf_AddRow [simp]: "batch_wf b \<Longrightarrow> batch_wf (AddRowChange b c)"
  by (simp add: AddRowChange_def)

lemma batch_rows_New [simp]: "batch_rows (NewBatchedChangeSet label) = []"
  by (simp add: batch_rows_def batch_docs_def NewBatchedChangeSet_def)

subsection \<open>Properties\<close>

lemma fold_AddRowChange: "foldl AddRowChange b cs = foldl AddDocumentChange b (map row_document cs)"
  by (induction cs arbitrary: b) (simp_all add: AddRowChange_def)

lemma row_documents:
  "changes_for index i (map row_document cs) =
     map row_document (filter (\<lambda>c. trc_Index c = index \<and> trc_DocID c = i) cs)"
  by (induction cs) (auto simp: changes_for_def row_document_def)

text \<open>What the queue holds for a document, in terms of the row changes it was filled with.\<close>

lemma batch_doc_rows:
  "batch_doc (foldl AddRowChange (NewBatchedChangeSet label) cs) index i =
     (let ds = filter (\<lambda>c. trc_Index c = index \<and> trc_DocID c = i) cs
      in if ds = [] then None
         else Some \<lparr>dc_Changes = ds, dc_DocID = i, dc_Index = index, dc_FirstTS = trc_TS (hd ds),
                    dc_LastTS = Max (set (map trc_TS ds))\<rparr>)"
proof -
  let ?ds = "filter (\<lambda>c. trc_Index c = index \<and> trc_DocID c = i) cs"
  let ?b = "foldl AddRowChange (NewBatchedChangeSet label) cs"
  have "batch_of (map row_document cs) ?b"
    using batch_of_fold[OF batch_of_New, of "map row_document cs"] by (simp add: fold_AddRowChange)
  note d = batch_doc_describes[OF this, of index i, unfolded row_documents]
  show ?thesis
  proof (cases "?ds = []")
    case True
    with d show ?thesis by (auto simp: Let_def split: option.splits)
  next
    case False
    then obtain v where v: "batch_doc ?b index i = Some v" "doc_describes (map row_document ?ds) v"
      using d by (auto split: option.splits)
    have "hd ?ds \<in> set ?ds" using False by (rule hd_in_set)
    then have "trc_Index (hd ?ds) = index" "trc_DocID (hd ?ds) = i" by auto
    moreover have "concat (map dc_Changes (map row_document ?ds)) = ?ds"
      by (induction cs) (simp_all add: row_document_def)
    moreover have "map dc_LastTS (map row_document ?ds) = map trc_TS ?ds"
      by (simp add: row_document_def)
    ultimately have "v = \<lparr>dc_Changes = ?ds, dc_DocID = i, dc_Index = index, dc_FirstTS = trc_TS (hd ?ds),
         dc_LastTS = Max (set (map trc_TS ?ds))\<rparr>"
      using v(2) False by (simp add: doc_describes_def hd_map row_document_def)
    with v(1) False show ?thesis by (simp add: Let_def)
  qed
qed

text \<open>
  C10. The queue groups row changes by index and document: after any sequence of row changes the
  entry of an index and a document holds exactly that document's changes, in the order they
  arrived, with the time of the first one and the latest time of all; a document without changes
  has no entry.
\<close>

theorem queue_contents:
  "batch_doc (foldl AddRowChange (NewBatchedChangeSet label) cs) index i =
     (let ds = filter (\<lambda>c. trc_Index c = index \<and> trc_DocID c = i) cs
      in if ds = [] then None
         else Some \<lparr>dc_Changes = ds, dc_DocID = i, dc_Index = index, dc_FirstTS = trc_TS (hd ds),
                    dc_LastTS = Max (set (map trc_TS ds))\<rparr>)"
  by (rule batch_doc_rows)

text \<open>
  C31. \<open>FirstSeenPositionEventID\<close> is the smallest event id among all row changes of the queue, or
  the given last id when the queue is empty (or holds only the largest 64-bit id, which the loop
  uses as its start).
\<close>

theorem first_seen_is_minimum:
  "FirstSeenPositionEventID (foldl AddRowChange (NewBatchedChangeSet label) cs) lastID =
     (if \<exists>c\<in>set cs. trc_EventID c < 0xffffffffffffffff
      then Min (trc_EventID ` set cs) else lastID)"
proof -
  have "batch_of (map row_document cs) (foldl AddRowChange (NewBatchedChangeSet label) cs)"
    using batch_of_fold[OF batch_of_New, of "map row_document cs"] by (simp add: fold_AddRowChange)
  then have "set (batch_rows (foldl AddRowChange (NewBatchedChangeSet label) cs)) = set cs"
    using batch_of_rows_set by (fastforce simp: row_document_def)
  then show ?thesis by (simp add: FirstSeen_Min)
qed

end
