(* ===== verification/Changeset_Spec.thy ===== *)
theory Changeset_Spec
  imports Changeset Keyed_Log
begin

text \<open>
  What the fold of \<open>changeset.go\<close> computes: for every table and primary key the old row of the
  first change and the new row of the last one. Both levels of the fold are instances of the
  keyed log: primary keys to row diffs within a table, table names to change sets within a
  document.
\<close>

subsection \<open>Row diffs of one table\<close>

definition known_action :: "TableRowChange \<Rightarrow> bool" where
  "known_action c \<longleftrightarrow> trc_Action c \<in> {InsertAction, UpdateAction, DeleteAction}"

definition diff_describes :: "TableRowChange list \<Rightarrow> RowDiff \<Rightarrow> bool" where
  "diff_describes cs d \<longleftrightarrow>
     rd_Old d = trc_OldRow (hd cs) \<and> rd_New d = trc_NewRow (last cs) \<and>
     (rd_IsInsert d \<longrightarrow> trc_Action (hd cs) = InsertAction) \<and>
     (rd_IsDelete d \<longrightarrow> trc_Action (last cs) = DeleteAction) \<and>
     (rd_IsInsert d \<or> rd_IsUpdate d \<or> rd_IsDelete d)"

abbreviation row_log :: "TableRowChange list \<Rightarrow> (PrimaryKey, RowDiff) amap" where
  "row_log cs \<equiv> foldl (upsert trc_PK first_diff next_diff) [] cs"

interpretation row_diffs: keyed_log trc_PK first_diff next_diff known_action diff_describes
  by unfold_locales
    (auto simp: diff_describes_def first_diff_def next_diff_def known_action_def Let_def)

lemma TableChangeSet_ApplyChange_upsert:
  "TableChangeSet_ApplyChange t c =
     (if \<not> list_all key_ok (pk_Value (trc_PK c)) then Inl (Panics UnhashableKey)
      else Inr (t\<lparr>tcs_Changes := upsert trc_PK first_diff next_diff (tcs_Changes t) c\<rparr>))"
proof -
  have "(case x of Some d \<Rightarrow> next_diff d c | None \<Rightarrow> first_diff c) =
        (case x of None \<Rightarrow> first_diff c | Some d \<Rightarrow> next_diff d c)" for x
    by (cases x) simp_all
  then show ?thesis by (simp add: TableChangeSet_ApplyChange_def upsert_def)
qed

subsection \<open>Change sets of one document\<close>

definition new_table :: "TableRowChange \<Rightarrow> TableChangeSet" where
  "new_table c = \<lparr>tcs_Columns = trc_Columns c, tcs_ColumnMap = trc_ColumnMap c, tcs_Changes = []\<rparr>"

definition add_row_change :: "TableChangeSet \<Rightarrow> TableRowChange \<Rightarrow> TableChangeSet" where
  "add_row_change t c =
     t\<lparr>tcs_Changes := upsert trc_PK first_diff next_diff (tcs_Changes t) c\<rparr>"

definition table_describes :: "TableRowChange list \<Rightarrow> TableChangeSet \<Rightarrow> bool" where
  "table_describes cs t \<longleftrightarrow>
     tcs_Columns t = trc_Columns (hd cs) \<and> tcs_ColumnMap t = trc_ColumnMap (hd cs) \<and>
     tcs_Changes t = row_log cs"

abbreviation table_log :: "TableRowChange list \<Rightarrow> (string, TableChangeSet) amap" where
  "table_log cs \<equiv>
     foldl (upsert trc_TableName (\<lambda>c. add_row_change (new_table c) c) add_row_change) [] cs"

interpretation table_sets:
  keyed_log trc_TableName "\<lambda>c. add_row_change (new_table c) c" add_row_change "\<lambda>_. True"
    table_describes
  by unfold_locales (auto simp: table_describes_def add_row_change_def new_table_def)

definition keyed :: "TableRowChange \<Rightarrow> bool" where
  "keyed c \<longleftrightarrow> list_all key_ok (pk_Value (trc_PK c))"

lemma DocChangeSet_ApplyChange_upsert:
  "DocChangeSet_ApplyChange s c =
     (if \<not> keyed c then Inl (Panics UnhashableKey)
      else Inr \<lparr>dcs_Changes = upsert trc_TableName (\<lambda>c. add_row_change (new_table c) c)
                  add_row_change (dcs_Changes s) c\<rparr>)"
  by (cases s)
    (auto simp: DocChangeSet_ApplyChange_def TableChangeSet_ApplyChange_upsert upsert_def Let_def
      keyed_def add_row_change_def new_table_def split: option.splits)

lemma fold_DocChangeSet:
  "foldR DocChangeSet_ApplyChange s cs =
     (if \<forall>c\<in>set cs. keyed c
      then Inr \<lparr>dcs_Changes = foldl (upsert trc_TableName (\<lambda>c. add_row_change (new_table c) c)
                  add_row_change) (dcs_Changes s) cs\<rparr>
      else Inl (Panics UnhashableKey))"
  by (induction cs arbitrary: s) (simp_all add: DocChangeSet_ApplyChange_upsert)

lemma NewDocChangeSet_eq:
  "NewDocChangeSet cs =
     (if \<forall>c\<in>set cs. keyed c then Inr (PruneUnchangedTables \<lparr>dcs_Changes = table_log cs\<rparr>)
      else Inl (Panics UnhashableKey))"
  by (simp add: NewDocChangeSet_def fold_DocChangeSet)

end
