(* ===== verification/Changeset_Correct.thy ===== *)
theory Changeset_Correct
  imports Changeset_Spec
begin

text \<open>
  Change detection is sound: the rows of a document are an abstract table state (a row per table
  and primary key, an absent row being all NULL), a change list is a history of that state, and
  a column that is not reported has the same set of values before and after it.
\<close>

subsection \<open>What the loops of ChangedColumnNames compute\<close>

definition old_arrays :: "go_env \<Rightarrow> RowDiff list \<Rightarrow> gval list set" where
  "old_arrays E ds =
     {a. \<exists>d\<in>set ds. (rd_IsDelete d \<or> rd_IsUpdate d) \<and> rowToArray E (rd_Old d) = Inr a}"

definition new_arrays :: "go_env \<Rightarrow> RowDiff list \<Rightarrow> gval list set" where
  "new_arrays E ds =
     {a. \<exists>d\<in>set ds. (rd_IsInsert d \<or> rd_IsUpdate d) \<and> rowToArray E (rd_New d) = Inr a}"

lemma collect_row_Inr:
  "collect_row E cond r s = Inr s' \<Longrightarrow>
   s' = s \<union> {a. cond \<and> rowToArray E r = Inr a} \<and> (cond \<longrightarrow> (\<exists>a. rowToArray E r = Inr a))"
  by (auto simp: collect_row_def set_Add_def result_simps split: if_splits)

lemma arrays_Cons:
  "old_arrays E (d # ds) =
     {a. (rd_IsDelete d \<or> rd_IsUpdate d) \<and> rowToArray E (rd_Old d) = Inr a} \<union> old_arrays E ds"
  "new_arrays E (d # ds) =
     {a. (rd_IsInsert d \<or> rd_IsUpdate d) \<and> rowToArray E (rd_New d) = Inr a} \<union> new_arrays E ds"
  by (auto simp: old_arrays_def new_arrays_def)

lemma collect_fold:
  "foldR (collect_diff E) ba ds = Inr ba' \<Longrightarrow>
   fst ba' = fst ba \<union> old_arrays E ds \<and> snd ba' = snd ba \<union> new_arrays E ds \<and>
   (\<forall>d\<in>set ds. (rd_IsDelete d \<or> rd_IsUpdate d \<longrightarrow> (\<exists>a. rowToArray E (rd_Old d) = Inr a)) \<and>
               (rd_IsInsert d \<or> rd_IsUpdate d \<longrightarrow> (\<exists>a. rowToArray E (rd_New d) = Inr a)))"
proof (induction ds arbitrary: ba)
  case Nil
  then show ?case by (simp add: old_arrays_def new_arrays_def)
next
  case (Cons d ds)
  then obtain m where m: "collect_diff E ba d = Inr m" "foldR (collect_diff E) m ds = Inr ba'"
    by (auto simp: result_simps)
  from m(1) have old: "collect_row E (rd_IsDelete d \<or> rd_IsUpdate d) (rd_Old d) (fst ba) = Inr (fst m)"
    and new: "collect_row E (rd_IsInsert d \<or> rd_IsUpdate d) (rd_New d) (snd ba) = Inr (snd m)"
    by (auto simp: collect_diff_def result_simps)
  show ?case
    using collect_row_Inr[OF old] collect_row_Inr[OF new] Cons.IH[OF m(2)]
    by (simp add: arrays_Cons Un_assoc)
qed

lemma diff_columns_reports:
  "diff_columns cols old new = Inr r \<Longrightarrow> j < length cols \<Longrightarrow> old ! j \<noteq> new ! j \<Longrightarrow> cols ! j \<in> set r"
  by (induction cols old new arbitrary: r j rule: diff_columns.induct)
    (auto simp: result_simps nth_Cons split: nat.splits if_splits)

lemma diff_columns_only:
  "diff_columns cols old new = Inr r \<Longrightarrow> col \<in> set r \<Longrightarrow>
   \<exists>j < length cols. cols ! j = col \<and> old ! j \<noteq> new ! j"
proof (induction cols old new arbitrary: r rule: diff_columns.induct)
  case (2 c cols x old y new)
  then obtain r' where r': "diff_columns cols old new = Inr r'"
    and r: "r = (if x \<noteq> y then c # r' else r')"
    by (auto simp: result_simps)
  show ?case
  proof (cases "col \<in> set r'")
    case True
    then obtain j where "j < length cols" "cols ! j = col" "old ! j \<noteq> new ! j"
      using "2.IH"[OF r'] by blast
    then show ?thesis by (intro exI[of _ "Suc j"]) simp
  next
    case False
    with r "2.prems"(2) have "x \<noteq> y" "col = c" by (auto split: if_splits)
    then show ?thesis by (intro exI[of _ 0]) simp
  qed
qed simp_all

lemma set_add_columns [simp]: "set (add_columns cs r) = set cs \<union> set r"
  by (auto simp: add_columns_def)

lemma column_fold:
  assumes "foldR (\<lambda>columnSet d. bindR (diff_columns cols (rd_Old d) (rd_New d)) (\<lambda>r.
             Inr (add_columns columnSet r))) cs0 ds = Inr names"
    and "d \<in> set ds" and "j < length cols" and "rd_Old d ! j \<noteq> rd_New d ! j"
  shows "cols ! j \<in> set names"
proof -
  have grow: "set cs0 \<subseteq> set names" if
    "foldR (\<lambda>columnSet d. bindR (diff_columns cols (rd_Old d) (rd_New d)) (\<lambda>r.
             Inr (add_columns columnSet r))) cs0 ds = Inr names" for cs0 ds
    using that by (rule foldR_invariant) (auto simp: result_simps)
  show ?thesis using assms
  proof (induction ds arbitrary: cs0)
    case (Cons d' ds)
    then obtain r where r: "diff_columns cols (rd_Old d') (rd_New d') = Inr r"
      and rest: "foldR (\<lambda>columnSet d. bindR (diff_columns cols (rd_Old d) (rd_New d)) (\<lambda>r.
             Inr (add_columns columnSet r))) (add_columns cs0 r) ds = Inr names"
      by (auto simp: result_simps)
    show ?case
    proof (cases "d = d'")
      case True
      then have "cols ! j \<in> set r" using diff_columns_reports[OF r] Cons.prems(3,4) by simp
      with grow[OF rest] show ?thesis by auto
    next
      case False
      with Cons.IH[OF rest] Cons.prems show ?thesis by simp
    qed
  qed simp
qed

subsection \<open>Column values of a table state\<close>

text \<open>
  The values a tuple of columns takes over all rows of the state, compared as the program
  compares them (byte strings as strings). A tuple of NULLs is the value of an absent row.
\<close>

definition column_values :: "go_env \<Rightarrow> nat list \<Rightarrow> (PrimaryKey \<Rightarrow> row) \<Rightarrow> gval list set" where
  "column_values E J R =
     range (\<lambda>pk. map (\<lambda>j. hashable E (R pk ! j)) J) - {replicate (length J) GNil}"

definition diff_connects :: "nat \<Rightarrow> row \<Rightarrow> row \<Rightarrow> RowDiff \<Rightarrow> bool" where
  "diff_connects n before after d \<longleftrightarrow>
     rd_Old d = before \<and> rd_New d = after \<and> length before = n \<and> length after = n \<and>
     (rd_IsDelete d \<or> rd_IsUpdate d \<or> before = replicate n GNil) \<and>
     (rd_IsInsert d \<or> rd_IsUpdate d \<or> after = replicate n GNil)"

definition connects :: "TableChangeSet \<Rightarrow> (PrimaryKey \<Rightarrow> row) \<Rightarrow> (PrimaryKey \<Rightarrow> row) \<Rightarrow> bool" where
  "connects t R R' \<longleftrightarrow>
     awf (tcs_Changes t) \<and>
     (\<forall>pk. case map_of (tcs_Changes t) pk of
             None \<Rightarrow> R pk = R' pk
           | Some d \<Rightarrow> diff_connects (length (tcs_Columns t)) (R pk) (R' pk) d)"

lemma connects_None: "connects t R R' \<Longrightarrow> map_of (tcs_Changes t) pk = None \<Longrightarrow> R pk = R' pk"
  unfolding connects_def by (metis option.simps(4))

lemma connects_Some:
  "connects t R R' \<Longrightarrow> map_of (tcs_Changes t) pk = Some d \<Longrightarrow>
   diff_connects (length (tcs_Columns t)) (R pk) (R' pk) d"
  unfolding connects_def by (metis option.simps(5))

lemma connects_diff:
  assumes "connects t R R'" and "d \<in> snd ` set (tcs_Changes t)"
  obtains pk where "map_of (tcs_Changes t) pk = Some d"
    and "diff_connects (length (tcs_Columns t)) (R pk) (R' pk) d"
proof -
  from assms obtain pk where "(pk, d) \<in> set (tcs_Changes t)" by auto
  then have "map_of (tcs_Changes t) pk = Some d"
    using assms(1) by (simp add: connects_def awf_lookup_iff)
  with connects_Some[OF assms(1) this] that show thesis by blast
qed

lemma column_values_half:
  assumes "connects t R R'" and "\<forall>j\<in>set J. j < length (tcs_Columns t)"
    and before: "\<And>d. d \<in> snd ` set (tcs_Changes t) \<Longrightarrow> rd_IsDelete d \<or> rd_IsUpdate d \<Longrightarrow>
        \<exists>d'\<in>snd ` set (tcs_Changes t). \<exists>a. rowToArray E (rd_Old d) = Inr a \<and>
          rowToArray E (rd_New d') = Inr a"
  shows "column_values E J R \<subseteq> column_values E J R'"
proof
  fix v assume v: "v \<in> column_values E J R"
  then obtain pk where pk: "v = map (\<lambda>j. hashable E (R pk ! j)) J"
    and nz: "v \<noteq> replicate (length J) GNil"
    by (auto simp: column_values_def)
  have "\<exists>pk'. v = map (\<lambda>j. hashable E (R' pk' ! j)) J"
  proof (cases "map_of (tcs_Changes t) pk")
    case None
    then have "R pk = R' pk" by (rule connects_None[OF assms(1)])
    with pk show ?thesis by metis
  next
    case (Some d)
    then have d: "diff_connects (length (tcs_Columns t)) (R pk) (R' pk) d"
      by (rule connects_Some[OF assms(1)])
    have din: "d \<in> snd ` set (tcs_Changes t)" using Some by (force dest: map_of_SomeD)
    have "rd_IsDelete d \<or> rd_IsUpdate d"
    proof (rule ccontr)
      assume "\<not> (rd_IsDelete d \<or> rd_IsUpdate d)"
      with d have "R pk = replicate (length (tcs_Columns t)) GNil" by (auto simp: diff_connects_def)
      then have "v = replicate (length J) GNil"
        using pk assms(2) by (auto simp: map_replicate_const[symmetric] intro!: map_cong)
      with nz show False by simp
    qed
    from before[OF din this] obtain d' a where d': "d' \<in> snd ` set (tcs_Changes t)"
      and a: "rowToArray E (rd_Old d) = Inr a" "rowToArray E (rd_New d') = Inr a"
      by blast
    obtain pk' where c': "diff_connects (length (tcs_Columns t)) (R pk') (R' pk') d'"
      using connects_diff[OF assms(1) d'] by blast
    have "\<forall>j\<in>set J. hashable E (R pk ! j) = hashable E (R' pk' ! j)"
      using rowToArray_eq_nth[OF a] d c' assms(2) by (auto simp: diff_connects_def)
    then show ?thesis using pk by auto
  qed
  with nz show "v \<in> column_values E J R'" by (auto simp: column_values_def)
qed

text \<open>The other half is the same statement about the reversed table.\<close>

definition flip_diff :: "RowDiff \<Rightarrow> RowDiff" where
  "flip_diff d = \<lparr>rd_IsInsert = rd_IsDelete d, rd_IsUpdate = rd_IsUpdate d,
     rd_IsDelete = rd_IsInsert d, rd_Old = rd_New d, rd_New = rd_Old d\<rparr>"

definition flip_table :: "TableChangeSet \<Rightarrow> TableChangeSet" where
  "flip_table t = t\<lparr>tcs_Changes := map (\<lambda>(k, d). (k, flip_diff d)) (tcs_Changes t)\<rparr>"

lemma connects_flip: "connects t R R' \<Longrightarrow> connects (flip_table t) R' R"
proof -
  assume c: "connects t R R'"
  have lk: "map_of (tcs_Changes (flip_table t)) pk = map_option flip_diff (map_of (tcs_Changes t) pk)" for pk
    by (simp add: flip_table_def map_of_map)
  have "awf (tcs_Changes (flip_table t))"
    using c by (simp add: connects_def awf_def akeys_def flip_table_def comp_def case_prod_unfold)
  moreover have "case map_of (tcs_Changes (flip_table t)) pk of
        None \<Rightarrow> R' pk = R pk
      | Some d \<Rightarrow> diff_connects (length (tcs_Columns (flip_table t))) (R' pk) (R pk) d" for pk
  proof (cases "map_of (tcs_Changes t) pk")
    case None
    then show ?thesis using connects_None[OF c None] by (simp add: lk)
  next
    case (Some d)
    have "diff_connects (length (tcs_Columns t)) (R' pk) (R pk) (flip_diff d)"
      using connects_Some[OF c Some] by (auto simp: diff_connects_def flip_diff_def)
    with Some show ?thesis by (simp only: lk option.map option.case) (simp add: flip_table_def)
  qed
  ultimately show ?thesis unfolding connects_def by blast
qed

lemma flip_diffs: "snd ` set (tcs_Changes (flip_table t)) = flip_diff ` snd ` set (tcs_Changes t)"
  by (force simp: flip_table_def)

lemma column_values_equal:
  assumes c: "connects t R R'" and J: "\<forall>j\<in>set J. j < length (tcs_Columns t)"
    and collected_old: "\<And>d. d \<in> snd ` set (tcs_Changes t) \<Longrightarrow> rd_IsDelete d \<or> rd_IsUpdate d \<Longrightarrow>
        \<exists>a. rowToArray E (rd_Old d) = Inr a"
    and collected_new: "\<And>d. d \<in> snd ` set (tcs_Changes t) \<Longrightarrow> rd_IsInsert d \<or> rd_IsUpdate d \<Longrightarrow>
        \<exists>a. rowToArray E (rd_New d) = Inr a"
    and same: "new_arrays E (map snd (tcs_Changes t)) = old_arrays E (map snd (tcs_Changes t))"
  shows "column_values E J R = column_values E J R'"
proof
  have "\<exists>d'\<in>snd ` set (tcs_Changes t). \<exists>a. rowToArray E (rd_Old d) = Inr a \<and>
          rowToArray E (rd_New d') = Inr a"
    if d: "d \<in> snd ` set (tcs_Changes t)" "rd_IsDelete d \<or> rd_IsUpdate d" for d
  proof -
    obtain a where a: "rowToArray E (rd_Old d) = Inr a" using collected_old[OF d] ..
    then have "a \<in> old_arrays E (map snd (tcs_Changes t))"
      using d by (auto simp: old_arrays_def)
    then have "a \<in> new_arrays E (map snd (tcs_Changes t))" by (simp add: same)
    with a show ?thesis by (auto simp: new_arrays_def)
  qed
  then show "column_values E J R \<subseteq> column_values E J R'" by (rule column_values_half[OF c J])
  have "\<exists>d'\<in>snd ` set (tcs_Changes (flip_table t)). \<exists>a. rowToArray E (rd_Old d) = Inr a \<and>
          rowToArray E (rd_New d') = Inr a"
    if d: "d \<in> snd ` set (tcs_Changes (flip_table t))" "rd_IsDelete d \<or> rd_IsUpdate d" for d
  proof -
    obtain e where e: "e \<in> snd ` set (tcs_Changes t)" "d = flip_diff e"
      using d(1) unfolding flip_diffs by blast
    then have i: "rd_IsInsert e \<or> rd_IsUpdate e" using d(2) by (auto simp: flip_diff_def)
    obtain a where a: "rowToArray E (rd_New e) = Inr a" using collected_new[OF e(1) i] ..
    then have "a \<in> new_arrays E (map snd (tcs_Changes t))"
      using e(1) i unfolding new_arrays_def set_map by blast
    then have "a \<in> old_arrays E (map snd (tcs_Changes t))" by (simp only: same)
    then obtain e' where e': "e' \<in> snd ` set (tcs_Changes t)" "rowToArray E (rd_Old e') = Inr a"
      unfolding old_arrays_def set_map by blast
    have "flip_diff e' \<in> snd ` set (tcs_Changes (flip_table t))"
      unfolding flip_diffs by (rule imageI) (rule e'(1))
    moreover have "rowToArray E (rd_New (flip_diff e')) = Inr a"
      using e'(2) by (simp add: flip_diff_def)
    moreover have "rowToArray E (rd_Old d) = Inr a" using a e by (simp add: flip_diff_def)
    ultimately show ?thesis by blast
  qed
  moreover have "\<forall>j\<in>set J. j < length (tcs_Columns (flip_table t))"
    using J by (simp add: flip_table_def)
  ultimately show "column_values E J R' \<subseteq> column_values E J R"
    using column_values_half[OF connects_flip[OF c]] by blast
qed

subsection \<open>One table\<close>

lemma ChangedColumnNames_sound:
  assumes c: "connects t R R'" and names: "ChangedColumnNames E t = Inr names"
    and J: "\<forall>j\<in>set J. j < length (tcs_Columns t) \<and> tcs_Columns t ! j \<notin> set names"
  shows "column_values E J R = column_values E J R'"
proof -
  let ?ds = "map snd (tcs_Changes t)"
  obtain ba where ba: "foldR (collect_diff E) ({}, {}) ?ds = Inr ba"
    using names unfolding ChangedColumnNames_def Let_def bindR_eq_Inr by blast
  note col = collect_fold[OF ba]
  have body: "(if snd ba = fst ba then Inr []
       else if card (snd ba) > 1 \<or> card (fst ba) > 1 then Inr (tcs_Columns t)
       else foldR (\<lambda>columnSet d. bindR (diff_columns (tcs_Columns t) (rd_Old d) (rd_New d)) (\<lambda>r.
         Inr (add_columns columnSet r))) [] ?ds) = Inr names"
    using names by (simp only: ChangedColumnNames_def Let_def ba bindR_Inr)
  consider "snd ba = fst ba" | "names = tcs_Columns t"
    | "foldR (\<lambda>columnSet d. bindR (diff_columns (tcs_Columns t) (rd_Old d) (rd_New d)) (\<lambda>r.
         Inr (add_columns columnSet r))) [] ?ds = Inr names"
    using body by (cases "snd ba = fst ba"; cases "card (snd ba) > 1 \<or> card (fst ba) > 1") simp_all
  then show ?thesis
  proof cases
    case 1
    have same: "new_arrays E ?ds = old_arrays E ?ds" using 1 col by simp
    have J': "\<forall>j\<in>set J. j < length (tcs_Columns t)" using J by blast
    show ?thesis
      by (rule column_values_equal[OF c J' _ _ same]) (use col in auto)
  next
    case 2
    then have "J = []" using J by (cases J) auto
    then show ?thesis by (simp add: column_values_def)
  next
    case 3
    have "map (\<lambda>j. hashable E (R pk ! j)) J = map (\<lambda>j. hashable E (R' pk ! j)) J" for pk
    proof (cases "map_of (tcs_Changes t) pk")
      case None
      then show ?thesis using connects_None[OF c None] by simp
    next
      case (Some d)
      then have "d \<in> set ?ds" by (force dest: map_of_SomeD)
      then have "rd_Old d ! j = rd_New d ! j" if "j \<in> set J" for j
        using column_fold[OF 3, of d j] J that by blast
      then show ?thesis using connects_Some[OF c Some] by (auto simp: diff_connects_def)
    qed
    then show ?thesis unfolding column_values_def by (simp only:)
  qed
qed

end
