(* ===== verification/Changed_Attrs.thy ===== *)
theory Changed_Attrs
  imports Changeset_Correct
begin

text \<open>
  \<open>ChangedAttrs\<close> against the history of a document: the state of its tables before and after
  the recorded changes. \<open>row_history\<close> says that every change starts from the row the state
  holds and that all changes of a table list the same columns.
\<close>

type_synonym doc_rows = "string \<Rightarrow> PrimaryKey \<Rightarrow> row"

definition apply_change :: "doc_rows \<Rightarrow> TableRowChange \<Rightarrow> doc_rows" where
  "apply_change T c =
     T(trc_TableName c := (T (trc_TableName c))(trc_PK c := trc_NewRow c))"

definition change_fits ::
  "(string \<Rightarrow> string list) \<Rightarrow> (string \<Rightarrow> column_map) \<Rightarrow> doc_rows \<Rightarrow> TableRowChange \<Rightarrow> bool" where
  "change_fits cols cm T c \<longleftrightarrow>
     (let tb = trc_TableName c; n = length (cols tb) in
      known_action c \<and> trc_Columns c = cols tb \<and> trc_ColumnMap c = cm tb \<and>
      trc_OldRow c = T tb (trc_PK c) \<and> length (trc_OldRow c) = n \<and> length (trc_NewRow c) = n \<and>
      (trc_Action c = InsertAction \<longrightarrow> trc_OldRow c = replicate n GNil) \<and>
      (trc_Action c = DeleteAction \<longrightarrow> trc_NewRow c = replicate n GNil))"

fun row_history ::
  "(string \<Rightarrow> string list) \<Rightarrow> (string \<Rightarrow> column_map) \<Rightarrow> doc_rows \<Rightarrow> TableRowChange list \<Rightarrow> bool" where
  "row_history cols cm T [] = True"
| "row_history cols cm T (c # cs) =
     (change_fits cols cm T c \<and> row_history cols cm (apply_change T c) cs)"

definition rows_after :: "doc_rows \<Rightarrow> TableRowChange list \<Rightarrow> doc_rows" where
  "rows_after T cs = foldl apply_change T cs"

abbreviation changes_of :: "string \<Rightarrow> PrimaryKey \<Rightarrow> TableRowChange list \<Rightarrow> TableRowChange list" where
  "changes_of tb pk cs \<equiv> for_key trc_PK pk (for_key trc_TableName tb cs)"

text \<open>The parts of \<open>change_fits\<close> that do not depend on the state hold of every change.\<close>

definition change_shape ::
  "(string \<Rightarrow> string list) \<Rightarrow> (string \<Rightarrow> column_map) \<Rightarrow> TableRowChange \<Rightarrow> bool" where
  "change_shape cols cm c \<longleftrightarrow>
     (let tb = trc_TableName c; n = length (cols tb) in
      known_action c \<and> trc_Columns c = cols tb \<and> trc_ColumnMap c = cm tb \<and>
      length (trc_OldRow c) = n \<and> length (trc_NewRow c) = n \<and>
      (trc_Action c = InsertAction \<longrightarrow> trc_OldRow c = replicate n GNil) \<and>
      (trc_Action c = DeleteAction \<longrightarrow> trc_NewRow c = replicate n GNil))"

lemma history_shape:
  "row_history cols cm T cs \<Longrightarrow> c \<in> set cs \<Longrightarrow> change_shape cols cm c"
  by (induction cs arbitrary: T) (auto simp: change_fits_def change_shape_def Let_def)

lemma history_first:
  "row_history cols cm T cs \<Longrightarrow> changes_of tb pk cs \<noteq> [] \<Longrightarrow>
   trc_OldRow (hd (changes_of tb pk cs)) = T tb pk"
proof (induction cs arbitrary: T)
  case (Cons c cs)
  show ?case
  proof (cases "trc_TableName c = tb \<and> trc_PK c = pk")
    case True
    with Cons.prems show ?thesis by (auto simp: change_fits_def Let_def)
  next
    case False
    then have "changes_of tb pk (c # cs) = changes_of tb pk cs"
      and "apply_change T c tb pk = T tb pk"
      by (auto simp: apply_change_def)
    with Cons show ?thesis by auto
  qed
qed simp

lemma rows_after_eq:
  "rows_after T cs tb pk =
     (if changes_of tb pk cs = [] then T tb pk else trc_NewRow (last (changes_of tb pk cs)))"
proof (induction cs rule: rev_induct)
  case (snoc c cs)
  then show ?case by (auto simp: rows_after_def apply_change_def)
qed (simp add: rows_after_def)

lemma for_key_for_key: "for_key trc_PK pk (for_key trc_TableName tb cs) = changes_of tb pk cs"
  by simp

subsection \<open>The pruned change set connects the two states\<close>

lemma row_diff_connects:
  assumes h: "row_history cols cm T cs" and ne: "changes_of tb pk cs \<noteq> []"
    and d: "diff_describes (changes_of tb pk cs) d"
  shows "diff_connects (length (cols tb)) (T tb pk) (rows_after T cs tb pk) d"
proof -
  have "hd (changes_of tb pk cs) \<in> set (changes_of tb pk cs)"
    and "last (changes_of tb pk cs) \<in> set (changes_of tb pk cs)"
    using hd_in_set[OF ne] last_in_set[OF ne] by blast+
  then have "change_shape cols cm (hd (changes_of tb pk cs))" "change_shape cols cm (last (changes_of tb pk cs))"
    "trc_TableName (hd (changes_of tb pk cs)) = tb" "trc_TableName (last (changes_of tb pk cs)) = tb"
    using history_shape[OF h] by auto
  then show ?thesis
    using d ne history_first[OF h ne]
    unfolding diff_connects_def diff_describes_def change_shape_def Let_def rows_after_eq
    by auto
qed

lemma table_entry:
  assumes h: "row_history cols cm T cs" and tb: "map_of (table_log cs) tb = Some t"
  shows "tcs_Columns t = cols tb" and "tcs_ColumnMap t = cm tb" and "connects t (T tb) (rows_after T cs tb)"
    and "\<forall>pk. map_of (tcs_Changes t) pk = None \<longleftrightarrow> changes_of tb pk cs = []"
proof -
  let ?cs = "for_key trc_TableName tb cs"
  have desc: "?cs \<noteq> []" "table_describes ?cs t"
    using table_sets.log_map_Some[of cs tb t] tb by auto
  have "hd ?cs \<in> set ?cs" using desc(1) by (rule hd_in_set)
  then have hd: "hd ?cs \<in> set cs" "trc_TableName (hd ?cs) = tb" by auto
  from history_shape[OF h hd(1)] have shape: "trc_Columns (hd ?cs) = cols tb" "trc_ColumnMap (hd ?cs) = cm tb"
    using hd(2) by (auto simp: change_shape_def Let_def)
  show cols: "tcs_Columns t = cols tb" and "tcs_ColumnMap t = cm tb"
    using desc(2) shape by (auto simp: table_describes_def)
  have log: "tcs_Changes t = row_log ?cs" using desc(2) by (simp add: table_describes_def)
  have known: "\<forall>c\<in>set ?cs. known_action c"
    using history_shape[OF h] by (auto simp: change_shape_def Let_def)
  show none: "\<forall>pk. map_of (tcs_Changes t) pk = None \<longleftrightarrow> changes_of tb pk cs = []"
    using row_diffs.log_map_None[OF known] by (simp add: log)
  have "case map_of (tcs_Changes t) pk of
          None \<Rightarrow> T tb pk = rows_after T cs tb pk
        | Some d \<Rightarrow> diff_connects (length (tcs_Columns t)) (T tb pk) (rows_after T cs tb pk) d" for pk
    using none row_diffs.log_map_Some[OF known, of pk] row_diff_connects[OF h, where tb = tb and pk = pk]
    by (auto simp: rows_after_eq cols log split: option.split)
  moreover have "awf (tcs_Changes t)" unfolding log by (rule row_diffs.log_map_awf)
  ultimately show "connects t (T tb) (rows_after T cs tb)" unfolding connects_def by blast
qed

lemma connects_prune: "connects t R R' \<Longrightarrow> connects (PruneUnchangedRows t) R R'"
proof -
  assume c: "connects t R R'"
  then have wf: "awf (tcs_Changes t)" by (simp add: connects_def)
  have "case map_of (tcs_Changes (PruneUnchangedRows t)) pk of
          None \<Rightarrow> R pk = R' pk
        | Some d \<Rightarrow> diff_connects (length (tcs_Columns (PruneUnchangedRows t))) (R pk) (R' pk) d" for pk
  proof (cases "map_of (tcs_Changes t) pk")
    case None
    then show ?thesis
      using connects_None[OF c None] by (simp add: PruneUnchangedRows_def awf_filter_lookup[OF wf])
  next
    case (Some d)
    then show ?thesis using connects_Some[OF c Some]
      by (auto simp: PruneUnchangedRows_def awf_filter_lookup[OF wf] diff_connects_def)
  qed
  then show ?thesis
    unfolding connects_def using wf by (simp add: PruneUnchangedRows_def awf_filter)
qed

lemma NewDocChangeSet_entries:
  assumes "row_history cols cm T cs" and "NewDocChangeSet cs = Inr s" and "(tb, t) \<in> set (dcs_Changes s)"
  shows "tcs_Columns t = cols tb" and "tcs_ColumnMap t = cm tb" and "connects t (T tb) (rows_after T cs tb)"
    and "tcs_Changes t \<noteq> []" and "\<forall>d\<in>snd ` set (tcs_Changes t). rd_Old d \<noteq> rd_New d"
proof -
  from assms(2) have s: "s = PruneUnchangedTables \<lparr>dcs_Changes = table_log cs\<rparr>"
    by (auto simp: NewDocChangeSet_eq split: if_splits)
  with assms(3) obtain t0 where t0: "(tb, t0) \<in> set (table_log cs)" "t = PruneUnchangedRows t0"
    and ne: "tcs_Changes t \<noteq> []"
    by (auto simp: PruneUnchangedTables_def)
  have "map_of (table_log cs) tb = Some t0"
    using t0(1) table_sets.log_map_awf by (simp add: awf_lookup_iff)
  note e = table_entry[OF assms(1) this]
  show "tcs_Columns t = cols tb" "tcs_ColumnMap t = cm tb"
    using e(1,2) t0(2) by (simp_all add: PruneUnchangedRows_def)
  show "connects t (T tb) (rows_after T cs tb)" using connects_prune[OF e(3)] t0(2) by simp
  show "tcs_Changes t \<noteq> []" by (rule ne)
  show "\<forall>d\<in>snd ` set (tcs_Changes t). rd_Old d \<noteq> rd_New d"
    using t0(2) by (auto simp: PruneUnchangedRows_def)
qed

lemma NewDocChangeSet_absent:
  assumes h: "row_history cols cm T cs" and s: "NewDocChangeSet cs = Inr s"
    and absent: "\<forall>t. (tb, t) \<notin> set (dcs_Changes s)"
  shows "T tb = rows_after T cs tb"
proof (cases "map_of (table_log cs) tb")
  case None
  then have "for_key trc_TableName tb cs = []" using table_sets.log_map_None[of cs tb] by simp
  then show ?thesis by (simp add: rows_after_eq fun_eq_iff)
next
  case (Some t0)
  from s have s': "s = PruneUnchangedTables \<lparr>dcs_Changes = table_log cs\<rparr>"
    by (auto simp: NewDocChangeSet_eq split: if_splits)
  have "(tb, t0) \<in> set (table_log cs)" using Some by (rule map_of_SomeD)
  then have empty: "tcs_Changes (PruneUnchangedRows t0) = []"
    using absent unfolding s' PruneUnchangedTables_def by force
  have "connects (PruneUnchangedRows t0) (T tb) (rows_after T cs tb)"
    by (rule connects_prune[OF table_entry(3)[OF h Some]])
  from connects_None[OF this] empty show ?thesis by auto
qed

subsection \<open>Attributes\<close>

text \<open>The positions of the columns that feed an attribute.\<close>

definition attr_columns :: "string list \<Rightarrow> column_map \<Rightarrow> string \<Rightarrow> nat list" where
  "attr_columns cols cm a = filter (\<lambda>j. a \<in> set (mapped_attrs cm (cols ! j))) [0..<length cols]"

lemma attr_not_reported:
  "a \<notin> attrs_of_columns cm names \<Longrightarrow>
   \<forall>j\<in>set (attr_columns cols cm a). j < length cols \<and> cols ! j \<notin> set names"
  by (auto simp: attr_columns_def attrs_of_columns_def)

lemma attrs_fold:
  assumes "foldR (\<lambda>attrs tcs. bindR (ChangedColumnNames E tcs) (\<lambda>cols.
             Inr (attrs \<union> attrs_of_columns (tcs_ColumnMap tcs) cols))) attrs0 ts = Inr attrs"
    and "t \<in> set ts"
  shows "\<exists>names. ChangedColumnNames E t = Inr names \<and> attrs_of_columns (tcs_ColumnMap t) names \<subseteq> attrs"
proof -
  have grow: "A \<subseteq> attrs" if
    "foldR (\<lambda>attrs tcs. bindR (ChangedColumnNames E tcs) (\<lambda>cols.
       Inr (attrs \<union> attrs_of_columns (tcs_ColumnMap tcs) cols))) A ts = Inr attrs" for A ts
    using that by (rule foldR_invariant) (auto simp: result_simps)
  show ?thesis using assms
  proof (induction ts arbitrary: attrs0)
    case (Cons t' ts)
    then obtain names where n: "ChangedColumnNames E t' = Inr names"
      and rest: "foldR (\<lambda>attrs tcs. bindR (ChangedColumnNames E tcs) (\<lambda>cols.
         Inr (attrs \<union> attrs_of_columns (tcs_ColumnMap tcs) cols)))
         (attrs0 \<union> attrs_of_columns (tcs_ColumnMap t') names) ts = Inr attrs"
      by (auto simp: result_simps)
    with Cons grow[OF rest] show ?case by (cases "t = t'") auto
  qed simp
qed

lemma ChangedAttrs_table_sound:
  assumes h: "row_history cols cm T cs" and attrs: "ChangedAttrs E cs = Inr attrs" and a: "a \<notin> attrs"
  shows "column_values E (attr_columns (cols tb) (cm tb) a) (T tb) =
         column_values E (attr_columns (cols tb) (cm tb) a) (rows_after T cs tb)"
proof -
  from attrs obtain s where s: "NewDocChangeSet cs = Inr s"
    and fold: "foldR (\<lambda>attrs tcs. bindR (ChangedColumnNames E tcs) (\<lambda>cols.
       Inr (attrs \<union> attrs_of_columns (tcs_ColumnMap tcs) cols))) {} (map snd (dcs_Changes s)) = Inr attrs"
    by (auto simp: ChangedAttrs_def result_simps)
  show ?thesis
  proof (cases "\<exists>t. (tb, t) \<in> set (dcs_Changes s)")
    case False
    then show ?thesis using NewDocChangeSet_absent[OF h s] by simp
  next
    case True
    then obtain t where t: "(tb, t) \<in> set (dcs_Changes s)" by blast
    then have "t \<in> set (map snd (dcs_Changes s))" by force
    from attrs_fold[OF fold this] obtain names
      where names: "ChangedColumnNames E t = Inr names" "attrs_of_columns (tcs_ColumnMap t) names \<subseteq> attrs"
      by blast
    note e = NewDocChangeSet_entries[OF h s t]
    have "a \<notin> attrs_of_columns (cm tb) names" using names(2) a e(2) by auto
    then show ?thesis
      using ChangedColumnNames_sound[OF e(3) names(1)] attr_not_reported[of a "cm tb" names "cols tb"] e(1)
      by simp
  qed
qed

lemma NewDocChangeSet_noop:
  assumes h: "row_history cols cm T cs" and s: "NewDocChangeSet cs = Inr s"
    and same: "rows_after T cs = T"
  shows "dcs_Changes s = []"
proof (rule ccontr)
  assume "dcs_Changes s \<noteq> []"
  then obtain tb t where t: "(tb, t) \<in> set (dcs_Changes s)" by (cases "dcs_Changes s") auto
  note e = NewDocChangeSet_entries[OF h s t]
  then obtain d where d: "d \<in> snd ` set (tcs_Changes t)" by (cases "tcs_Changes t") auto
  then obtain pk where "diff_connects (length (tcs_Columns t)) (T tb pk) (rows_after T cs tb pk) d"
    using connects_diff[OF e(3)] by blast
  with d e(5) same show False by (auto simp: diff_connects_def)
qed

subsection \<open>When the detection does not panic\<close>

definition hashable_row :: "go_env \<Rightarrow> row \<Rightarrow> bool" where
  "hashable_row E r \<longleftrightarrow> length r \<le> 128 \<and> (\<forall>v\<in>set r. key_ok (hashable E v))"

lemma collect_row_ok: "hashable_row E r \<Longrightarrow> \<exists>s'. collect_row E cond r s = Inr s'"
  by (auto simp: collect_row_def hashable_row_def rowToArray_def set_Add_def list_all_iff)

lemma foldR_total:
  "(\<And>s x. x \<in> set xs \<Longrightarrow> \<exists>s'. f s x = Inr s') \<Longrightarrow> \<exists>s'. foldR f s xs = Inr s'"
proof (induction xs arbitrary: s)
  case (Cons x xs)
  then obtain s' where "f s x = Inr s'" by force
  with Cons show ?case by simp
qed simp

lemma diff_columns_ok:
  "length old = length cols \<Longrightarrow> length new = length cols \<Longrightarrow> \<exists>r. diff_columns cols old new = Inr r"
  by (induction cols old new rule: diff_columns.induct) auto

lemma ChangedColumnNames_ok:
  assumes "\<forall>d\<in>snd ` set (tcs_Changes t). hashable_row E (rd_Old d) \<and> hashable_row E (rd_New d) \<and>
     length (rd_Old d) = length (tcs_Columns t) \<and> length (rd_New d) = length (tcs_Columns t)"
  shows "\<exists>names. ChangedColumnNames E t = Inr names"
proof -
  let ?ds = "map snd (tcs_Changes t)"
  have "\<exists>ba. foldR (collect_diff E) ({}, {}) ?ds = Inr ba"
  proof (rule foldR_total)
    fix s d assume "d \<in> set ?ds"
    then have "hashable_row E (rd_Old d)" "hashable_row E (rd_New d)" using assms by auto
    then obtain b a where "collect_row E (rd_IsDelete d \<or> rd_IsUpdate d) (rd_Old d) (fst s) = Inr b"
      and "collect_row E (rd_IsInsert d \<or> rd_IsUpdate d) (rd_New d) (snd s) = Inr a"
      using collect_row_ok by metis
    then show "\<exists>s'. collect_diff E s d = Inr s'" by (simp add: collect_diff_def)
  qed
  moreover have "\<exists>names. foldR (\<lambda>columnSet d.
      bindR (diff_columns (tcs_Columns t) (rd_Old d) (rd_New d)) (\<lambda>r.
      Inr (add_columns columnSet r))) [] ?ds = Inr names"
  proof (rule foldR_total)
    fix s d assume "d \<in> set ?ds"
    then obtain r where "diff_columns (tcs_Columns t) (rd_Old d) (rd_New d) = Inr r"
      using assms diff_columns_ok[of "rd_Old d" "tcs_Columns t" "rd_New d"] by auto
    then show "\<exists>s'. bindR (diff_columns (tcs_Columns t) (rd_Old d) (rd_New d)) (\<lambda>r.
      Inr (add_columns s r)) = Inr s'" by simp
  qed
  ultimately show ?thesis unfolding ChangedColumnNames_def Let_def by fastforce
qed

lemma NewDocChangeSet_rows:
  assumes "\<forall>c\<in>set cs. known_action c" and "NewDocChangeSet cs = Inr s"
    and "(tb, t) \<in> set (dcs_Changes s)" and "d \<in> snd ` set (tcs_Changes t)"
  shows "(\<exists>c\<in>set cs. trc_TableName c = tb \<and> rd_Old d = trc_OldRow c) \<and>
         (\<exists>c\<in>set cs. trc_TableName c = tb \<and> rd_New d = trc_NewRow c)"
proof -
  from assms(2) have s: "s = PruneUnchangedTables \<lparr>dcs_Changes = table_log cs\<rparr>"
    by (auto simp: NewDocChangeSet_eq split: if_splits)
  with assms(3) obtain t0 where t0: "(tb, t0) \<in> set (table_log cs)" "t = PruneUnchangedRows t0"
    by (auto simp: PruneUnchangedTables_def)
  then have "map_of (table_log cs) tb = Some t0"
    using table_sets.log_map_awf by (simp add: awf_lookup_iff)
  then have log: "tcs_Changes t0 = row_log (for_key trc_TableName tb cs)"
    using table_sets.log_map_Some[of cs tb t0] by (simp add: table_describes_def)
  from assms(4) t0(2) obtain pk where "(pk, d) \<in> set (tcs_Changes t0)"
    by (auto simp: PruneUnchangedRows_def)
  then have "map_of (row_log (for_key trc_TableName tb cs)) pk = Some d"
    using row_diffs.log_map_awf by (simp add: awf_lookup_iff log)
  moreover have "\<forall>c\<in>set (for_key trc_TableName tb cs). known_action c" using assms(1) by simp
  ultimately have ne: "changes_of tb pk cs \<noteq> []" and "diff_describes (changes_of tb pk cs) d"
    using row_diffs.log_map_Some by blast+
  moreover have "hd (changes_of tb pk cs) \<in> set (changes_of tb pk cs)"
    and "last (changes_of tb pk cs) \<in> set (changes_of tb pk cs)"
    using hd_in_set[OF ne] last_in_set[OF ne] by blast+
  ultimately show ?thesis by (auto simp: diff_describes_def)
qed

lemma ChangedAttrs_idle:
  assumes "row_history cols cm T cs" and "\<forall>c\<in>set cs. keyed c" and "rows_after T cs = T"
  shows "ChangedAttrs E cs = Inr {}"
proof -
  obtain s where s: "NewDocChangeSet cs = Inr s" using assms(2) by (simp add: NewDocChangeSet_eq)
  with NewDocChangeSet_noop[OF assms(1) s assms(3)] show ?thesis by (simp add: ChangedAttrs_def)
qed

lemma ChangedAttrs_total:
  assumes h: "row_history cols cm T cs"
    and ok: "\<forall>c\<in>set cs. keyed c \<and> hashable_row E (trc_OldRow c) \<and> hashable_row E (trc_NewRow c)"
  shows "\<exists>attrs. ChangedAttrs E cs = Inr attrs"
proof -
  obtain s where s: "NewDocChangeSet cs = Inr s" using ok by (simp add: NewDocChangeSet_eq)
  have known: "\<forall>c\<in>set cs. known_action c"
    using history_shape[OF h] by (auto simp: change_shape_def Let_def)
  have "\<exists>attrs. foldR (\<lambda>attrs tcs. bindR (ChangedColumnNames E tcs) (\<lambda>cols.
      Inr (attrs \<union> attrs_of_columns (tcs_ColumnMap tcs) cols))) {} (map snd (dcs_Changes s)) = Inr attrs"
  proof (rule foldR_total)
    fix A t assume "t \<in> set (map snd (dcs_Changes s))"
    then obtain tb where t: "(tb, t) \<in> set (dcs_Changes s)" by auto
    have "hashable_row E (rd_Old d) \<and> hashable_row E (rd_New d) \<and>
        length (rd_Old d) = length (tcs_Columns t) \<and> length (rd_New d) = length (tcs_Columns t)"
      if d: "d \<in> snd ` set (tcs_Changes t)" for d
      using NewDocChangeSet_rows[OF known s t d] ok connects_diff[OF NewDocChangeSet_entries(3)[OF h s t] d]
      by (metis diff_connects_def)
    then obtain names where "ChangedColumnNames E t = Inr names"
      using ChangedColumnNames_ok by blast
    then show "\<exists>s'. bindR (ChangedColumnNames E t) (\<lambda>cols.
        Inr (A \<union> attrs_of_columns (tcs_ColumnMap t) cols)) = Inr s'" by simp
  qed
  then show ?thesis by (simp add: ChangedAttrs_def s)
qed

subsection \<open>Properties\<close>

definition sample_change :: TableRowChange where
  "sample_change =
     \<lparr>trc_Action = UpdateAction, trc_Columns = [''a1'', ''t1''],
      trc_ColumnMap = [(''a1'', [''attr1'']), (''t1'', [''field1''])],
      trc_DocID = 1, trc_EventID = 0, trc_Index = ''i'',
      trc_OldRow = [GInt32 1, GString ''x''], trc_NewRow = [GInt32 2, GString ''x''],
      trc_PK = PrimaryKey 1 (GInt32 1 # replicate 15 GNil),
      trc_TableName = ''db.t'', trc_TS = 0\<rparr>"

definition sample_rows :: doc_rows where
  "sample_rows = (\<lambda>_ _. [GInt32 1, GString ''x''])"

lemma sample_history:
  "row_history (\<lambda>_. trc_Columns sample_change) (\<lambda>_. trc_ColumnMap sample_change) sample_rows [sample_change]"
  by (simp add: sample_change_def sample_rows_def change_fits_def known_action_def Let_def)

lemma sample_attrs: "ChangedAttrs plain_env [sample_change] = Inr {''attr1''}"
  by code_simp

text \<open>
  C7. Change detection is sound: take any history of a document's rows and an attribute that
  \<open>ChangedAttrs\<close> does not report. Then, in every table, the columns that feed the attribute hold
  the same set of (non-NULL) value tuples after the recorded changes as before them, so the
  attribute of the indexed document cannot have changed through them.
\<close>

theorem ChangedAttrs_sound:
  assumes "row_history cols cm T cs" and "ChangedAttrs E cs = Inr attrs" and "a \<notin> attrs"
  shows "column_values E (attr_columns (cols tb) (cm tb) a) (T tb) =
         column_values E (attr_columns (cols tb) (cm tb) a) (rows_after T cs tb)"
  using assms by (rule ChangedAttrs_table_sound)

theorem ChangedAttrs_sound_witness:
  "column_values plain_env [Suc 0] (sample_rows ''db.t'') =
   column_values plain_env [Suc 0] (rows_after sample_rows [sample_change] ''db.t'')"
proof -
  have "attr_columns (trc_Columns sample_change) (trc_ColumnMap sample_change) ''field1'' = [Suc 0]"
    by code_simp
  with ChangedAttrs_sound[OF sample_history sample_attrs, of "''field1''" "''db.t''"] show ?thesis
    by simp
qed

text \<open>
  C23. No false alarm for changes that cancel out: when the recorded changes lead every row back
  to where it started (an insert that is deleted again, an update that is undone), no attribute
  is reported, so no query is sent for the document.
\<close>

theorem ChangedAttrs_noop:
  assumes "row_history cols cm T cs" and "\<forall>c\<in>set cs. keyed c" and "rows_after T cs = T"
  shows "ChangedAttrs E cs = Inr {}"
  using assms by (rule ChangedAttrs_idle)

theorem ChangedAttrs_noop_witness:
  "ChangedAttrs plain_env
     [sample_change, sample_change\<lparr>trc_OldRow := [GInt32 2, GString ''x''],
        trc_NewRow := [GInt32 1, GString ''x'']\<rparr>] = Inr {}"
proof (rule ChangedAttrs_noop[of "\<lambda>_. trc_Columns sample_change" "\<lambda>_. trc_ColumnMap sample_change" sample_rows])
qed (auto simp: sample_change_def sample_rows_def change_fits_def known_action_def apply_change_def
    keyed_def list_all_iff rows_after_def fun_eq_iff)

text \<open>
  C38. Change detection does not panic on a history whose rows fit the 128-element key array and
  whose primary keys and (converted) values are hashable.
\<close>

theorem ChangedAttrs_returns:
  assumes "row_history cols cm T cs"
    and "\<forall>c\<in>set cs. keyed c \<and> hashable_row E (trc_OldRow c) \<and> hashable_row E (trc_NewRow c)"
  shows "\<exists>attrs. ChangedAttrs E cs = Inr attrs"
  using assms by (rule ChangedAttrs_total)

theorem ChangedAttrs_returns_witness: "\<exists>attrs. ChangedAttrs plain_env [sample_change] = Inr attrs"
  by (rule ChangedAttrs_returns[OF sample_history])
    (simp add: sample_change_def keyed_def list_all_iff hashable_row_def)

text \<open>
  What the fold keeps: for every table and primary key touched by the change list, the row
  diff goes from the old row of the first change to the new row of the last one, it is an insert
  only if the first change was one, and a delete only if the last change was one.
\<close>

theorem row_diff_of_changes:
  assumes "\<forall>c\<in>set cs. known_action c"
    and "foldR DocChangeSet_ApplyChange \<lparr>dcs_Changes = []\<rparr> cs = Inr s"
    and "map_of (dcs_Changes s) tb = Some t" and "map_of (tcs_Changes t) pk = Some d"
  shows "rd_Old d = trc_OldRow (hd (changes_of tb pk cs)) \<and>
         rd_New d = trc_NewRow (last (changes_of tb pk cs)) \<and>
         (rd_IsInsert d \<longrightarrow> trc_Action (hd (changes_of tb pk cs)) = InsertAction) \<and>
         (rd_IsDelete d \<longrightarrow> trc_Action (last (changes_of tb pk cs)) = DeleteAction) \<and>
         (rd_IsInsert d \<or> rd_IsUpdate d \<or> rd_IsDelete d)"
proof -
  have "dcs_Changes s = table_log cs" using assms(2) by (auto simp: fold_DocChangeSet split: if_splits)
  then have "tcs_Changes t = row_log (for_key trc_TableName tb cs)"
    using table_sets.log_map_Some[of cs tb t] assms(3) by (simp add: table_describes_def)
  then have "diff_describes (changes_of tb pk cs) d"
    using row_diffs.log_map_Some[of "for_key trc_TableName tb cs" pk d] assms(1,4) by simp
  then show ?thesis by (simp add: diff_describes_def)
qed

theorem row_diff_of_changes_witness:
  "rd_New (first_diff sample_change) = [GInt32 2, GString ''x'']"
proof -
  have f: "foldR DocChangeSet_ApplyChange \<lparr>dcs_Changes = []\<rparr> [sample_change] =
      Inr \<lparr>dcs_Changes = [(''db.t'', add_row_change (new_table sample_change) sample_change)]\<rparr>"
    by code_simp
  have t: "map_of (tcs_Changes (add_row_change (new_table sample_change) sample_change))
      (trc_PK sample_change) = Some (first_diff sample_change)"
    by (simp add: add_row_change_def new_table_def upsert_def)
  have k: "\<forall>c\<in>set [sample_change]. known_action c" by (simp add: sample_change_def known_action_def)
  show ?thesis
    using row_diff_of_changes[OF k f _ t, of "''db.t''"] by (simp add: sample_change_def)
qed

text \<open>
  A document column that holds a JSON object (or a list that gob cannot encode) brings the
  detection down: the inserted row cannot be an array key, and adding it to the set panics. The
  panic is raised in the sync goroutine, outside any error handling.
\<close>

theorem ChangedAttrs_unhashable_panics:
  assumes "trc_Action c = InsertAction" and "keyed c"
    and "trc_OldRow c = replicate (length (trc_NewRow c)) GNil" and "length (trc_NewRow c) \<le> 128"
    and "v \<in> set (trc_NewRow c)" and "\<not> key_ok (hashable E v)"
  shows "ChangedAttrs E [c] = Inl (Panics UnhashableKey)"
proof -
  have "v \<noteq> GNil" using assms(6) by auto
  then have ne: "trc_OldRow c \<noteq> trc_NewRow c" using assms(3,5) by (metis in_set_replicate)
  obtain a where a: "rowToArray E (trc_NewRow c) = Inr a" "hashable E v \<in> set a"
    using assms(4,5) by (auto simp: rowToArray_def)
  then have "\<not> list_all key_ok a" using assms(6) by (auto simp: list_all_iff)
  with a(1) have "collect_diff E ({}, {}) (first_diff c) = Inl (Panics UnhashableKey)"
    using assms(1) by (simp add: collect_diff_def collect_row_def first_diff_def set_Add_def)
  then show ?thesis
    using assms(2) ne
    by (simp add: ChangedAttrs_def NewDocChangeSet_eq upsert_def add_row_change_def new_table_def
        PruneUnchangedTables_def PruneUnchangedRows_def first_diff_def ChangedColumnNames_def Let_def)
qed

theorem ChangedAttrs_unhashable_panics_witness:
  "ChangedAttrs plain_env [sample_change\<lparr>trc_Action := InsertAction,
      trc_OldRow := [GNil, GNil], trc_NewRow := [GInt32 1, GMap [(''k'', GNil)]]\<rparr>]
   = Inl (Panics UnhashableKey)"
  by (rule ChangedAttrs_unhashable_panics[where v = "GMap [(''k'', GNil)]"])
    (simp_all add: sample_change_def keyed_def list_all_iff)

end
