(* ===== verification/Sphinx_Correct.thy ===== *)
theory Sphinx_Correct
  imports Sphinx
begin

text \<open>
  The connection's retry logic is bounded and what it leaves behind, the maintenance requests
  stop at the first failing part, and the synchronization state survives being written into a
  statement and read back from the backends.
\<close>

subsection \<open>Retries\<close>

lemma wait_and_count_simps [simp]:
  "conn_attempts (wait_and_count S pause c) = conn_attempts c + 1"
  "conn_maxRetries (wait_and_count S pause c) = conn_maxRetries c"
  "conn_addr (wait_and_count S pause c) = conn_addr c"
  by (simp_all add: wait_and_count_def)

text \<open>One turn of the loop.\<close>

abbreviation redialled :: "'b sph_env \<Rightarrow> int \<Rightarrow> 'b SphConn \<Rightarrow> 'b SphConn \<times> unit result" where
  "redialled S pause c \<equiv> reconnect S (wait_and_count S pause c)"

lemma retry_loop_stop:
  "snd (redialled S pause c) = Inr u \<or> conn_maxRetries c \<le> conn_attempts c \<Longrightarrow>
   retry_loop S pause c = redialled S pause c"
  by (simp add: retry_loop.simps[of S pause c] Let_def split: sum.splits) auto

lemma retry_loop_again:
  "snd (redialled S pause c) = Inl e \<Longrightarrow> conn_attempts c < conn_maxRetries c \<Longrightarrow>
   retry_loop S pause c = retry_loop S pause (fst (redialled S pause c))"
  by (simp add: retry_loop.simps[of S pause c] Let_def)

lemma retry_loop_cases [case_names stop again]:
  assumes "retry_loop S pause c = redialled S pause c \<Longrightarrow>
      (\<And>e. snd (redialled S pause c) = Inl e \<Longrightarrow> conn_maxRetries c \<le> conn_attempts c) \<Longrightarrow> P"
    and "\<And>e. snd (redialled S pause c) = Inl e \<Longrightarrow> conn_attempts c < conn_maxRetries c \<Longrightarrow>
      retry_loop S pause c = retry_loop S pause (fst (redialled S pause c)) \<Longrightarrow> P"
  shows P
proof (cases "snd (redialled S pause c)")
  case (Inl e)
  then show ?thesis using assms retry_loop_stop[of S pause c] retry_loop_again[OF Inl]
    by (cases "conn_maxRetries c \<le> conn_attempts c") auto
next
  case (Inr u)
  then show ?thesis using assms(1) retry_loop_stop[of S pause c u] by simp
qed

lemma retry_loop_induct [case_names stop again]:
  assumes "\<And>c. retry_loop S pause c = redialled S pause c \<Longrightarrow>
      (\<And>e. snd (redialled S pause c) = Inl e \<Longrightarrow> conn_maxRetries c \<le> conn_attempts c) \<Longrightarrow> P c"
    and "\<And>c e. snd (redialled S pause c) = Inl e \<Longrightarrow> conn_attempts c < conn_maxRetries c \<Longrightarrow>
      retry_loop S pause c = retry_loop S pause (fst (redialled S pause c)) \<Longrightarrow>
      P (fst (redialled S pause c)) \<Longrightarrow> P c"
  shows "P c"
proof (induction "nat (conn_maxRetries c + 1 - conn_attempts c)" arbitrary: c rule: less_induct)
  case less
  show ?case
  proof (cases rule: retry_loop_cases[of S pause c])
    case stop
    then show ?thesis by (rule assms(1))
  next
    case (again e)
    then have "P (fst (redialled S pause c))" by (intro less) auto
    with again show ?thesis by (rule assms(2))
  qed
qed

lemma retry_loop_frame:
  "conn_maxRetries (fst (retry_loop S pause c)) = conn_maxRetries c \<and>
   conn_addr (fst (retry_loop S pause c)) = conn_addr c"
  by (induction c rule: retry_loop_induct[of S pause]) simp_all

text \<open>A loop that gives up has counted past the limit, so that nothing is retried afterwards.\<close>

lemma retry_loop_gives_up:
  "snd (retry_loop S pause c) = Inl e \<Longrightarrow>
   conn_attempts (fst (retry_loop S pause c)) > conn_maxRetries c"
proof (induction c rule: retry_loop_induct[of S pause])
  case (stop c)
  then have "conn_maxRetries c \<le> conn_attempts c" by (metis)
  with stop(1) show ?case by simp
qed simp

text \<open>The operations on the network, recorded around any backend.\<close>

datatype net_op = Exec string | Close | Dial string | Sleep int

definition recorded :: "'b sph_env \<Rightarrow> ('b \<times> net_op list) sph_env" where
  "recorded S =
     \<lparr>se_execute = (\<lambda>stmt b. let r = se_execute S stmt (fst b) in ((fst r, snd b @ [Exec stmt]), snd r)),
      se_close = (\<lambda>b. let r = se_close S (fst b) in ((fst r, snd b @ [Close]), snd r)),
      se_connect = (\<lambda>a b. let r = se_connect S a (fst b) in ((fst r, snd b @ [Dial a]), snd r)),
      se_sleep = (\<lambda>n b. (se_sleep S n (fst b), snd b @ [Sleep n])),
      se_is_bad_conn = se_is_bad_conn S, se_error_text = se_error_text S,
      se_remote_addr = (\<lambda>b. se_remote_addr S (fst b))\<rparr>"

abbreviation ops :: "('b \<times> net_op list) SphConn \<Rightarrow> net_op list" where
  "ops c \<equiv> snd (conn_backend c)"

definition redial :: "string \<Rightarrow> int \<Rightarrow> nat \<Rightarrow> net_op list" where
  "redial addr pause n = concat (replicate n [Sleep pause, Dial addr])"

lemma retry_loop_ops:
  assumes "SplitHostPort (conn_addr c) = Inr hp" and "conn_attempts c \<le> conn_maxRetries c"
  shows "\<exists>n. ops (fst (retry_loop (recorded S) pause c)) = ops c @ redial (conn_addr c) pause n \<and>
     0 < n \<and> int n \<le> conn_maxRetries c + 1 - conn_attempts c"
  using assms
proof (induction c rule: retry_loop_induct[of "recorded S" pause])
  case (stop c)
  then have "ops (fst (redialled (recorded S) pause c)) = ops c @ [Sleep pause, Dial (conn_addr c)]"
    by (auto simp: reconnect_def wait_and_count_def recorded_def Let_def split: option.splits)
  with stop show ?case by (intro exI[of _ 1]) (simp add: redial_def)
next
  case (again c e)
  let ?d = "fst (redialled (recorded S) pause c)"
  have ops: "ops ?d = ops c @ [Sleep pause, Dial (conn_addr c)]"
    using again(5) by (auto simp: reconnect_def wait_and_count_def recorded_def Let_def split: option.splits)
  obtain n where "ops (fst (retry_loop (recorded S) pause ?d)) = ops ?d @ redial (conn_addr ?d) pause n"
      "0 < n" "int n \<le> conn_maxRetries ?d + 1 - conn_attempts ?d"
    using again by auto
  then show ?case
    using ops again(3) by (intro exI[of _ "Suc n"]) (simp add: redial_def)
qed

lemma execute_ops_lemma:
  assumes host: "SplitHostPort (conn_addr c) = Inr hp" and att: "conn_attempts c \<le> conn_maxRetries c"
  shows "\<exists>pause n. int n \<le> conn_maxRetries c + 1 - conn_attempts c \<and>
     ops (fst (execute (recorded S) stmt c)) \<in>
       {ops c @ [Exec stmt],
        ops c @ [Exec stmt, Close] @ redial (conn_addr c) pause n,
        ops c @ [Exec stmt, Close] @ redial (conn_addr c) pause n @ [Exec stmt]}"
proof -
  let ?x = "se_execute (recorded S) stmt (conn_backend c)"
  let ?c = "c\<lparr>conn_backend := fst ?x\<rparr>"
  have x: "ops ?c = ops c @ [Exec stmt]" by (simp add: recorded_def Let_def)
  have zero: "\<exists>n::nat. int n \<le> conn_maxRetries c + 1 - conn_attempts c"
    using att by (intro exI[of _ 0]) simp
  show ?thesis
  proof (cases "\<exists>err. snd ?x = Inl (Fails err) \<and> fst (canRetry (recorded S) ?c err)")
    case False
    then have "ops (fst (execute (recorded S) stmt c)) = ops c @ [Exec stmt]"
      using x by (auto simp: execute_def Let_def split: sum.splits fault.splits)
    with zero show ?thesis by auto
  next
    case True
    then obtain err where err: "snd ?x = Inl (Fails err)" "fst (canRetry (recorded S) ?c err)" by blast
    define pause where "pause = snd (canRetry (recorded S) ?c err)"
    let ?cl = "se_close (recorded S) (conn_backend ?c)"
    let ?d = "?c\<lparr>conn_backend := fst ?cl\<rparr>"
    let ?l = "retry_loop (recorded S) pause ?d"
    have d: "ops ?d = ops c @ [Exec stmt, Close]" using x by (simp add: recorded_def Let_def)
    have "execute (recorded S) stmt c = retry (recorded S) pause stmt ?c"
      using err by (simp add: execute_def pause_def Let_def)
    also have "\<dots> = bindS (retry_loop (recorded S) pause) (\<lambda>_. resend (recorded S) stmt) ?d"
      using att by (simp add: retry_def Let_def split: option.splits)
    finally have run: "execute (recorded S) stmt c = \<dots>" .
    obtain n where n: "ops (fst ?l) = ops ?d @ redial (conn_addr ?d) pause n"
      "int n \<le> conn_maxRetries ?d + 1 - conn_attempts ?d"
      using retry_loop_ops[of ?d hp S pause] host att by auto
    have "ops (fst (execute (recorded S) stmt c)) = ops (fst ?l) \<or>
          ops (fst (execute (recorded S) stmt c)) = ops (fst ?l) @ [Exec stmt]"
      unfolding run bindS_cases by (auto simp: resend_def recorded_def Let_def split: sum.splits)
    then show ?thesis using n d by (intro exI[of _ pause] exI[of _ n]) auto
  qed
qed

subsection \<open>Giving up\<close>

lemma retry_loop_all_fail:
  assumes "\<forall>b. \<exists>e. snd (se_connect S (conn_addr c) b) = Some e"
  shows "\<exists>e. snd (retry_loop S pause c) = Inl e"
  using assms
proof (induction c rule: retry_loop_induct[of S pause])
  case (stop c)
  from stop(3) obtain e where "snd (se_connect S (conn_addr c) (se_sleep S pause (conn_backend c))) = Some e"
    by blast
  then have "\<exists>e. snd (redialled S pause c) = Inl e"
    by (simp add: reconnect_def wait_and_count_def Let_def split: sum.splits)
  then show ?case unfolding stop(1) .
qed simp

lemma canRetry_exhausted: "conn_attempts c > conn_maxRetries c \<Longrightarrow> canRetry S c err = (False, 0)"
  by (simp add: canRetry_def)

lemma execute_exhausted:
  assumes "conn_attempts c > conn_maxRetries c" and "snd (se_execute S stmt (conn_backend c)) = Inl e"
  shows "execute S stmt c = (c\<lparr>conn_backend := fst (se_execute S stmt (conn_backend c))\<rparr>, Inl e)"
  using assms by (auto simp: execute_def canRetry_exhausted Let_def split: fault.splits)

subsection \<open>Reading a saved state\<close>

text \<open>What a backend reads out of the statement that saves the state.\<close>

fun skip_prefix :: "string \<Rightarrow> string \<Rightarrow> string option" where
  "skip_prefix [] s = Some s"
| "skip_prefix (p # ps) [] = None"
| "skip_prefix (p # ps) (c # cs) = (if p = c then skip_prefix ps cs else None)"

definition bindO :: "'a option \<Rightarrow> ('a \<Rightarrow> 'c option) \<Rightarrow> 'c option" where
  "bindO m f = (case m of None \<Rightarrow> None | Some x \<Rightarrow> f x)"

definition read_state_stmt :: "string \<Rightarrow> (string \<times> 32 word \<times> string \<times> string) option" where
  "read_state_stmt s =
     bindO (skip_prefix ''REPLACE INTO sync_state (id, binlog_name, binlog_position, gtid, flavor) VALUES (1, '' s) (\<lambda>s.
     bindO (read_literal s) (\<lambda>(name, s).
     bindO (skip_prefix '', '' s) (\<lambda>s.
     let (num, s) = (takeWhile (\<lambda>c. c \<noteq> CHR '','') s, dropWhile (\<lambda>c. c \<noteq> CHR '','') s) in
     bindO (skip_prefix '', '' s) (\<lambda>s.
     bindO (read_literal s) (\<lambda>(gtid, s).
     bindO (skip_prefix '', '' s) (\<lambda>s.
     bindO (read_literal s) (\<lambda>(flavor, s).
     if s = '')'' \<and> snd (ParseUint num 32) = None
     then Some (name, ucast (fst (ParseUint num 32)), gtid, flavor) else None)))))))"

lemma skip_prefix_append [simp]: "skip_prefix p (p @ s) = Some s"
  by (induction p) simp_all

lemma read_QuoteString:
  "CHR 0x00 \<notin> set v \<Longrightarrow> read_literal (QuoteString v @ rest) = Some (v, rest)"
proof -
  assume "CHR 0x00 \<notin> set v"
  then have "filter (\<lambda>c. c \<noteq> CHR 0x00) v = v" by (intro filter_True) auto
  moreover have "CHR 0x27 # s @ [CHR 0x27] @ rest = CHR 0x27 # (s @ CHR 0x27 # rest)" for s by simp
  ultimately show ?thesis
    by (simp add: QuoteString_def Let_def read_literal_def read_body_quoted del: replace_char_simps)
qed

lemma takeWhile_dec:
  "takeWhile (\<lambda>c. c \<noteq> CHR '','') (dec n @ '', '' @ s) = dec n \<and>
   dropWhile (\<lambda>c. c \<noteq> CHR '','') (dec n @ '', '' @ s) = '', '' @ s"
proof -
  have "\<forall>c\<in>set (dec n). c \<noteq> CHR '',''" using not_in_dec[of "CHR '',''" n] by (auto simp: digit_val_def)
  then show ?thesis by (simp add: takeWhile_append dropWhile_append)
qed

lemma read_state_stmt_ok:
  assumes "CHR 0x00 \<notin> set (pos_Name p)" and "CHR 0x00 \<notin> set gtid" and "CHR 0x00 \<notin> set flavor"
  shows "read_state_stmt (sync_state_stmt p gtid flavor) = Some (pos_Name p, pos_Pos p, gtid, flavor)"
proof -
  have num: "ParseUint (dec (unat (pos_Pos p))) 32 = (of_nat (unat (pos_Pos p)), None)"
    using unsigned_less[of "pos_Pos p"] by (intro ParseUint_dec) simp_all
  have w: "(ucast (of_nat (unat (pos_Pos p)) :: 64 word) :: 32 word) = pos_Pos p"
    by (rule bit_word_eqI) (auto simp: bit_word_ucast_iff)
  show ?thesis
    unfolding read_state_stmt_def sync_state_stmt_def bindO_def
    by (simp only: skip_prefix_append option.case read_QuoteString[OF assms(1)] prod.case
        takeWhile_dec[THEN conjunct1] takeWhile_dec[THEN conjunct2] Let_def num w
        read_QuoteString[OF assms(2)] read_QuoteString[OF assms(3)] fst_conv snd_conv) simp
qed

subsection \<open>Loading from all backends\<close>

definition saved_state :: "'b sph_env \<Rightarrow> 'g gtid_env \<Rightarrow> 'b SphConn \<Rightarrow> 'g SyncState option result" where
  "saved_state S G c = bindR (snd (loadPosition S c)) (newSyncState G)"

lemma decode_states_Inr:
  "decode_states G rs acc = Inr sts \<longleftrightarrow>
   (\<exists>ts. sts = acc @ ts \<and> list_all2 (\<lambda>r st. bindR r (newSyncState G) = Inr st) rs ts)"
proof (induction G rs acc rule: decode_states.induct)
  case (3 G res rs acc)
  then show ?case
    by (auto simp: list_all2_Cons1 split: sum.splits fault.splits)
qed (auto simp: list_all2_Cons1)

lemma compare_states_Inr:
  "compare_states G i prev sts = Inr st \<longleftrightarrow> (\<forall>x\<in>set sts. x = prev) \<and> st = prev"
  by (induction sts arbitrary: i prev) auto

lemma decode_states_not_Some: "decode_states G rs acc \<noteq> Inl (Inr (Some st))"
  by (induction G rs acc rule: decode_states.induct) (auto split: sum.splits fault.splits)

lemma LoadSyncState_Some_iff:
  "snd (LoadSyncState S G sph) = Inr (Some st) \<longleftrightarrow>
   sph \<noteq> [] \<and> (\<forall>c\<in>set sph. saved_state S G c = Inr (Some st))"
proof -
  let ?rs = "map (\<lambda>c. snd (loadPosition S c)) sph"
  have all2: "list_all2 (\<lambda>r t. bindR r (newSyncState G) = Inr t) ?rs (replicate (length sph) (Some st)) \<longleftrightarrow>
      (\<forall>c\<in>set sph. saved_state S G c = Inr (Some st))"
    by (induction sph) (auto simp: saved_state_def)
  show ?thesis
  proof (cases "decode_states G ?rs []")
    case (Inl r)
    then have "\<not> list_all2 (\<lambda>r t. bindR r (newSyncState G) = Inr t) ?rs (replicate (length sph) (Some st))"
      using decode_states_Inr[of G ?rs "[]" "replicate (length sph) (Some st)"] by auto
    moreover have "r \<noteq> Inr (Some st)" using Inl decode_states_not_Some[of G ?rs "[]" st] by auto
    ultimately show ?thesis
      using Inl all2 by (simp add: LoadSyncState_def request_all_def Let_def)
  next
    case (Inr sts)
    then have l2: "list_all2 (\<lambda>r t. bindR r (newSyncState G) = Inr t) ?rs sts"
      by (simp add: decode_states_Inr)
    then have len: "length sts = length sph" using list_all2_lengthD by fastforce
    have same: "ts = sts" if ts: "list_all2 (\<lambda>r t. bindR r (newSyncState G) = Inr t) ?rs ts" for ts
    proof (rule nth_equalityI)
      show "length ts = length sts" using list_all2_lengthD[OF ts] list_all2_lengthD[OF l2] by simp
      fix i assume "i < length ts"
      then show "ts ! i = sts ! i" using list_all2_nthD2[OF ts] list_all2_nthD2[OF l2]
        \<open>length ts = length sts\<close> by fastforce
    qed
    have "snd (LoadSyncState S G sph) = Inr (Some st) \<longleftrightarrow> sts \<noteq> [] \<and> (\<forall>x\<in>set sts. x = Some st)"
      using Inr by (cases sts) (auto simp: LoadSyncState_def request_all_def compare_states_Inr Let_def)
    also have "\<dots> \<longleftrightarrow> sph \<noteq> [] \<and> sts = replicate (length sph) (Some st)"
      using len replicate_length_same[of sts "Some st"] by (cases "sts = []") (auto dest: arg_cong[of _ _ set])
    also have "\<dots> \<longleftrightarrow> sph \<noteq> [] \<and> (\<forall>c\<in>set sph. saved_state S G c = Inr (Some st))"
      using all2 same l2 by blast
    finally show ?thesis .
  qed
qed

subsection \<open>Samples\<close>

text \<open>A backend that cannot be reached, and one that answers every statement with one row.\<close>

definition down_env :: "unit sph_env" where
  "down_env = \<lparr>se_execute = (\<lambda>_ b. (b, Inl (Fails (ErrExternal ''bad connection'')))),
     se_close = (\<lambda>b. (b, None)), se_connect = (\<lambda>_ b. (b, Some (ErrExternal ''connection refused''))),
     se_sleep = (\<lambda>_ b. b), se_is_bad_conn = (\<lambda>e. e = ErrExternal ''bad connection''),
     se_error_text = (\<lambda>_. []), se_remote_addr = (\<lambda>_. ''h:9306'')\<rparr>"

definition up_env :: "mysql_result \<Rightarrow> unit sph_env" where
  "up_env res = down_env\<lparr>se_execute := (\<lambda>_ b. (b, Inr res))\<rparr>"

definition sample_conn :: "'b \<Rightarrow> 'b SphConn" where
  "sample_conn b = \<lparr>conn_addr = ''h:9306'', conn_hostname = ''h'', conn_DisconnectRetryDelay = 7,
     conn_OverloadRetryDelay = 9, conn_maxRetries = 5, conn_attempts = 0, conn_backend = b\<rparr>"

definition text_gtid :: "string gtid_env" where
  "text_gtid = \<lparr>ge_String = (\<lambda>g. g), ge_Contain = (=), ge_Parse = (\<lambda>_ s. Inr (Some s)),
     ge_Json = (\<lambda>_. []), ge_Compare = (\<lambda>p q. if p = q then 0 else 1)\<rparr>"

lemma sample_addr: "SplitHostPort ''h:9306'' = Inr (''h'', ''9306'')"
  by code_simp

subsection \<open>Properties\<close>



text \<open>
  After giving up there is no way back: when a retriable statement cannot reconnect, the
  attempt counter is left above its limit, and from then on a failing statement is reported as it
  is: the connection object, which was closed, is never dialled again. (Only a successful statement resets the
  counter, and none can succeed on a closed connection.)
\<close>

theorem execute_gives_up:
  assumes "snd (se_execute S stmt (conn_backend c)) = Inl (Fails err)"
    and "fst (canRetry S (c\<lparr>conn_backend := fst (se_execute S stmt (conn_backend c))\<rparr>) err)"
    and "\<forall>b. \<exists>e. snd (se_connect S (conn_addr c) b) = Some e"
    and "c' = fst (execute S stmt c)"
    and "snd (se_execute S stmt' (conn_backend c')) = Inl (Fails err')"
  shows "conn_attempts c' > conn_maxRetries c' \<and>
     execute S stmt' c' = (c'\<lparr>conn_backend := fst (se_execute S stmt' (conn_backend c'))\<rparr>, Inl (Fails err'))"
proof -
  let ?c = "c\<lparr>conn_backend := fst (se_execute S stmt (conn_backend c))\<rparr>"
  define pause where "pause = snd (canRetry S ?c err)"
  let ?d = "?c\<lparr>conn_backend := fst (se_close S (conn_backend ?c))\<rparr>"
  have "\<not> conn_attempts ?d > conn_maxRetries ?d"
    using assms(2) by (auto simp: canRetry_def split: if_splits)
  then have run: "execute S stmt c = bindS (retry_loop S pause) (\<lambda>_. resend S stmt) ?d"
    using assms(1,2) by (simp add: execute_def pause_def retry_def Let_def split: option.splits)
  obtain e where e: "snd (retry_loop S pause ?d) = Inl e"
    using retry_loop_all_fail[of S ?d pause] assms(3) by auto
  then have c': "c' = fst (retry_loop S pause ?d)" using assms(4) run by (simp add: bindS_Inl)
  then have "conn_attempts c' > conn_maxRetries c'"
    using retry_loop_gives_up[OF e] retry_loop_frame[of S pause ?d] by simp
  with execute_exhausted[OF this assms(5)] show ?thesis by simp
qed

theorem execute_gives_up_witness:
  "conn_attempts (fst (execute down_env ''q'' (sample_conn ()))) > 5"
proof -
  let ?c' = "fst (execute down_env ''q'' (sample_conn ()))"
  have "conn_maxRetries ?c' = 5" by code_simp
  moreover have "snd (se_execute down_env ''r'' (conn_backend ?c')) = Inl (Fails (ErrExternal ''bad connection''))"
    by (simp add: down_env_def)
  ultimately show ?thesis
    using execute_gives_up[of down_env "''q''" "sample_conn ()" "ErrExternal ''bad connection''" ?c' "''r''"]
    by (simp add: down_env_def sample_conn_def canRetry_def)
qed

text \<open>
  Reloading an index never empties a part it cannot refill: when \<open>reloadRtIndex\<close> fails, the
  parts before the failing one were reloaded completely, the parts behind it were not touched,
  and if the failing part's plain index could not be reloaded, its real-time index was not
  truncated (the last call was the failing RELOAD).
\<close>

theorem reloadRtIndex_failure:
  assumes "reloadRtIndex S rtIndex parts c = (c', Inl e)"
  shows "\<exists>ys k zs d. chunk_numbers parts = ys @ k # zs \<and>
     runs (\<lambda>i. annotateS (chunk_message ''failed to reload'' rtIndex i)
        (reloadRtIndexChunk S (IndexChunkName rtIndex parts i)
           (IndexChunkName (PlainIndexName rtIndex) parts i))) ys c = Some d \<and>
     (\<forall>f. snd (reloadPlainIndex S (IndexChunkName (PlainIndexName rtIndex) parts k) d) = Inl f \<longrightarrow>
        c' = fst (reloadPlainIndex S (IndexChunkName (PlainIndexName rtIndex) parts k) d))"
proof -
  from eachS_Inl[OF assms[unfolded reloadRtIndex_def]] obtain ys k zs d where
    split: "chunk_numbers parts = ys @ k # zs" and
    d: "runs (\<lambda>i. annotateS (chunk_message ''failed to reload'' rtIndex i)
        (reloadRtIndexChunk S (IndexChunkName rtIndex parts i)
           (IndexChunkName (PlainIndexName rtIndex) parts i))) ys c = Some d" and
    k: "annotateS (chunk_message ''failed to reload'' rtIndex k)
        (reloadRtIndexChunk S (IndexChunkName rtIndex parts k)
           (IndexChunkName (PlainIndexName rtIndex) parts k)) d = (c', Inl e)" by blast
  have "fst (reloadRtIndexChunk S (IndexChunkName rtIndex parts k)
           (IndexChunkName (PlainIndexName rtIndex) parts k) d) = c'"
    using k by (metis annotateS_simps(1) fst_conv)
  then have "\<forall>f. snd (reloadPlainIndex S (IndexChunkName (PlainIndexName rtIndex) parts k) d) = Inl f \<longrightarrow>
        c' = fst (reloadPlainIndex S (IndexChunkName (PlainIndexName rtIndex) parts k) d)"
    by (auto simp: reloadRtIndexChunk_def bindS_Inl)
  with split d show ?thesis by blast
qed

theorem reloadRtIndex_failure_witness:
  "\<exists>ys k zs d. chunk_numbers 2 = ys @ k # zs \<and>
     runs (\<lambda>i. annotateS (chunk_message ''failed to reload'' ''x'' i)
        (reloadRtIndexChunk down_env (IndexChunkName ''x'' 2 i)
           (IndexChunkName (PlainIndexName ''x'') 2 i))) ys (sample_conn ()) = Some d \<and>
     (\<forall>f. snd (reloadPlainIndex down_env (IndexChunkName (PlainIndexName ''x'') 2 k) d) = Inl f \<longrightarrow>
        fst (reloadRtIndex down_env ''x'' 2 (sample_conn ())) =
        fst (reloadPlainIndex down_env (IndexChunkName (PlainIndexName ''x'') 2 k) d))"
proof -
  have "isl (snd (reloadRtIndex down_env ''x'' 2 (sample_conn ())))"
    by code_simp
  then obtain e where "snd (reloadRtIndex down_env ''x'' 2 (sample_conn ())) = Inl e"
    by (auto simp: isl_def)
  then have "reloadRtIndex down_env ''x'' 2 (sample_conn ()) =
      (fst (reloadRtIndex down_env ''x'' 2 (sample_conn ())), Inl e)"
    by (metis prod.collapse)
  from reloadRtIndex_failure[OF this] show ?thesis .
qed

text \<open>
  C30. The saved synchronization state survives its statement: the position, GTID text and flavor
  that a backend reads out of the REPLACE statement are those of the state, whatever characters
  they hold, provided they hold no NUL.
\<close>

theorem savePosition_roundtrip:
  assumes "ss_GTID st = Some g"
    and "CHR 0x00 \<notin> set (pos_Name (ss_Position st)) \<union> set (ge_String G g) \<union> set (ss_Flavor st)"
  shows "\<exists>stmt. savePosition S G st = execute S stmt \<and>
     read_state_stmt stmt =
       Some (pos_Name (ss_Position st), pos_Pos (ss_Position st), ge_String G g, ss_Flavor st)"
  using assms read_state_stmt_ok[of "ss_Position st" "ge_String G g" "ss_Flavor st"]
  by (auto simp: savePosition_def)

theorem savePosition_roundtrip_witness:
  "\<exists>stmt. savePosition (up_env (sample_result GNil [])) text_gtid
       \<lparr>ss_Position = \<lparr>pos_Name = ''bin'', pos_Pos = 4\<rparr>, ss_GTID = Some ''0-1-5'', ss_Flavor = ''mariadb''\<rparr>
     = execute (up_env (sample_result GNil [])) stmt \<and>
     read_state_stmt stmt = Some (''bin'', 4, ''0-1-5'', ''mariadb'')"
  using savePosition_roundtrip[of "\<lparr>ss_Position = \<lparr>pos_Name = ''bin'', pos_Pos = 4\<rparr>,
      ss_GTID = Some ''0-1-5'', ss_Flavor = ''mariadb''\<rparr>" "''0-1-5''" text_gtid
      "up_env (sample_result GNil [])"]
  by (simp add: text_gtid_def)

text \<open>
  Without a GTID (replication by file position) saving the state calls a method on a nil
  interface in the connection's goroutine: with at least one backend, the process panics.
\<close>

theorem SaveSyncState_without_gtid:
  assumes "ss_GTID st = None" and "sph \<noteq> []"
  shows "SaveSyncState S G sph st = (sph, Inl (Panics NilDereference))"
  using assms
  by (cases sph) (simp_all add: SaveSyncState_def request_all_def savePosition_def returnS_def
      first_error_def)

theorem SaveSyncState_without_gtid_witness:
  "SaveSyncState down_env text_gtid [sample_conn ()]
     \<lparr>ss_Position = \<lparr>pos_Name = ''bin'', pos_Pos = 4\<rparr>, ss_GTID = None, ss_Flavor = ''mysql''\<rparr>
   = ([sample_conn ()], Inl (Panics NilDereference))"
  by (rule SaveSyncState_without_gtid) simp_all

text \<open>
  C27. A state is loaded from the cluster exactly when every backend holds that state: there is at
  least one backend, none fails, and all saved rows decode to the same state.
\<close>

theorem LoadSyncState_agreement:
  "snd (LoadSyncState S G sph) = Inr (Some st) \<longleftrightarrow>
   sph \<noteq> [] \<and> (\<forall>c\<in>set sph. saved_state S G c = Inr (Some st))"
  by (rule LoadSyncState_Some_iff)

theorem LoadSyncState_agreement_witness:
  "snd (LoadSyncState (up_env (sample_result GNil ''s'')) text_gtid [sample_conn (), sample_conn ()]) =
     Inr (Some \<lparr>ss_Position = \<lparr>pos_Name = ''s'', pos_Pos = 1\<rparr>, ss_GTID = Some ''s'', ss_Flavor = ''s''\<rparr>)"
  unfolding LoadSyncState_agreement
  by (simp add: saved_state_def loadPosition_def bindS_cases execute_def up_env_def returnS_def
      sample_result_def newSyncState_def text_gtid_def Let_def)

text \<open>
  A saved state that cannot be decoded is not reported: if the first backend answers with a
  row whose fields or GTID do not parse, loading returns neither a state nor an error, and the
  caller goes on as if nothing had been saved.
\<close>

theorem LoadSyncState_swallows_decode_error:
  assumes "snd (loadPosition S c) = Inr res" and "newSyncState G res = Inl (Fails e)"
  shows "snd (LoadSyncState S G (c # sph)) = Inr None"
  using assms by (simp add: LoadSyncState_def request_all_def Let_def)

theorem LoadSyncState_swallows_decode_error_witness:
  "snd (LoadSyncState (up_env (sample_result GNil ''s''))
     (text_gtid\<lparr>ge_Parse := \<lambda>_ _. Inl (Fails (ErrExternal ''bad gtid''))\<rparr>) [sample_conn ()]) = Inr None"
  by (rule LoadSyncState_swallows_decode_error[of _ _ "Some (sample_result GNil ''s'')" _ "ErrExternal ''bad gtid''"])
    (simp_all add: loadPosition_def bindS_cases execute_def up_env_def returnS_def
      sample_result_def newSyncState_def text_gtid_def Let_def)

end
