(* ===== verification/Statement_Calls.thy ===== *)
theory Statement_Calls
  imports Batch
begin

text \<open>
  What can be said of the calls that send the statements of a batch without looking at the statements: a property of a
  list of statements and a call that holds of the building blocks of \<open>executeQuerySet\<close> holds of all query sets
  with their plan.
\<close>

subsection \<open>The plan of a query set\<close>

definition stmt_text :: "string result \<Rightarrow> string" where
  "stmt_text r = (case r of Inr s \<Rightarrow> s | Inl _ \<Rightarrow> [])"

definition update_stmt :: "string \<Rightarrow> updateQueryData \<Rightarrow> string" where
  "update_stmt index u = stmt_text (formatUpdateQuery index (uq_id u) (uq_fields u) (uq_values u))"

definition query_plan :: "querySet \<Rightarrow> string list" where
  "query_plan q =
     (if qs_replace q = [] then []
      else [formatReplaceQuery (qs_index q) (qs_fields q) (qs_replace q)]) @
     (if qs_delete q = [] then [] else [formatDeleteQuery (qs_index q) (qs_delete q)]) @
     map (update_stmt (qs_index q)) (qs_update q)"

subsection \<open>The interface of the calls\<close>

text \<open>
  \<open>holds xs m\<close>: the call \<open>m\<close> is about sending the statements \<open>xs\<close>. A call that fails before its statement
  is sent must have the property of sending an empty text.
\<close>

locale statement_calls =
  fixes R :: "('b, 'm) batch_env" and holds :: "string list \<Rightarrow> (('b, 'm) engine, unit) call \<Rightarrow> bool"
  assumes holds_return: "holds [] (returnS (Inr ()))"
    and holds_bind: "holds xs m \<Longrightarrow> holds ys m' \<Longrightarrow> holds (xs @ ys) (bindS m (\<lambda>_. m'))"
    and holds_add_stat: "holds [] (add_stat f)"
    and holds_run_query: "holds [stmt] (run_query R get upd stmt)"
    and holds_failed: "holds [[]] (returnS (Inl e))"
begin

lemma holds_counted: "holds [stmt] (bindS (run_query R get upd stmt) (\<lambda>_. add_stat f))"
  using holds_bind[OF holds_run_query holds_add_stat] by simp

lemma holds_each:
  "(\<And>x. x \<in> set xs \<Longrightarrow> holds (f x) (g x)) \<Longrightarrow> holds (concat (map f xs)) (eachS g xs)"
  by (induction xs) (auto intro: holds_return holds_bind)

lemma holds_exec_update: "holds [update_stmt index u] (exec_update R index u)"
proof (cases "formatUpdateQuery index (uq_id u) (uq_fields u) (uq_values u)")
  case (Inl e)
  then have "exec_update R index u = returnS (Inl e)"
    by (simp add: exec_update_def fun_eq_iff bindS_cases returnS_def)
  then show ?thesis using Inl holds_failed by (simp add: update_stmt_def stmt_text_def)
next
  case (Inr stmt)
  then have "exec_update R index u = bindS (run_query R st_UpdateAffectedRows st_UpdateAffectedRows_update stmt)
      (\<lambda>_. add_stat (\<lambda>st. st\<lparr>st_UpdateQueries := st_UpdateQueries st + 1\<rparr>))"
    by (simp add: exec_update_def fun_eq_iff bindS_cases returnS_def)
  then show ?thesis using holds_counted Inr by (simp add: update_stmt_def stmt_text_def)
qed

lemma holds_executeQuerySet: "holds (query_plan q) (executeQuerySet R q)"
proof -
  have rep: "holds (if qs_replace q = [] then []
      else [formatReplaceQuery (qs_index q) (qs_fields q) (qs_replace q)]) (exec_replace R q)"
    using holds_counted by (auto simp: exec_replace_def intro: holds_return)
  have del: "holds (if qs_delete q = [] then [] else [formatDeleteQuery (qs_index q) (qs_delete q)]) (exec_delete R q)"
    using holds_counted by (auto simp: exec_delete_def intro: holds_return)
  have upd: "holds (map (update_stmt (qs_index q)) (qs_update q)) (eachS (exec_update R (qs_index q)) (qs_update q))"
    using holds_each[of "qs_update q" "\<lambda>u. [update_stmt (qs_index q) u]" "exec_update R (qs_index q)"]
      holds_exec_update by simp
  show ?thesis unfolding query_plan_def executeQuerySet_def by (intro holds_bind rep del upd)
qed

lemma holds_query_sets: "holds (concat (map query_plan qs)) (eachS (executeQuerySet R) qs)"
  by (rule holds_each) (rule holds_executeQuerySet)

end

subsection \<open>The MySQL server is left alone\<close>

definition keeps_mysql :: "(('b, 'm) engine, unit) call \<Rightarrow> bool" where
  "keeps_mysql m \<longleftrightarrow> (\<forall>e. en_mysql (fst (m e)) = en_mysql e)"

interpretation keeping: statement_calls R "\<lambda>_. keeps_mysql" for R :: "('b, 'm) batch_env"
proof unfold_locales
  show "keeps_mysql m \<Longrightarrow> keeps_mysql m' \<Longrightarrow> keeps_mysql (bindS m (\<lambda>_. m'))"
    for m m' :: "(('b, 'm) engine, unit) call"
    by (auto simp: keeps_mysql_def bindS_cases split: sum.split)
qed (simp_all add: keeps_mysql_def returnS_def add_stat_def run_query_def Let_def)

end
