(* ===== verification/Batch_Apply.thy ===== *)
theory Batch_Apply
  imports Batch_Queue Changed_Attrs Sphinx_Correct Statement_Calls
begin

text \<open>
  From a document set to statements: which documents count as changed, what every part of the
  index is sent for them, and what a batch has sent when it succeeds or fails.
\<close>

subsection \<open>Changed documents\<close>

lemma finite_attrs: "ChangedAttrs E cs = Inr a \<Longrightarrow> finite a"
  by (auto simp: ChangedAttrs_def attrs_of_columns_def result_simps
      elim!: foldR_invariant[where P = finite])

definition attrs_sorted ::
  "go_env \<Rightarrow> (64 word \<times> DocumentChange) list \<Rightarrow> BatchChangedAttrs \<Rightarrow> bool" where
  "attrs_sorted E docs s \<longleftrightarrow>
     bca_ChangedDocIDs s = map fst (filter (\<lambda>e. ChangedAttrs E (dc_Changes (snd e)) \<noteq> Inr {}) docs) \<and>
     bca_UnchangedDocIDs s = map fst (filter (\<lambda>e. ChangedAttrs E (dc_Changes (snd e)) = Inr {}) docs) \<and>
     map (\<lambda>e. (fst e, Inr (snd e))) (bca_Attrs s) =
        map (\<lambda>e. (fst e, ChangedAttrs E (dc_Changes (snd e)))) docs"

lemma ChangedAttrsByDocID_fold:
  assumes "awf docs"
  shows "foldR (add_doc_attrs E) \<lparr>bca_Attrs = [], bca_ChangedDocIDs = [], bca_UnchangedDocIDs = []\<rparr> docs = Inr s \<Longrightarrow>
     attrs_sorted E docs s"
  using assms
proof (induction docs arbitrary: s rule: rev_induct)
  case (snoc e docs)
  from snoc.prems(1) obtain t where t: "foldR (add_doc_attrs E)
      \<lparr>bca_Attrs = [], bca_ChangedDocIDs = [], bca_UnchangedDocIDs = []\<rparr> docs = Inr t"
    and s: "add_doc_attrs E t e = Inr s"
    by (auto simp: foldR_append result_simps)
  from s obtain a where a: "ChangedAttrs E (dc_Changes (snd e)) = Inr a"
    by (auto simp: add_doc_attrs_def result_simps)
  have "awf docs" and fresh: "map_of docs (fst e) = None"
    using snoc.prems(2) by (auto simp: awf_def akeys_def map_of_eq_None_iff)
  with snoc.IH t have IH: "attrs_sorted E docs t" by blast
  have card: "card a > 0 \<longleftrightarrow> a \<noteq> {}" using finite_attrs[OF a] by (simp add: card_gt_0_iff)
  have "akeys (bca_Attrs t) = akeys docs"
    using arg_cong[OF conjunct2[OF conjunct2[OF IH[unfolded attrs_sorted_def]]], of "map fst"]
    by (simp add: akeys_def comp_def)
  then have "map_of (bca_Attrs t) (fst e) = None" using fresh by (metis akeys_dom)
  then have "aput (fst e) a (bca_Attrs t) = bca_Attrs t @ [(fst e, a)]" by (rule aput_fresh)
  then show ?case
    using IH s a by (auto simp: attrs_sorted_def add_doc_attrs_def Let_def card)
qed (simp add: attrs_sorted_def)

subsection \<open>The plan of a part\<close>

definition doc_part :: "16 word \<Rightarrow> 64 word \<Rightarrow> nat" where
  "doc_part parts i = unat i mod unat parts"

text \<open>The three kinds of documents a part has to handle.\<close>

definition is_deleted :: "indexDataFromDB \<Rightarrow> 64 word \<Rightarrow> bool" where
  "is_deleted data i \<longleftrightarrow> map_of (idx_docs data) i = None"

definition is_updated :: "BatchChangedAttrs \<Rightarrow> indexDataFromDB \<Rightarrow> SourceConfig \<Rightarrow> 64 word \<Rightarrow> bool" where
  "is_updated A data ds i \<longleftrightarrow>
     \<not> is_deleted data i \<and> the (map_of (bca_Attrs A) i) \<subseteq> scd_attrFields (sc_details ds)"

definition update_of :: "BatchChangedAttrs \<Rightarrow> indexDataFromDB \<Rightarrow> 64 word \<Rightarrow> updateQueryData" where
  "update_of A data i =
     (let fv = filter (\<lambda>fv. fst fv \<in> the (map_of (bca_Attrs A) i))
                 (zip (idx_fields data) (the (map_of (idx_docs data) i)))
      in \<lparr>uq_id = i, uq_fields = map fst fv, uq_values = map snd fv\<rparr>)"

definition part_plan ::
  "string \<Rightarrow> BatchChangedAttrs \<Rightarrow> indexDataFromDB \<Rightarrow> SourceConfig \<Rightarrow> 64 word list \<Rightarrow> nat \<Rightarrow> querySet" where
  "part_plan index A data ds ids k =
     (let mine = filter (\<lambda>i. doc_part (sc_Parts ds) i = k) ids
      in \<lparr>qs_index = IndexChunkName index (sc_Parts ds) (of_nat k), qs_fields = idx_fields data,
          qs_replace = map (\<lambda>i. the (map_of (idx_docs data) i))
            (filter (\<lambda>i. \<not> is_deleted data i \<and> \<not> is_updated A data ds i) mine),
          qs_update = map (update_of A data) (filter (is_updated A data ds) mine),
          qs_delete = filter (is_deleted data) mine\<rparr>)"

lemma pick_fields_ok:
  "length fs \<le> length vs \<Longrightarrow>
   pick_fields attrs fs vs =
     (let fv = filter (\<lambda>fv. fst fv \<in> attrs) (zip fs vs) in Inr (map fst fv, map snd fv))"
  by (induction attrs fs vs rule: pick_fields.induct) (simp_all add: Let_def)

definition plan_ready :: "BatchChangedAttrs \<Rightarrow> indexDataFromDB \<Rightarrow> 64 word \<Rightarrow> bool" where
  "plan_ready A data i \<longleftrightarrow> map_of (bca_Attrs A) i \<noteq> None \<and>
     (case map_of (idx_docs data) i of None \<Rightarrow> True | Some row \<Rightarrow> length row = length (idx_fields data))"

lemma fill_query_set_ok:
  assumes "plan_ready A data i" and "doc_part (sc_Parts ds) i = k"
  shows "fill_query_set A data ds i (part_plan index A data ds ids k) =
     Inr (part_plan index A data ds (ids @ [i]) k)"
proof (cases "map_of (idx_docs data) i")
  case None
  then show ?thesis using assms(2)
    by (simp add: fill_query_set_def part_plan_def is_deleted_def is_updated_def Let_def)
next
  case (Some row)
  then obtain a where "map_of (bca_Attrs A) i = Some a" "length row = length (idx_fields data)"
    using assms(1) by (auto simp: plan_ready_def)
  with Some assms(2) show ?thesis
    by (simp add: fill_query_set_def part_plan_def is_deleted_def is_updated_def update_of_def
        pick_fields_ok Let_def)
qed

lemma part_plan_other:
  "doc_part (sc_Parts ds) i \<noteq> k \<Longrightarrow>
   part_plan index A data ds (ids @ [i]) k = part_plan index A data ds ids k"
  by (simp add: part_plan_def)

lemma fill_doc_ok:
  assumes "plan_ready A data i" and "sc_Parts ds \<noteq> 0"
  shows "fill_doc A data ds (map (part_plan index A data ds ids) [0..<unat (sc_Parts ds)]) i =
     Inr (map (part_plan index A data ds (ids @ [i])) [0..<unat (sc_Parts ds)])"
proof -
  let ?n = "unat (sc_Parts ds)" and ?k = "doc_part (sc_Parts ds) i"
  obtain c where c: "IndexChunk i (sc_Parts ds) = Inr c" "unat c = ?k" "c < sc_Parts ds"
    using IndexChunk_eq[OF assms(2), of i] by (auto simp: doc_part_def)
  then have k: "?k < ?n" by (simp add: word_less_nat_alt)
  have "(map (part_plan index A data ds ids) [0..<?n])[?k := part_plan index A data ds (ids @ [i]) ?k] =
      map (part_plan index A data ds (ids @ [i])) [0..<?n]"
    using k by (intro nth_equalityI) (auto simp: nth_list_update part_plan_other)
  then show ?thesis
    using c k fill_query_set_ok[OF assms(1) refl, of ds index ids]
    by (simp add: fill_doc_def go_index_def)
qed

lemma newQueryBatch_plan:
  assumes "sc_Parts ds = parts" and "idx_fields data = flds"
  shows "newQueryBatch index flds parts = map (part_plan index A data ds []) [0..<unat parts]"
  using assms by (simp add: newQueryBatch_def chunk_numbers_def part_plan_def)

lemma fillQueryBatch_ok:
  assumes "sc_Parts ds \<noteq> 0" and "\<forall>i\<in>set ids. plan_ready A data i"
  shows "foldR (fill_doc A data ds) (map (part_plan index A data ds []) [0..<unat (sc_Parts ds)]) ids =
     Inr (map (part_plan index A data ds ids) [0..<unat (sc_Parts ds)])"
  using assms(2)
proof (induction ids rule: rev_induct)
  case (snoc i ids)
  then show ?case
    using fill_doc_ok[of A data i ds index ids] assms(1) by (simp add: foldR_append)
qed simp

subsection \<open>Statements sent\<close>

abbreviation send :: "'b sph_env \<Rightarrow> 'b SphConn list \<Rightarrow> string \<Rightarrow> 'b SphConn list" where
  "send S conns stmt \<equiv> fst (ExecuteInParallel S conns stmt)"

definition sent :: "('b, 'm) batch_env \<Rightarrow> string list \<Rightarrow> ('b, 'm) engine \<Rightarrow> ('b, 'm) engine \<Rightarrow> bool" where
  "sent R stmts e e' \<longleftrightarrow>
     en_sph e' = map_option (\<lambda>conns. foldl (send (be_sphinx R)) conns stmts) (en_sph e)"

lemma sent_refl: "sent R [] e e"
  by (simp add: sent_def option.map_id[unfolded id_def])

lemma sent_trans: "sent R xs e e' \<Longrightarrow> sent R ys e' e'' \<Longrightarrow> sent R (xs @ ys) e e''"
  by (cases "en_sph e") (simp_all add: sent_def)

lemma run_query_sent: "sent R [stmt] e (fst (run_query R get upd stmt e))"
  by (cases "en_sph e") (simp_all add: run_query_def sent_def SphinxService_Query_def Let_def)

lemma add_stat_sent: "sent R [] e (fst (add_stat f e))"
  by (cases "en_sph e") (simp_all add: add_stat_def sent_def)

text \<open>A call that sends a prefix of its plan, all of it when it succeeds.\<close>

definition follows :: "('b, 'm) batch_env \<Rightarrow> string list \<Rightarrow> (('b, 'm) engine, unit) call \<Rightarrow> bool" where
  "follows R stmts m \<longleftrightarrow>
     (\<forall>e. \<exists>xs ys. stmts = xs @ ys \<and> sent R xs e (fst (m e)) \<and> (snd (m e) = Inr () \<longrightarrow> ys = []))"

lemma follows_bind:
  assumes "follows R xs m" and "follows R ys m'"
  shows "follows R (xs @ ys) (bindS m (\<lambda>_. m'))"
  unfolding follows_def
proof
  fix e
  obtain us vs where m: "xs = us @ vs" "sent R us e (fst (m e))" "snd (m e) = Inr () \<longrightarrow> vs = []"
    using assms(1) unfolding follows_def by blast
  show "\<exists>zs ws. xs @ ys = zs @ ws \<and> sent R zs e (fst (bindS m (\<lambda>_. m') e)) \<and>
      (snd (bindS m (\<lambda>_. m') e) = Inr () \<longrightarrow> ws = [])"
  proof (cases "snd (m e)")
    case (Inl f)
    then show ?thesis using m by (intro exI[of _ us] exI[of _ "vs @ ys"]) (simp add: bindS_Inl)
  next
    case (Inr u)
    obtain us' vs' where m': "ys = us' @ vs'" "sent R us' (fst (m e)) (fst (m' (fst (m e))))"
        "snd (m' (fst (m e))) = Inr () \<longrightarrow> vs' = []"
      using assms(2) unfolding follows_def by blast
    show ?thesis
      using m m' Inr by (intro exI[of _ "us @ us'"] exI[of _ vs'])
        (auto simp: bindS_Inr[of m e u] intro: sent_trans)
  qed
qed

interpretation following: statement_calls R "follows R" for R :: "('b, 'm) batch_env"
proof unfold_locales
  show "follows R [] (add_stat f)" for f using add_stat_sent by (auto simp: follows_def)
  show "follows R [stmt] (run_query R get upd stmt)" for get upd stmt
    unfolding follows_def using run_query_sent by (metis append_Nil2)
  show "follows R [[]] (returnS (Inl e))" for e
    unfolding follows_def by (intro allI exI[of _ "[]"] exI[of _ "[[]]"]) (simp add: returnS_def sent_refl)
qed (auto simp: follows_def returnS_def sent_refl intro: follows_bind[unfolded follows_def, rule_format])

subsection \<open>Fetched rows\<close>

lemma fetchRow_length:
  assumes "fetchRow E fmt_v result ds rowNo = Inr r"
  shows "length (snd r) = length (res_Fields result)"
  using assms unfolding fetchRow_def
  by (rule foldR_invariant[where P = "\<lambda>acc. length (snd acc) = length (res_Fields result)"])
    (auto simp: fetch_field_def result_simps split: option.splits if_splits)

lemma fetchIndexData_lengths:
  assumes "fetchIndexData E fmt_v result ds = Inr data"
  shows "idx_fields data = res_Fields result \<and>
     (\<forall>i row. map_of (idx_docs data) i = Some row \<longrightarrow> length row = length (idx_fields data))"
proof -
  obtain docs where docs: "foldR (\<lambda>docs rowNo. bindR (fetchRow E fmt_v result ds rowNo) (\<lambda>r.
             Inr (aput (fst r) (snd r) docs))) [] [0..<res_RowNumber result] = Inr docs"
    and data: "data = \<lparr>idx_fields = res_Fields result, idx_docs = docs\<rparr>"
    using assms by (auto simp: fetchIndexData_def result_simps)
  from docs have "\<forall>i row. map_of docs i = Some row \<longrightarrow> length row = length (res_Fields result)"
    by (rule foldR_invariant[where P = "\<lambda>docs. \<forall>i row. map_of docs i = Some row \<longrightarrow>
          length row = length (res_Fields result)"])
      (auto simp: result_simps amap_simps split: if_splits dest: fetchRow_length)
  with data show ?thesis by simp
qed

lemma attrs_sorted_changed:
  assumes "attrs_sorted E docs A" and "i \<in> set (bca_ChangedDocIDs A)"
  shows "map_of (bca_Attrs A) i \<noteq> None"
proof -
  have "fst ` set (bca_Attrs A) = fst ` set docs"
    using arg_cong[OF conjunct2[OF conjunct2[OF assms(1)[unfolded attrs_sorted_def]]],
        of "\<lambda>m. set (map fst m)"] by (simp add: image_image)
  moreover have "i \<in> fst ` set docs" using assms by (auto simp: attrs_sorted_def)
  ultimately show ?thesis by (simp add: map_of_eq_None_iff)
qed

lemma fill_plan:
  assumes "sc_Parts ds \<noteq> 0" and "\<forall>i\<in>set (bca_ChangedDocIDs A). plan_ready A data i"
  shows "fillQueryBatch (newQueryBatch index (idx_fields data) (sc_Parts ds)) A data ds =
     Inr (map (part_plan index A data ds (bca_ChangedDocIDs A)) [0..<unat (sc_Parts ds)])"
proof -
  have "newQueryBatch index (idx_fields data) (sc_Parts ds) =
      map (part_plan index A data ds []) [0..<unat (sc_Parts ds)]"
    by (rule newQueryBatch_plan) simp_all
  then show ?thesis using fillQueryBatch_ok[OF assms] by (simp add: fillQueryBatch_def)
qed

text \<open>The statements for the changed documents of an index, part by part.\<close>

definition index_plan :: "string \<Rightarrow> BatchChangedAttrs \<Rightarrow> indexDataFromDB \<Rightarrow> SourceConfig \<Rightarrow> string list" where
  "index_plan index A data ds =
     concat (map (\<lambda>k. query_plan (part_plan index A data ds (bca_ChangedDocIDs A) k))
       [0..<unat (sc_Parts ds)])"

lemma doIndexChangeSet_run:
  assumes "map_of (be_DataSource R) (ics_Index ics) = Some ds"
    and "ChangedAttrsByDocID (be_go R) ics = Inr A" and "bca_ChangedDocIDs A \<noteq> []"
    and "buildSelectQuery (scd_queryTpl (sc_details ds)) (bca_ChangedDocIDs A) = Inr query"
    and "be_mysql R query (en_mysql e) = (my, Inr result)"
    and "fetchIndexData (be_go R) (be_fmt_v R) result ds = Inr data"
    and "awf (ics_ChangedDocs ics)" and "sc_Parts ds \<noteq> 0"
  shows "\<exists>e0. sent R [] e e0 \<and>
     doIndexChangeSet R ics e = eachS (executeQuerySet R)
       (map (part_plan (ics_Index ics) A data ds (bca_ChangedDocIDs A)) [0..<unat (sc_Parts ds)]) e0"
proof -
  have "attrs_sorted (be_go R) (ics_ChangedDocs ics) A"
    using ChangedAttrsByDocID_fold[OF assms(7)] assms(2) by (simp add: ChangedAttrsByDocID_def)
  then have ready: "\<forall>i\<in>set (bca_ChangedDocIDs A). plan_ready A data i"
    using attrs_sorted_changed fetchIndexData_lengths[OF assms(6)]
    by (fastforce simp: plan_ready_def split: option.splits)
  have fill: "fillQueryBatch (newQueryBatch (ics_Index ics) (idx_fields data) (sc_Parts ds)) A data ds =
      Inr (map (part_plan (ics_Index ics) A data ds (bca_ChangedDocIDs A)) [0..<unat (sc_Parts ds)])"
    by (rule fill_plan[OF assms(8) ready])
  let ?e0 = "fst (add_stat (\<lambda>st. st\<lparr>st_ProcessedBatches := st_ProcessedBatches st + 1\<rparr>)
      (e\<lparr>en_mysql := my\<rparr>))"
  have "sent R [] e ?e0" by (cases "en_sph e") (simp_all add: sent_def add_stat_def)
  moreover have "doIndexChangeSet R ics e = eachS (executeQuerySet R)
       (map (part_plan (ics_Index ics) A data ds (bca_ChangedDocIDs A)) [0..<unat (sc_Parts ds)]) ?e0"
    using assms(1-6) fill
    by (simp add: doIndexChangeSet_def bindS_cases returnS_def canal_Execute_def add_stat_def Let_def)
  ultimately show ?thesis by blast
qed

subsection \<open>Samples\<close>

text \<open>An index in two parts with one attribute column, and a MySQL server with one document.\<close>

definition sample_source :: SourceConfig where
  "sample_source = \<lparr>sc_Query = [], sc_Parts = 2, sc_JsonTable = [], sc_StoragePath = [],
     sc_details = \<lparr>scd_attrFields = {''attr1''}, scd_fieldList = [],
       scd_fieldTypes = [(''id'', DocID), (''attr1'', AttrString)], scd_queryTables = [], scd_queryColumns = [],
       scd_queryTpl = (\<lambda>_. Inr ''SELECT'')\<rparr>\<rparr>"

definition doc_result :: mysql_result where
  "doc_result = (sample_result GNil ''v'')\<lparr>res_Fields := [''id'', ''attr1''],
     res_FieldNames := [(''id'', 0), (''attr1'', 1)], res_GetUint := (\<lambda>_ _. (5, None))\<rparr>"

definition sample_batch_env :: "(unit, unit) batch_env" where
  "sample_batch_env = \<lparr>be_sphinx = up_env (sample_result GNil []), be_mysql = (\<lambda>_ m. (m, Inr doc_result)),
     be_go = plain_env, be_fmt_v = (\<lambda>_. []), be_DataSource = [(''i'', sample_source)]\<rparr>"

definition sample_ics :: IndexChangeSet where
  "sample_ics = \<lparr>ics_ChangedDocs = [(5, row_document sample_change)], ics_Index = ''i''\<rparr>"

definition sample_engine :: "(unit, unit) engine" where
  "sample_engine = \<lparr>en_stat = \<lparr>st_ProcessedRowEvents = 0, st_ProcessedDocEvents = 0, st_ProcessedBatches = 0,
     st_ReplaceAffectedRows = 0, st_ReplaceQueries = 0, st_ReplaceQueryDocs = 0, st_UpdateAffectedRows = 0,
     st_UpdateQueries = 0, st_DeleteAffectedRows = 0, st_DeleteQueries = 0, st_DeleteQueryDocs = 0\<rparr>,
     en_sph = Some [sample_conn ()], en_mysql = ()\<rparr>"

definition sample_data :: indexDataFromDB where
  "sample_data = \<lparr>idx_fields = [''id'', ''attr1''], idx_docs = [(5, [''5'', QuoteString ''v''])]\<rparr>"

definition sample_doc_attrs :: BatchChangedAttrs where
  "sample_doc_attrs =
     \<lparr>bca_Attrs = [(5, {''attr1''})], bca_ChangedDocIDs = [5], bca_UnchangedDocIDs = []\<rparr>"

lemma sample_doc_attrs: "ChangedAttrsByDocID plain_env sample_ics = Inr sample_doc_attrs"
  using sample_attrs
  by (simp add: ChangedAttrsByDocID_def sample_ics_def add_doc_attrs_def row_document_def Let_def
      sample_doc_attrs_def)

lemma sample_fetch: "fetchIndexData plain_env (\<lambda>_. []) doc_result sample_source = Inr sample_data"
  by code_simp

subsection \<open>Properties\<close>

text \<open>
  The documents of an index are split by change detection: those with at least one changed
  attribute are the changed ones, the others the unchanged ones, both in queue order, and the
  recorded attribute set of every document is the one change detection computes from its changes.
\<close>

theorem changed_documents:
  assumes "awf (ics_ChangedDocs ics)" and "ChangedAttrsByDocID E ics = Inr s"
  shows "bca_ChangedDocIDs s =
       map fst (filter (\<lambda>e. ChangedAttrs E (dc_Changes (snd e)) \<noteq> Inr {}) (ics_ChangedDocs ics)) \<and>
     bca_UnchangedDocIDs s =
       map fst (filter (\<lambda>e. ChangedAttrs E (dc_Changes (snd e)) = Inr {}) (ics_ChangedDocs ics)) \<and>
     map (\<lambda>e. (fst e, Inr (snd e))) (bca_Attrs s) =
       map (\<lambda>e. (fst e, ChangedAttrs E (dc_Changes (snd e)))) (ics_ChangedDocs ics)"
  using ChangedAttrsByDocID_fold[OF assms(1)] assms(2)
  by (simp add: ChangedAttrsByDocID_def attrs_sorted_def)

theorem changed_documents_witness:
  "map fst (filter (\<lambda>e. ChangedAttrs plain_env (dc_Changes (snd e)) \<noteq> Inr {}) (ics_ChangedDocs sample_ics)) = [5]"
  using changed_documents[OF _ sample_doc_attrs]
  by (simp add: sample_doc_attrs_def) (simp add: sample_ics_def amap_simps)

text \<open>
  The statement plan: every changed document is handled once, in the part its id selects
  (id modulo the number of parts). It is deleted there if and only if MySQL no longer returns it;
  otherwise, if only attributes (no full-text field) changed, exactly its changed fields are
  updated with the fetched values, and if not, its whole fetched row replaces the old one.
\<close>

theorem fillQueryBatch_plan:
  assumes "sc_Parts ds \<noteq> 0"
    and "\<forall>i\<in>set (bca_ChangedDocIDs A). map_of (bca_Attrs A) i \<noteq> None \<and>
       (\<forall>row. map_of (idx_docs data) i = Some row \<longrightarrow> length row = length (idx_fields data))"
  shows "fillQueryBatch (newQueryBatch index (idx_fields data) (sc_Parts ds)) A data ds =
     Inr (map (part_plan index A data ds (bca_ChangedDocIDs A)) [0..<unat (sc_Parts ds)])"
proof -
  have "\<forall>i\<in>set (bca_ChangedDocIDs A). plan_ready A data i"
    using assms(2) by (simp add: plan_ready_def split: option.splits)
  then show ?thesis by (rule fill_plan[OF assms(1)])
qed

theorem fillQueryBatch_plan_witness:
  "fillQueryBatch (newQueryBatch ''i'' [''id'', ''attr1''] 2) sample_doc_attrs sample_data sample_source =
   Inr [\<lparr>qs_index = ''i_part_0'', qs_fields = [''id'', ''attr1''], qs_replace = [], qs_update = [], qs_delete = []\<rparr>,
        \<lparr>qs_index = ''i_part_1'', qs_fields = [''id'', ''attr1''], qs_replace = [],
         qs_update = [\<lparr>uq_id = 5, uq_fields = [''attr1''], uq_values = [QuoteString ''v'']\<rparr>], qs_delete = []\<rparr>]"
proof -
  have "fillQueryBatch (newQueryBatch ''i'' (idx_fields sample_data) (sc_Parts sample_source))
      sample_doc_attrs sample_data sample_source =
    Inr (map (part_plan ''i'' sample_doc_attrs sample_data sample_source (bca_ChangedDocIDs sample_doc_attrs))
      [0..<unat (sc_Parts sample_source)])"
    by (rule fillQueryBatch_plan)
      (auto simp: sample_source_def sample_doc_attrs_def sample_data_def)
  moreover have "map (part_plan ''i'' sample_doc_attrs sample_data sample_source (bca_ChangedDocIDs sample_doc_attrs))
      [0..<unat (sc_Parts sample_source)] =
    [\<lparr>qs_index = ''i_part_0'', qs_fields = [''id'', ''attr1''], qs_replace = [], qs_update = [], qs_delete = []\<rparr>,
        \<lparr>qs_index = ''i_part_1'', qs_fields = [''id'', ''attr1''], qs_replace = [],
         qs_update = [\<lparr>uq_id = 5, uq_fields = [''attr1''], uq_values = [QuoteString ''v'']\<rparr>], qs_delete = []\<rparr>]"
    by code_simp
  ultimately show ?thesis by (simp add: sample_data_def sample_source_def)
qed

text \<open>
  C9. What an index change set sends: the statements of the plan, part after part and within a
  part the REPLACE, the DELETE, then the updates, each to all backends. A failed run has sent a
  prefix of the plan; a successful one has sent all of it.
\<close>

theorem doIndexChangeSet_statements:
  assumes "map_of (be_DataSource R) (ics_Index ics) = Some ds"
    and "ChangedAttrsByDocID (be_go R) ics = Inr A" and "bca_ChangedDocIDs A \<noteq> []"
    and "buildSelectQuery (scd_queryTpl (sc_details ds)) (bca_ChangedDocIDs A) = Inr query"
    and "be_mysql R query (en_mysql e) = (my, Inr result)"
    and "fetchIndexData (be_go R) (be_fmt_v R) result ds = Inr data"
    and "awf (ics_ChangedDocs ics)" and "sc_Parts ds \<noteq> 0"
  shows "\<exists>xs ys. index_plan (ics_Index ics) A data ds = xs @ ys \<and>
     en_sph (fst (doIndexChangeSet R ics e)) =
       map_option (\<lambda>conns. foldl (send (be_sphinx R)) conns xs) (en_sph e) \<and>
     (snd (doIndexChangeSet R ics e) = Inr () \<longrightarrow> ys = [])"
proof -
  obtain e0 where e0: "sent R [] e e0" "doIndexChangeSet R ics e = eachS (executeQuerySet R)
       (map (part_plan (ics_Index ics) A data ds (bca_ChangedDocIDs A)) [0..<unat (sc_Parts ds)]) e0"
    using doIndexChangeSet_run[OF assms] by blast
  have "follows R (index_plan (ics_Index ics) A data ds) (eachS (executeQuerySet R)
       (map (part_plan (ics_Index ics) A data ds (bca_ChangedDocIDs A)) [0..<unat (sc_Parts ds)]))"
    using following.holds_query_sets[of R "map (part_plan (ics_Index ics) A data ds (bca_ChangedDocIDs A))
        [0..<unat (sc_Parts ds)]"]
    by (simp add: index_plan_def comp_def)
  then obtain xs ys where "index_plan (ics_Index ics) A data ds = xs @ ys"
      "sent R xs e0 (fst (doIndexChangeSet R ics e))" "snd (doIndexChangeSet R ics e) = Inr () \<longrightarrow> ys = []"
    unfolding follows_def e0(2) by blast
  with sent_trans[OF e0(1), of xs] show ?thesis unfolding sent_def by auto
qed

theorem doIndexChangeSet_statements_witness:
  "\<exists>xs ys. [''UPDATE i_part_1 SET attr1 = '' @ QuoteString ''v'' @ '' WHERE id = 5''] = xs @ ys \<and>
     en_sph (fst (doIndexChangeSet sample_batch_env sample_ics sample_engine)) =
       map_option (\<lambda>conns. foldl (send (be_sphinx sample_batch_env)) conns xs) (en_sph sample_engine) \<and>
     (snd (doIndexChangeSet sample_batch_env sample_ics sample_engine) = Inr () \<longrightarrow> ys = [])"
proof -
  have "index_plan ''i'' sample_doc_attrs sample_data sample_source =
      [''UPDATE i_part_1 SET attr1 = '' @ QuoteString ''v'' @ '' WHERE id = 5'']"
    by code_simp
  moreover have "\<exists>xs ys. index_plan (ics_Index sample_ics) sample_doc_attrs sample_data sample_source = xs @ ys \<and>
     en_sph (fst (doIndexChangeSet sample_batch_env sample_ics sample_engine)) =
       map_option (\<lambda>conns. foldl (send (be_sphinx sample_batch_env)) conns xs) (en_sph sample_engine) \<and>
     (snd (doIndexChangeSet sample_batch_env sample_ics sample_engine) = Inr () \<longrightarrow> ys = [])"
  proof (rule doIndexChangeSet_statements[where query = "''SELECT''" and result = doc_result and my = "()"])
    show "ChangedAttrsByDocID (be_go sample_batch_env) sample_ics = Inr sample_doc_attrs"
      using sample_doc_attrs by (simp add: sample_batch_env_def)
    show "fetchIndexData (be_go sample_batch_env) (be_fmt_v sample_batch_env) doc_result sample_source = Inr sample_data"
      using sample_fetch by (simp add: sample_batch_env_def)
  qed (simp_all add: sample_batch_env_def sample_ics_def sample_doc_attrs_def sample_source_def
      buildSelectQuery_def amap_simps)
  ultimately show ?thesis by (simp add: sample_ics_def)
qed

text \<open>
  Documents without a changed attribute cost nothing: an index change set all of whose
  documents net out to no change touches neither MySQL nor Manticore nor the counters.
\<close>

theorem doIndexChangeSet_unchanged:
  assumes "map_of (be_DataSource R) (ics_Index ics) = Some ds" and "awf (ics_ChangedDocs ics)"
    and "\<forall>d\<in>snd ` set (ics_ChangedDocs ics). ChangedAttrs (be_go R) (dc_Changes d) = Inr {}"
  shows "doIndexChangeSet R ics e = (e, Inr ())"
proof -
  have "\<exists>A. foldR (add_doc_attrs (be_go R))
      \<lparr>bca_Attrs = [], bca_ChangedDocIDs = [], bca_UnchangedDocIDs = []\<rparr> (ics_ChangedDocs ics) = Inr A"
    using assms(3) by (intro foldR_total) (auto simp: add_doc_attrs_def Let_def)
  then obtain A where A: "foldR (add_doc_attrs (be_go R))
      \<lparr>bca_Attrs = [], bca_ChangedDocIDs = [], bca_UnchangedDocIDs = []\<rparr> (ics_ChangedDocs ics) = Inr A" by blast
  have "bca_ChangedDocIDs A = []"
    using ChangedAttrsByDocID_fold[OF assms(2) A] assms(3)
    by (auto simp: attrs_sorted_def filter_empty_conv)
  then show ?thesis
    using assms(1) A by (simp add: doIndexChangeSet_def ChangedAttrsByDocID_def bindS_cases returnS_def)
qed

theorem doIndexChangeSet_unchanged_witness:
  "doIndexChangeSet sample_batch_env
     \<lparr>ics_ChangedDocs = [(5, (row_document sample_change)\<lparr>dc_Changes := []\<rparr>)], ics_Index = ''i''\<rparr> sample_engine
   = (sample_engine, Inr ())"
  by (rule doIndexChangeSet_unchanged[where ds = sample_source])
    (simp_all add: sample_batch_env_def amap_simps ChangedAttrs_def NewDocChangeSet_def
      PruneUnchangedTables_def)

end
