(* ===== verification/Index_Store.thy ===== *)
theory Index_Store
  imports Batch_Apply
begin

text \<open>
  What the statements of a batch do to the documents: the documented effect of REPLACE, DELETE and UPDATE on the part of
  a real-time index they name, and that the plan of a batch brings every changed document to the fetched
  state. A document is the map from its fields to their expressions.
\<close>

subsection \<open>The effect of a query set\<close>

type_synonym part_docs = "64 word \<Rightarrow> (string \<Rightarrow> string option) option"

text \<open>The document id of a row of values: the value of the field \<open>idField\<close>.\<close>

definition row_id :: "string \<Rightarrow> string list \<Rightarrow> string list \<Rightarrow> 64 word option" where
  "row_id idField flds row =
     (case map_of (zip flds row) idField of None \<Rightarrow> None | Some s \<Rightarrow> map_option of_nat (dec_value 0 s))"

definition replace_doc :: "string \<Rightarrow> string list \<Rightarrow> string list \<Rightarrow> part_docs \<Rightarrow> part_docs" where
  "replace_doc idField flds row docs =
     (case row_id idField flds row of None \<Rightarrow> docs | Some i \<Rightarrow> docs(i \<mapsto> map_of (zip flds row)))"

definition update_doc :: "updateQueryData \<Rightarrow> part_docs \<Rightarrow> part_docs" where
  "update_doc u docs =
     docs(uq_id u := map_option (\<lambda>doc. doc ++ map_of (zip (uq_fields u) (uq_values u))) (docs (uq_id u)))"

text \<open>A query set in the order in which \<open>executeQuerySet\<close> sends it.\<close>

definition apply_query_set :: "string \<Rightarrow> querySet \<Rightarrow> part_docs \<Rightarrow> part_docs" where
  "apply_query_set idField q docs =
     fold update_doc (qs_update q)
       (fold (\<lambda>i docs. docs(i := None)) (qs_delete q)
         (fold (replace_doc idField (qs_fields q)) (qs_replace q) docs))"

subsection \<open>Each kind of statement\<close>

definition fetched_doc :: "indexDataFromDB \<Rightarrow> 64 word \<Rightarrow> (string \<Rightarrow> string option) option" where
  "fetched_doc data i = map_option (\<lambda>row. map_of (zip (idx_fields data) row)) (map_of (idx_docs data) i)"

definition rows_named :: "string \<Rightarrow> indexDataFromDB \<Rightarrow> bool" where
  "rows_named idField data \<longleftrightarrow>
     (\<forall>i row. map_of (idx_docs data) i = Some row \<longrightarrow> row_id idField (idx_fields data) row = Some i)"

lemma fold_replace:
  assumes "rows_named idField data" and "\<forall>i\<in>set ids. map_of (idx_docs data) i \<noteq> None"
  shows "fold (replace_doc idField (idx_fields data)) (map (\<lambda>i. the (map_of (idx_docs data) i)) ids) docs i =
     (if i \<in> set ids then fetched_doc data i else docs i)"
  using assms(2)
proof (induction ids arbitrary: docs)
  case (Cons j ids)
  then obtain row where row: "map_of (idx_docs data) j = Some row" by auto
  with assms(1) have "row_id idField (idx_fields data) row = Some j" by (auto simp: rows_named_def)
  with Cons row show ?case by (simp add: replace_doc_def fetched_doc_def)
qed simp

lemma fold_delete: "fold (\<lambda>i docs. docs(i := None)) ids docs i = (if i \<in> set ids then None else docs i)"
  by (induction ids arbitrary: docs) auto

lemma fold_update:
  assumes "distinct (map uq_id us)"
  shows "fold update_doc us docs i =
     (case map_of (map (\<lambda>u. (uq_id u, u)) us) i of
        None \<Rightarrow> docs i
      | Some u \<Rightarrow> map_option (\<lambda>doc. doc ++ map_of (zip (uq_fields u) (uq_values u))) (docs i))"
  using assms
proof (induction us arbitrary: docs)
  case (Cons u us)
  then have "map_of (map (\<lambda>u. (uq_id u, u)) us) (uq_id u) = None"
    by (auto simp: map_of_eq_None_iff image_iff)
  with Cons show ?case by (auto simp: update_doc_def split: option.splits)
qed simp

subsection \<open>The plan of a part\<close>

definition updated_doc ::
  "BatchChangedAttrs \<Rightarrow> indexDataFromDB \<Rightarrow> 64 word \<Rightarrow> (string \<Rightarrow> string option) \<Rightarrow> string \<Rightarrow> string option" where
  "updated_doc A data i doc =
     doc ++ map_of (filter (\<lambda>fv. fst fv \<in> the (map_of (bca_Attrs A) i))
       (zip (idx_fields data) (the (map_of (idx_docs data) i))))"

lemma fold_update_plan:
  assumes "distinct ids"
  shows "fold update_doc (map (update_of A data) ids) docs i =
     (if i \<in> set ids then map_option (updated_doc A data i) (docs i) else docs i)"
proof -
  have ids: "map uq_id (map (update_of A data) ids) = ids" by (simp add: comp_def update_of_def Let_def)
  have us: "map_of (map (\<lambda>u. (uq_id u, u)) (map (update_of A data) ids)) i =
      (if i \<in> set ids then Some (update_of A data i) else None)"
    by (induction ids) (auto simp: update_of_def Let_def)
  have "zip (uq_fields (update_of A data i)) (uq_values (update_of A data i)) =
      filter (\<lambda>fv. fst fv \<in> the (map_of (bca_Attrs A) i)) (zip (idx_fields data) (the (map_of (idx_docs data) i)))"
    by (simp add: update_of_def Let_def zip_map_fst_snd)
  then have upd: "(\<lambda>doc. doc ++ map_of (zip (uq_fields (update_of A data i)) (uq_values (update_of A data i)))) =
      updated_doc A data i"
    by (simp only: updated_doc_def[abs_def])
  have "distinct (map uq_id (map (update_of A data) ids))" unfolding ids by (rule assms)
  from fold_update[OF this] us show ?thesis by (simp only: us upd option.case split: if_splits) auto
qed

lemma apply_part_plan:
  assumes "rows_named idField data" and "distinct ids"
  shows "apply_query_set idField (part_plan index A data ds ids k) docs i =
     (if i \<in> set ids \<and> doc_part (sc_Parts ds) i = k
      then (if is_updated A data ds i then map_option (updated_doc A data i) (docs i) else fetched_doc data i)
      else docs i)"
proof -
  let ?mine = "filter (\<lambda>i. doc_part (sc_Parts ds) i = k) ids"
  let ?rep = "filter (\<lambda>i. \<not> is_deleted data i \<and> \<not> is_updated A data ds i) ?mine"
  have "fold (replace_doc idField (idx_fields data)) (map (\<lambda>i. the (map_of (idx_docs data) i)) ?rep) docs i =
      (if i \<in> set ?rep then fetched_doc data i else docs i)"
    by (rule fold_replace[OF assms(1)]) (simp add: is_deleted_def)
  moreover have "distinct (filter (is_updated A data ds) ?mine)" using assms(2) by simp
  ultimately show ?thesis
    unfolding apply_query_set_def part_plan_def Let_def querySet.simps
    by (simp only: fold_update_plan fold_delete)
      (auto simp: is_updated_def is_deleted_def fetched_doc_def)
qed

subsection \<open>Fetched rows carry their ids\<close>

text \<open>
  The library's result names its columns: \<open>FieldNames\<close> has every field with its column. \<open>idField\<close> is the one field of
  type \<open>id\<close> that an accepted query has.
\<close>

definition names_columns :: "mysql_result \<Rightarrow> bool" where
  "names_columns result \<longleftrightarrow>
     distinct (res_Fields result) \<and> distinct (map snd (res_FieldNames result)) \<and>
     set (res_FieldNames result) = set (zip (res_Fields result) [0..<length (res_Fields result)])"

definition id_field :: "SourceConfig \<Rightarrow> string \<Rightarrow> bool" where
  "id_field ds idField \<longleftrightarrow>
     list_all (\<lambda>ft. (snd ft = DocID) = (fst ft = idField)) (scd_fieldTypes (sc_details ds))"

lemma fetch_field_Inr:
  assumes "fetch_field E fmt_v result ds rowNo acc f = Inr acc'" and "id_field ds idField"
  shows "length (snd acc') = length (snd acc) \<and> (\<forall>c. c \<noteq> snd f \<longrightarrow> snd acc' ! c = snd acc ! c) \<and>
     (if fst f = idField then snd f < length (snd acc) \<and> snd acc' ! snd f = dec (unat (fst acc')) else fst acc' = fst acc)"
proof -
  obtain ty where ty: "map_of (scd_fieldTypes (sc_details ds)) (fst f) = Some ty"
    using assms(1) by (cases "map_of (scd_fieldTypes (sc_details ds)) (fst f)") (auto simp: fetch_field_def)
  then have id: "ty = DocID \<longleftrightarrow> fst f = idField"
    using assms(2) map_of_SomeD[OF ty] by (auto simp: id_field_def list_all_iff)
  show ?thesis
    using assms(1) ty id by (auto simp: fetch_field_def result_simps split: if_splits)
qed

lemma fetch_fields_keep:
  assumes "foldR (fetch_field E fmt_v result ds rowNo) acc fs = Inr acc'" and "id_field ds idField"
    and "idField \<notin> fst ` set fs" and "c \<notin> snd ` set fs"
  shows "fst acc' = fst acc \<and> snd acc' ! c = snd acc ! c"
  using assms(1,3,4)
proof (induction fs arbitrary: acc)
  case (Cons f fs)
  then obtain a where a: "fetch_field E fmt_v result ds rowNo acc f = Inr a"
    and rest: "foldR (fetch_field E fmt_v result ds rowNo) a fs = Inr acc'"
    by (auto simp: result_simps)
  have "fst a = fst acc \<and> snd a ! c = snd acc ! c"
    using fetch_field_Inr[OF a assms(2)] Cons.prems by (auto split: if_splits)
  moreover have "fst acc' = fst a \<and> snd acc' ! c = snd a ! c"
    using Cons.IH[OF rest] Cons.prems by simp
  ultimately show ?case by simp
qed simp

lemma fetch_fields_id:
  assumes "foldR (fetch_field E fmt_v result ds rowNo) acc fs = Inr acc'" and "id_field ds idField"
    and "(idField, c) \<in> set fs" and "distinct (map snd fs)" and "distinct (map fst fs)"
  shows "snd acc' ! c = dec (unat (fst acc'))"
  using assms(1,3,4,5)
proof (induction fs arbitrary: acc)
  case (Cons f fs)
  then obtain a where a: "fetch_field E fmt_v result ds rowNo acc f = Inr a"
    and rest: "foldR (fetch_field E fmt_v result ds rowNo) a fs = Inr acc'"
    by (auto simp: result_simps)
  show ?case
  proof (cases "f = (idField, c)")
    case True
    have "idField \<notin> fst ` set fs" "c \<notin> snd ` set fs" using Cons.prems True by auto
    from fetch_fields_keep[OF rest assms(2) this] fetch_field_Inr[OF a assms(2)] True show ?thesis by simp
  next
    case False
    with Cons.prems have "(idField, c) \<in> set fs" by auto
    with Cons.IH[OF rest] Cons.prems show ?thesis by simp
  qed
qed simp

lemma fetchRow_named:
  assumes "fetchRow E fmt_v result ds rowNo = Inr r" and "names_columns result" and "id_field ds idField"
    and "idField \<in> set (res_Fields result)"
  shows "row_id idField (res_Fields result) (snd r) = Some (fst r)"
proof -
  let ?F = "res_Fields result"
  obtain c where c: "c < length ?F" "?F ! c = idField" using assms(4) by (auto simp: in_set_conv_nth)
  have "(idField, c) \<in> set (zip ?F [0..<length ?F])"
    using c by (auto simp: set_zip intro!: exI[of _ c])
  then have entry: "(idField, c) \<in> set (res_FieldNames result)" using assms(2) by (simp add: names_columns_def)
  have "inj_on fst (set (res_FieldNames result))"
    using assms(2) by (auto simp: names_columns_def set_zip inj_on_def nth_eq_iff_index_eq)
  moreover have "distinct (res_FieldNames result)"
    using assms(2) by (simp add: names_columns_def distinct_map)
  ultimately have names: "distinct (map fst (res_FieldNames result))" by (simp add: distinct_map)
  have id_text: "snd r ! c = dec (unat (fst r))"
    using assms(1) unfolding fetchRow_def
    by (rule fetch_fields_id[OF _ assms(3) entry _ names]) (use assms(2) in \<open>simp add: names_columns_def\<close>)
  have len: "length (snd r) = length ?F" by (rule fetchRow_length[OF assms(1)])
  then have "(idField, snd r ! c) \<in> set (zip ?F (snd r))"
    using c by (auto simp: set_zip intro!: exI[of _ c])
  then have "map_of (zip ?F (snd r)) idField = Some (snd r ! c)"
    using assms(2) len by (simp add: names_columns_def)
  then show ?thesis by (simp add: row_id_def id_text)
qed

lemma fetchIndexData_named:
  assumes "fetchIndexData E fmt_v result ds = Inr data" and "names_columns result" and "id_field ds idField"
    and "idField \<in> set (res_Fields result)"
  shows "rows_named idField data"
proof -
  obtain docs where docs: "foldR (\<lambda>docs rowNo. bindR (fetchRow E fmt_v result ds rowNo) (\<lambda>r.
             Inr (aput (fst r) (snd r) docs))) [] [0..<res_RowNumber result] = Inr docs"
    and data: "data = \<lparr>idx_fields = res_Fields result, idx_docs = docs\<rparr>"
    using assms(1) by (auto simp: fetchIndexData_def result_simps)
  from docs have "\<forall>i row. map_of docs i = Some row \<longrightarrow> row_id idField (res_Fields result) row = Some i"
    by (rule foldR_invariant[where P = "\<lambda>docs. \<forall>i row. map_of docs i = Some row \<longrightarrow>
          row_id idField (res_Fields result) row = Some i"])
      (auto simp: result_simps amap_simps split: if_splits dest: fetchRow_named[OF _ assms(2-4)])
  with data show ?thesis by (simp add: rows_named_def)
qed

subsection \<open>The whole batch\<close>

text \<open>A stored document that agrees with the fetched one except for the changed attributes among its fields.\<close>

definition agrees_outside :: "string set \<Rightarrow> indexDataFromDB \<Rightarrow> 64 word \<Rightarrow> (string \<Rightarrow> string option) \<Rightarrow> bool" where
  "agrees_outside attrs data i doc \<longleftrightarrow>
     (\<forall>f. f \<in> attrs \<and> f \<in> set (idx_fields data) \<or> Some (doc f) = map_option (\<lambda>new. new f) (fetched_doc data i))"

lemma map_of_filter_key:
  "map_of (filter (\<lambda>kv. fst kv \<in> S) kvs) k = (if k \<in> S then map_of kvs k else None)"
  by (induction kvs) auto

lemma updated_doc_current:
  assumes "map_of (idx_docs data) i = Some row" and "length row = length (idx_fields data)"
    and "agrees_outside (the (map_of (bca_Attrs A) i)) data i doc"
  shows "updated_doc A data i doc = map_of (zip (idx_fields data) row)"
proof
  fix f
  let ?attrs = "the (map_of (bca_Attrs A) i)"
  have "f \<in> ?attrs \<and> f \<in> set (idx_fields data) \<or> doc f = map_of (zip (idx_fields data) row) f"
    using assms(1,3) by (auto simp: agrees_outside_def fetched_doc_def)
  moreover have "f \<in> set (idx_fields data) \<longleftrightarrow> map_of (zip (idx_fields data) row) f \<noteq> None"
    using assms(2) by (simp add: map_of_zip_is_None)
  ultimately show "updated_doc A data i doc f = map_of (zip (idx_fields data) row) f"
    using assms(1) by (auto simp: updated_doc_def map_of_filter_key map_add_def split: option.splits)
qed

lemma batch_plan:
  assumes "ChangedAttrsByDocID E ics = Inr A" and "awf (ics_ChangedDocs ics)"
    and "fetchIndexData E' fmt_v result ds = Inr data" and "sc_Parts ds \<noteq> 0"
  shows "fillQueryBatch (newQueryBatch index (idx_fields data) (sc_Parts ds)) A data ds =
      Inr (map (part_plan index A data ds (bca_ChangedDocIDs A)) [0..<unat (sc_Parts ds)])"
    and "distinct (bca_ChangedDocIDs A)"
proof -
  have sorted: "attrs_sorted E (ics_ChangedDocs ics) A"
    using ChangedAttrsByDocID_fold[OF assms(2)] assms(1) by (simp add: ChangedAttrsByDocID_def)
  then have "\<forall>i\<in>set (bca_ChangedDocIDs A). plan_ready A data i"
    using attrs_sorted_changed fetchIndexData_lengths[OF assms(3)]
    by (fastforce simp: plan_ready_def split: option.splits)
  then show "fillQueryBatch (newQueryBatch index (idx_fields data) (sc_Parts ds)) A data ds =
      Inr (map (part_plan index A data ds (bca_ChangedDocIDs A)) [0..<unat (sc_Parts ds)])"
    by (rule fill_plan[OF assms(4)])
  show "distinct (bca_ChangedDocIDs A)"
    using sorted assms(2) by (auto simp: attrs_sorted_def awf_def akeys_def distinct_map_filter)
qed

lemma plan_makes_current:
  assumes "ChangedAttrsByDocID E ics = Inr A" and "awf (ics_ChangedDocs ics)"
    and "fetchIndexData E fmt_v result ds = Inr data" and "sc_Parts ds \<noteq> 0"
    and "names_columns result" and "id_field ds idField" and "idField \<in> set (res_Fields result)"
    and "\<forall>i\<in>set (bca_ChangedDocIDs A). is_updated A data ds i \<longrightarrow>
       (\<exists>doc. docs (doc_part (sc_Parts ds) i) i = Some doc \<and>
          agrees_outside (the (map_of (bca_Attrs A) i)) data i doc)"
  shows "\<exists>qs. fillQueryBatch (newQueryBatch index (idx_fields data) (sc_Parts ds)) A data ds = Inr qs \<and>
     (\<forall>k i. k < unat (sc_Parts ds) \<longrightarrow> apply_query_set idField (qs ! k) (docs k) i =
        (if i \<in> set (bca_ChangedDocIDs A) \<and> doc_part (sc_Parts ds) i = k then fetched_doc data i else docs k i))"
proof -
  let ?ids = "bca_ChangedDocIDs A"
  let ?qs = "map (part_plan index A data ds ?ids) [0..<unat (sc_Parts ds)]"
  note plan = batch_plan[OF assms(1-4)]
  note named = fetchIndexData_named[OF assms(3,5-7)]
  have "map_option (updated_doc A data i) (docs (doc_part (sc_Parts ds) i) i) = fetched_doc data i"
    if i: "i \<in> set ?ids" "is_updated A data ds i" for i
  proof -
    obtain doc where doc: "docs (doc_part (sc_Parts ds) i) i = Some doc"
      "agrees_outside (the (map_of (bca_Attrs A) i)) data i doc" using assms(8) i by blast
    obtain row where row: "map_of (idx_docs data) i = Some row"
      using i(2) by (auto simp: is_updated_def is_deleted_def)
    with fetchIndexData_lengths[OF assms(3)] have "length row = length (idx_fields data)" by blast
    with updated_doc_current[OF row this doc(2)] doc(1) row show ?thesis by (simp add: fetched_doc_def)
  qed
  then show ?thesis
    using plan(1) apply_part_plan[OF named plan(2)] by (intro exI[of _ ?qs]) auto
qed

subsection \<open>Properties\<close>

lemma doc_result_named: "names_columns doc_result" "id_field sample_source ''id''"
  by (code_simp, code_simp)

text \<open>
  C37. A new document without full-text content stays missing: a changed document that is not in the index, while all its
  reported attributes are attribute fields (as for an inserted row whose full-text columns are NULL, or an index
  without full-text fields), is only sent an UPDATE, so after the batch it is still not there, although
  MySQL returned it.
\<close>

theorem attribute_only_document_missing:
  assumes "ChangedAttrsByDocID E ics = Inr A" and "awf (ics_ChangedDocs ics)"
    and "fetchIndexData E fmt_v result ds = Inr data" and "sc_Parts ds \<noteq> 0"
    and "names_columns result" and "id_field ds idField" and "idField \<in> set (res_Fields result)"
    and "i \<in> set (bca_ChangedDocIDs A)" and "map_of (idx_docs data) i = Some row"
    and "the (map_of (bca_Attrs A) i) \<subseteq> scd_attrFields (sc_details ds)" and "docs i = None"
  shows "\<exists>qs. fillQueryBatch (newQueryBatch index (idx_fields data) (sc_Parts ds)) A data ds = Inr qs \<and>
     apply_query_set idField (qs ! doc_part (sc_Parts ds) i) docs i = None \<and> fetched_doc data i \<noteq> None"
proof -
  let ?k = "doc_part (sc_Parts ds) i"
  note plan = batch_plan[OF assms(1-4)]
  have k: "?k < unat (sc_Parts ds)" using assms(4) by (simp add: doc_part_def unat_gt_0)
  have "is_updated A data ds i" using assms(9,10) by (simp add: is_updated_def is_deleted_def)
  then have "apply_query_set idField (part_plan index A data ds (bca_ChangedDocIDs A) ?k) docs i = None"
    using apply_part_plan[OF fetchIndexData_named[OF assms(3,5-7)] plan(2)] assms(8,11) by simp
  with plan(1) k assms(9) show ?thesis by (simp add: fetched_doc_def)
qed

theorem attribute_only_document_missing_witness:
  "\<exists>qs. fillQueryBatch (newQueryBatch ''i'' (idx_fields sample_data) 2) sample_doc_attrs sample_data sample_source = Inr qs \<and>
     apply_query_set ''id'' (qs ! 1) Map.empty 5 = None"
proof -
  have "awf (ics_ChangedDocs sample_ics)" by (simp add: sample_ics_def amap_simps)
  moreover have "doc_part 2 5 = 1" by (simp add: doc_part_def)
  ultimately show ?thesis
    using attribute_only_document_missing[OF sample_doc_attrs _ sample_fetch _ doc_result_named,
        of 5 "[''5'', QuoteString ''v'']" Map.empty "''i''"]
    by (auto simp: sample_source_def sample_doc_attrs_def doc_result_def sample_data_def)
qed

end
