(* ===== verification/Statement_Text.thy ===== *)
theory Statement_Text
  imports Index_Store
begin

text \<open>
  Reading the statements of a batch back: a lexer that knows quotes, escapes and parentheses, a reader for the three
  forms of statements, and that the statements made of a query set read as that query set, whatever the
  rows hold, for the field types whose text is quoted or a number.
\<close>

subsection \<open>Where an expression ends\<close>

text \<open>Outside of quotes at a depth of parentheses, inside a quoted literal, after a backslash in one.\<close>

datatype lexer = Outside nat | Quoted nat | Escaped nat

text \<open>A comma, a blank or an unmatched closing parenthesis outside ends the expression.\<close>

fun lex_step :: "lexer \<Rightarrow> char \<Rightarrow> lexer option" where
  "lex_step (Outside d) c =
     (if c = CHR 0x27 then Some (Quoted d)
      else if c = CHR ''('' then Some (Outside (Suc d))
      else if c = CHR '')'' then (case d of 0 \<Rightarrow> None | Suc e \<Rightarrow> Some (Outside e))
      else if d = 0 \<and> (c = CHR '','' \<or> c = CHR '' '') then None
      else Some (Outside d))"
| "lex_step (Quoted d) c =
     (if c = CHR 0x27 then Some (Outside d) else if c = CHR 0x5C then Some (Escaped d) else Some (Quoted d))"
| "lex_step (Escaped d) c = Some (Quoted d)"

fun lex_run :: "lexer \<Rightarrow> string \<Rightarrow> lexer option" where
  "lex_run st [] = Some st"
| "lex_run st (c # cs) = (case lex_step st c of None \<Rightarrow> None | Some st' \<Rightarrow> lex_run st' cs)"

fun read_expr :: "lexer \<Rightarrow> string \<Rightarrow> string \<times> string" where
  "read_expr st [] = ([], [])"
| "read_expr st (c # cs) =
     (case lex_step st c of
        None \<Rightarrow> ([], c # cs)
      | Some st' \<Rightarrow> (let r = read_expr st' cs in (c # fst r, snd r)))"

text \<open>A text that is one whole expression.\<close>

definition closed_expr :: "string \<Rightarrow> bool" where
  "closed_expr v \<longleftrightarrow> lex_run (Outside 0) v = Some (Outside 0)"

definition ends_expr :: "string \<Rightarrow> bool" where
  "ends_expr s \<longleftrightarrow> s = [] \<or> lex_step (Outside 0) (hd s) = None"

lemma lex_run_append:
  "lex_run st (xs @ ys) = (case lex_run st xs of None \<Rightarrow> None | Some st' \<Rightarrow> lex_run st' ys)"
  by (induction xs arbitrary: st) (simp_all split: option.splits)

lemma read_expr_run:
  "lex_run st v = Some st' \<Longrightarrow> read_expr st (v @ s) = (v @ fst (read_expr st' s), snd (read_expr st' s))"
  by (induction v arbitrary: st) (auto simp: Let_def split: option.splits)

lemma read_closed:
  assumes "closed_expr v" and "ends_expr s"
  shows "read_expr (Outside 0) (v @ s) = (v, s)"
proof -
  have "read_expr (Outside 0) s = ([], s)" using assms(2) by (cases s) (auto simp: ends_expr_def)
  then show ?thesis using read_expr_run[OF assms(1)[unfolded closed_expr_def], of s] by simp
qed

lemma read_expr_length: "length (snd (read_expr st s)) \<le> length s"
  by (induction st s rule: read_expr.induct) (auto simp: Let_def split: option.splits)

subsection \<open>Expressions of the program\<close>

definition plain_char :: "char \<Rightarrow> bool" where
  "plain_char c \<longleftrightarrow> c \<notin> {CHR 0x27, CHR ''('', CHR '')'', CHR '','', CHR '' ''}"

lemma lex_run_plain: "list_all plain_char v \<Longrightarrow> lex_run (Outside d) v = Some (Outside d)"
  by (induction v) (auto simp: plain_char_def)

lemma closed_plain: "list_all plain_char v \<Longrightarrow> closed_expr v"
  by (simp add: closed_expr_def lex_run_plain)

lemma plain_dec: "list_all plain_char (dec n)"
  using all_digits_dec[of n] by (auto simp: list_all_iff all_digits_def digit_val_def plain_char_def)

lemma plain_dec_int: "list_all plain_char (dec_int i)"
  using plain_dec by (simp add: dec_int_def plain_char_def)

lemma plain_pad: "list_all plain_char s \<Longrightarrow> list_all plain_char (pad_zeros p s)"
proof -
  have "list_all plain_char (replicate n (CHR ''0''))" for n by (induction n) (simp_all add: plain_char_def)
  then show "list_all plain_char s \<Longrightarrow> ?thesis" by (simp add: pad_zeros_def)
qed

lemma plain_fixed: "list_all plain_char (fmt_fixed p q)"
  using plain_dec plain_pad[OF plain_dec] by (simp add: fmt_fixed_def Let_def) (simp add: plain_char_def)

lemmas closed_numbers = closed_plain[OF plain_dec] closed_plain[OF plain_dec_int] closed_plain[OF plain_fixed]

lemma lex_run_escaped:
  "lex_run (Quoted d) (replace_char (CHR 0x00) [] (replace_char (CHR 0x27) [CHR 0x5C, CHR 0x27]
      (replace_char (CHR 0x5C) [CHR 0x5C, CHR 0x5C] v))) = Some (Quoted d)"
  by (induction v) auto

lemma closed_QuoteString: "closed_expr (QuoteString v)"
  by (simp add: closed_expr_def QuoteString_def Let_def lex_run_append lex_run_escaped del: replace_char_simps)

text \<open>The field types whose text is a number or a quoted string.\<close>

definition closed_type :: "string \<Rightarrow> bool" where
  "closed_type t \<longleftrightarrow> t \<in> {DocID, AttrFloat, AttrUint, AttrBigint, AttrString, TextField, AttrTimestamp}"

lemma getDBValueExpression_closed:
  assumes "getDBValueExpression E fmt_v result t rowNo colNo = Inr v" and "closed_type t"
  shows "closed_expr v"
proof -
  have "t = DocID \<or> t = AttrFloat \<or> t = AttrUint \<or> t = AttrBigint \<or> t = AttrString \<or> t = TextField \<or> t = AttrTimestamp"
    using assms(2) by (simp add: closed_type_def)
  then show ?thesis
    using assms(1) closed_numbers closed_QuoteString
    by (elim disjE) (auto simp: getDBValueExpression_def field_type_defs formatDocID_def formatFloat_def formatUint_def
        formatBigint_def formatString_def formatTimestamp_def result_simps)
qed


subsection \<open>Lists of expressions\<close>

function read_list :: "string \<Rightarrow> string list \<times> string" where
  "read_list s =
     (let r = read_expr (Outside 0) s
      in case snd r of
           [] \<Rightarrow> ([fst r], [])
         | c # cs \<Rightarrow> if c = CHR '','' then (let q = read_list cs in (fst r # fst q, snd q)) else ([fst r], c # cs))"
  by pat_completeness auto
termination
proof (relation "measure length")
  fix s r c cs
  assume "r = read_expr (Outside 0) s" and "snd r = c # cs"
  then show "(cs, s) \<in> measure length" using read_expr_length[of "Outside 0" s] by auto
qed simp

declare read_list.simps [simp del]

definition ends_list :: "string \<Rightarrow> bool" where
  "ends_list s \<longleftrightarrow> ends_expr s \<and> (s \<noteq> [] \<longrightarrow> hd s \<noteq> CHR '','')"

lemma read_list_join:
  assumes "vs \<noteq> []" and "list_all closed_expr vs" and "ends_list s"
  shows "read_list (join '','' vs @ s) = (vs, s)"
  using assms(1,2)
proof (induction vs)
  case (Cons v vs)
  have closed: "closed_expr v" using Cons.prems by simp
  show ?case
  proof (cases "vs = []")
    case True
    have "read_expr (Outside 0) (v @ s) = (v, s)"
      using read_closed[OF closed] assms(3) by (simp add: ends_list_def)
    then show ?thesis
      using True assms(3) by (subst read_list.simps) (auto simp: Let_def ends_list_def split: list.split)
  next
    case False
    have "read_expr (Outside 0) (v @ CHR '','' # join '','' vs @ s) = (v, CHR '','' # join '','' vs @ s)"
      using read_closed[OF closed] by (simp add: ends_expr_def)
    moreover have "read_list (join '','' vs @ s) = (vs, s)" using Cons False by simp
    ultimately show ?thesis
      using False by (subst read_list.simps) (simp add: join_Cons Let_def)
  qed
qed simp

text \<open>Inside parentheses an expression may have commas and blanks.\<close>

fun deeper :: "lexer \<Rightarrow> lexer" where
  "deeper (Outside d) = Outside (Suc d)"
| "deeper (Quoted d) = Quoted (Suc d)"
| "deeper (Escaped d) = Escaped (Suc d)"

lemma lex_step_deeper: "lex_step st c = Some st' \<Longrightarrow> lex_step (deeper st) c = Some (deeper st')"
  by (cases st) (auto split: if_splits nat.splits)

lemma lex_run_deeper: "lex_run st v = Some st' \<Longrightarrow> lex_run (deeper st) v = Some (deeper st')"
  by (induction v arbitrary: st) (auto simp: lex_step_deeper split: option.splits)

lemma lex_run_inner: "closed_expr v \<Longrightarrow> lex_run (Outside (Suc 0)) v = Some (Outside (Suc 0))"
  using lex_run_deeper[of "Outside 0" v] by (simp add: closed_expr_def)

lemma lex_run_join: "list_all closed_expr vs \<Longrightarrow> lex_run (Outside (Suc 0)) (join '','' vs) = Some (Outside (Suc 0))"
proof (induction vs)
  case (Cons v vs)
  then show ?case by (cases "vs = []") (simp_all add: join_Cons lex_run_inner lex_run_append)
qed simp

lemma closed_tuple: "list_all closed_expr vs \<Longrightarrow> closed_expr (''('' @ join '','' vs @ '')'')"
  by (simp add: closed_expr_def lex_run_append lex_run_join)

subsection \<open>Statements\<close>

datatype stmt =
    Replace string "string list" "string list list"
  | Delete string "64 word list"
  | Update string "(string \<times> string) list" "64 word"

definition upto_char :: "char \<Rightarrow> string \<Rightarrow> string \<times> string" where
  "upto_char c s = (takeWhile (\<lambda>x. x \<noteq> c) s, dropWhile (\<lambda>x. x \<noteq> c) s)"

definition read_tuple :: "string \<Rightarrow> string list option" where
  "read_tuple s = bindO (skip_prefix ''('' s) (\<lambda>s.
     let r = read_list s in if snd r = '')'' then Some (fst r) else None)"

definition read_id :: "string \<Rightarrow> 64 word option" where
  "read_id s = map_option of_nat (dec_value 0 s)"

definition read_replace :: "string \<Rightarrow> stmt option" where
  "read_replace s =
     (let (index, s) = upto_char (CHR '' '') s in
      bindO (skip_prefix '' ('' s) (\<lambda>s.
      let (flds, s) = read_list s in
      bindO (skip_prefix '') VALUES '' s) (\<lambda>s.
      let (tuples, s) = read_list s in
      if s = [] then map_option (Replace index flds) (those (map read_tuple tuples)) else None)))"

definition read_delete :: "string \<Rightarrow> stmt option" where
  "read_delete s =
     (let (index, s) = upto_char (CHR '' '') s in
      bindO (skip_prefix '' WHERE id IN ('' s) (\<lambda>s.
      let (ids, s) = read_list s in
      if s = '')'' then map_option (Delete index) (those (map read_id ids)) else None))"

lemma skip_prefix_length: "skip_prefix p s = Some s' \<Longrightarrow> length s' \<le> length s"
  by (induction p s rule: skip_prefix.induct) (auto split: if_splits)

function read_sets :: "string \<Rightarrow> ((string \<times> string) list \<times> string) option" where
  "read_sets s =
     (let (f, s1) = upto_char (CHR '' '') s
      in case skip_prefix '' = '' s1 of
           None \<Rightarrow> None
         | Some s2 \<Rightarrow>
             (let r = read_expr (Outside 0) s2
              in case snd r of
                   [] \<Rightarrow> Some ([(f, fst r)], [])
                 | c # cs \<Rightarrow>
                     if c = CHR '','' then map_option (\<lambda>q. ((f, fst r) # fst q, snd q)) (read_sets cs)
                     else Some ([(f, fst r)], c # cs)))"
  by pat_completeness auto

termination
proof (relation "measure length")
  fix s p f s1 s2 r c cs
  assume "p = upto_char (CHR '' '') s" and "(f, s1) = p" and "skip_prefix '' = '' s1 = Some s2"
    and "r = read_expr (Outside 0) s2" and "snd r = c # cs"
  then show "(cs, s) \<in> measure length"
    using read_expr_length[of "Outside 0" s2] skip_prefix_length[of "'' = ''" s1 s2]
      length_dropWhile_le[of "\<lambda>x. x \<noteq> CHR '' ''" s]
    by (auto simp: upto_char_def)
qed simp

declare read_sets.simps [simp del]

definition read_update :: "string \<Rightarrow> stmt option" where
  "read_update s =
     (let (index, s) = upto_char (CHR '' '') s in
      bindO (skip_prefix '' SET '' s) (\<lambda>s.
      bindO (read_sets s) (\<lambda>(sets, s).
      bindO (skip_prefix '' WHERE id = '' s) (\<lambda>s.
      map_option (Update index sets) (read_id s)))))"

definition read_statement :: "string \<Rightarrow> stmt option" where
  "read_statement s =
     (case skip_prefix ''REPLACE INTO '' s of
        Some s \<Rightarrow> read_replace s
      | None \<Rightarrow>
          (case skip_prefix ''DELETE FROM '' s of
             Some s \<Rightarrow> read_delete s
           | None \<Rightarrow> bindO (skip_prefix ''UPDATE '' s) read_update))"


subsection \<open>Reading back the formatted statements\<close>

lemma upto_char_append: "c \<notin> set w \<Longrightarrow> upto_char c (w @ c # s) = (w, c # s)"
  by (simp add: upto_char_def takeWhile_append dropWhile_append)

lemma read_tuple_join:
  "vs \<noteq> [] \<Longrightarrow> list_all closed_expr vs \<Longrightarrow> read_tuple (''('' @ join '','' vs @ '')'') = Some vs"
  using read_list_join[of vs "'')''"] by (simp add: read_tuple_def bindO_def ends_list_def ends_expr_def)

lemma read_tuples:
  "\<forall>row\<in>set rows. row \<noteq> [] \<and> list_all closed_expr row \<Longrightarrow>
   those (map (\<lambda>row. read_tuple (''('' @ join '','' row @ '')'')) rows) = Some rows"
  by (induction rows) (simp_all del: append_Cons add: read_tuple_join)

lemma read_formatReplaceQuery:
  assumes "CHR '' '' \<notin> set index" and "flds \<noteq> []" and "list_all (list_all plain_char) flds" and "rows \<noteq> []"
    and "\<forall>row\<in>set rows. row \<noteq> [] \<and> list_all closed_expr row"
  shows "read_statement (formatReplaceQuery index flds rows) = Some (Replace index flds rows)"
proof -
  let ?tuples = "map (\<lambda>row. ''('' @ join '','' row @ '')'') rows"
  have "list_all closed_expr flds" using assms(3) by (auto simp: list_all_iff closed_plain)
  with assms(2) have flds: "read_list (join '','' flds @ '') VALUES '' @ s) = (flds, '') VALUES '' @ s)" for s
    by (intro read_list_join) (simp_all add: ends_list_def ends_expr_def)
  have "list_all closed_expr ?tuples" using assms(5) closed_tuple by (simp add: list_all_iff)
  with assms(4) have tuples: "read_list (join '','' ?tuples) = (?tuples, [])"
    using read_list_join[of ?tuples "[]"] by (simp add: ends_list_def ends_expr_def)
  have rows: "those (map read_tuple ?tuples) = Some rows"
    using read_tuples[OF assms(5)] by (simp add: comp_def)
  have name: "upto_char (CHR '' '') (index @ '' ('' @ s) = (index, '' ('' @ s)" for s
    using upto_char_append[OF assms(1), of "''('' @ s"] by simp
  show ?thesis
    unfolding read_statement_def formatReplaceQuery_def
    by (simp only: skip_prefix_append option.case read_replace_def name Let_def prod.case bindO_def flds tuples rows)
      simp
qed

lemma read_id_dec: "read_id (dec (unat i)) = Some i"
  by (simp add: read_id_def)

lemma read_formatDeleteQuery:
  assumes "CHR '' '' \<notin> set index" and "ids \<noteq> []"
  shows "read_statement (formatDeleteQuery index ids) = Some (Delete index ids)"
proof -
  let ?ids = "map (\<lambda>i. dec (unat i)) ids"
  have "list_all closed_expr ?ids" by (simp add: list_all_iff closed_numbers)
  with assms(2) have list: "read_list (join '','' ?ids @ '')'') = (?ids, '')'')"
    by (intro read_list_join) (simp_all add: ends_list_def ends_expr_def)
  have ids: "those (map read_id ?ids) = Some ids" by (induction ids) (simp_all add: read_id_dec)
  have name: "upto_char (CHR '' '') (index @ '' WHERE id IN ('' @ s) = (index, '' WHERE id IN ('' @ s)" for s
    using upto_char_append[OF assms(1), of "''WHERE id IN ('' @ s"] by simp
  have other: "skip_prefix ''REPLACE INTO '' (''DELETE FROM '' @ s) = None" for s by simp
  show ?thesis
    unfolding read_statement_def formatDeleteQuery_def
    by (simp only: other skip_prefix_append option.case read_delete_def name Let_def prod.case bindO_def list ids)
      simp
qed

definition set_clause :: "string \<times> string \<Rightarrow> string" where
  "set_clause fv = fst fv @ '' = '' @ snd fv"

lemma read_sets_join:
  assumes "fvs \<noteq> []" and "\<forall>fv\<in>set fvs. list_all plain_char (fst fv) \<and> closed_expr (snd fv)" and "ends_list s"
  shows "read_sets (join '','' (map set_clause fvs) @ s) = Some (fvs, s)"
  using assms(1,2)
proof (induction fvs)
  case (Cons fv fvs)
  have name: "upto_char (CHR '' '') (fst fv @ '' = '' @ t) = (fst fv, '' = '' @ t)" for t
    using upto_char_append[of "CHR '' ''" "fst fv" "''= '' @ t"] Cons.prems by (auto simp: plain_char_def list_all_iff)
  have closed: "closed_expr (snd fv)" using Cons.prems by simp
  show ?case
  proof (cases "fvs = []")
    case True
    have "read_expr (Outside 0) (snd fv @ s) = (snd fv, s)"
      using read_closed[OF closed] assms(3) by (simp add: ends_list_def)
    moreover have "join '','' (map set_clause (fv # fvs)) @ s = fst fv @ '' = '' @ (snd fv @ s)"
      using True by (simp add: set_clause_def)
    ultimately show ?thesis
      unfolding read_sets.simps[of "join '','' (map set_clause (fv # fvs)) @ s"]
      using True assms(3) by (simp only: name Let_def prod.case skip_prefix_append option.case)
        (auto simp: ends_list_def split: list.split)
  next
    case False
    let ?t = "CHR '','' # join '','' (map set_clause fvs) @ s"
    have "read_expr (Outside 0) (snd fv @ ?t) = (snd fv, ?t)"
      using read_closed[OF closed] by (simp add: ends_expr_def)
    moreover have "join '','' (map set_clause (fv # fvs)) @ s = fst fv @ '' = '' @ (snd fv @ ?t)"
      using False by (simp add: set_clause_def join_Cons)
    moreover have "read_sets (join '','' (map set_clause fvs) @ s) = Some (fvs, s)" using Cons False by simp
    ultimately show ?thesis
      unfolding read_sets.simps[of "join '','' (map set_clause (fv # fvs)) @ s"]
      by (simp only: name Let_def prod.case skip_prefix_append option.case) simp
  qed
qed simp

definition readable_update :: "updateQueryData \<Rightarrow> bool" where
  "readable_update u \<longleftrightarrow> uq_fields u \<noteq> [] \<and> length (uq_fields u) = length (uq_values u) \<and>
     list_all (list_all plain_char) (uq_fields u) \<and> list_all closed_expr (uq_values u)"

definition update_statement :: "string \<Rightarrow> updateQueryData \<Rightarrow> stmt" where
  "update_statement index u = Update index (zip (uq_fields u) (uq_values u)) (uq_id u)"

lemma read_update_stmt:
  assumes "CHR '' '' \<notin> set index" and "readable_update u"
  shows "read_statement (update_stmt index u) = Some (update_statement index u)"
proof -
  let ?fvs = "zip (uq_fields u) (uq_values u)"
  have "\<forall>fv\<in>set ?fvs. list_all plain_char (fst fv) \<and> closed_expr (snd fv)"
    using assms(2) by (auto simp: readable_update_def list_all_iff dest: set_zip_leftD set_zip_rightD)
  moreover have "?fvs \<noteq> []" using assms(2) by (cases "uq_fields u"; cases "uq_values u") (auto simp: readable_update_def)
  ultimately have sets: "read_sets (join '','' (map set_clause ?fvs) @ '' WHERE id = '' @ s) = Some (?fvs, '' WHERE id = '' @ s)"
    for s by (intro read_sets_join) (simp_all add: ends_list_def ends_expr_def)
  have name: "upto_char (CHR '' '') (index @ '' SET '' @ s) = (index, '' SET '' @ s)" for s
    using upto_char_append[OF assms(1), of "''SET '' @ s"] by simp
  have other: "skip_prefix ''REPLACE INTO '' (''UPDATE '' @ s) = None" "skip_prefix ''DELETE FROM '' (''UPDATE '' @ s) = None"
    for s by simp_all
  have clause: "(\<lambda>(f, v). f @ '' = '' @ v) = set_clause" by (auto simp: fun_eq_iff set_clause_def)
  have "set_clauses (uq_fields u) (uq_values u) = Inr (map set_clause ?fvs)"
    unfolding clause[symmetric] using assms(2) by (intro set_clauses_ok) (simp add: readable_update_def)
  then have "update_stmt index u = ''UPDATE '' @ (index @ '' SET '' @ (join '','' (map set_clause ?fvs) @ '' WHERE id = '' @ dec (unat (uq_id u))))"
    by (simp add: update_stmt_def formatUpdateQuery_def stmt_text_def)
  then show ?thesis
    unfolding read_statement_def
    by (simp only: other skip_prefix_append option.case read_update_def name Let_def prod.case bindO_def sets read_id_dec
        option.map update_statement_def)
qed

end
