(* ===== verification/Statement_Effect.thy ===== *)
theory Statement_Effect
  imports Statement_Text
begin

text \<open>
  The statements of a batch executed as texts: reading each one and applying its documented effect to the index it names
  does what the query sets it was made of do, so that the statements of an index change set bring the documents
  up to date.
\<close>

subsection \<open>Executing a text\<close>

type_synonym index_store = "string \<Rightarrow> part_docs"

fun exec_statement :: "string \<Rightarrow> stmt \<Rightarrow> index_store \<Rightarrow> index_store" where
  "exec_statement idField (Replace index flds rows) st = st(index := fold (replace_doc idField flds) rows (st index))"
| "exec_statement idField (Delete index ids) st = st(index := fold (\<lambda>i docs. docs(i := None)) ids (st index))"
| "exec_statement idField (Update index sets i) st =
     st(index := (st index)(i := map_option (\<lambda>doc. doc ++ map_of sets) (st index i)))"

definition exec_text :: "string \<Rightarrow> string \<Rightarrow> index_store \<Rightarrow> index_store option" where
  "exec_text idField s st = map_option (\<lambda>stmt. exec_statement idField stmt st) (read_statement s)"

fun exec_texts :: "string \<Rightarrow> string list \<Rightarrow> index_store \<Rightarrow> index_store option" where
  "exec_texts idField [] st = Some st"
| "exec_texts idField (s # ss) st = bindO (exec_text idField s st) (exec_texts idField ss)"

lemma exec_texts_append:
  "exec_texts idField (xs @ ys) st = bindO (exec_texts idField xs st) (exec_texts idField ys)"
  by (induction xs arbitrary: st) (simp_all add: bindO_def split: option.split)

subsection \<open>The texts of a query set\<close>

definition readable_set :: "querySet \<Rightarrow> bool" where
  "readable_set q \<longleftrightarrow> CHR '' '' \<notin> set (qs_index q) \<and> qs_fields q \<noteq> [] \<and> list_all (list_all plain_char) (qs_fields q) \<and>
     (\<forall>row\<in>set (qs_replace q). row \<noteq> [] \<and> list_all closed_expr row) \<and> list_all readable_update (qs_update q)"

lemma exec_update_texts:
  assumes "CHR '' '' \<notin> set index" and "list_all readable_update us"
  shows "exec_texts idField (map (update_stmt index) us) st = Some (st(index := fold update_doc us (st index)))"
  using assms(2)
proof (induction us arbitrary: st)
  case (Cons u us)
  then have "exec_text idField (update_stmt index u) st = Some (st(index := update_doc u (st index)))"
    by (simp add: exec_text_def read_update_stmt[OF assms(1)] update_statement_def update_doc_def)
  with Cons show ?case by (auto simp: bindO_def fun_eq_iff)
qed simp

lemma exec_query_plan:
  assumes "readable_set q"
  shows "exec_texts idField (query_plan q) st = Some (st(qs_index q := apply_query_set idField q (st (qs_index q))))"
proof -
  have name: "CHR '' '' \<notin> set (qs_index q)" using assms by (simp add: readable_set_def)
  have rep: "exec_texts idField (if qs_replace q = [] then []
      else [formatReplaceQuery (qs_index q) (qs_fields q) (qs_replace q)]) st =
    Some (st(qs_index q := fold (replace_doc idField (qs_fields q)) (qs_replace q) (st (qs_index q))))" for st
    using assms by (simp add: readable_set_def exec_text_def bindO_def read_formatReplaceQuery)
  have del: "exec_texts idField (if qs_delete q = [] then [] else [formatDeleteQuery (qs_index q) (qs_delete q)]) st =
    Some (st(qs_index q := fold (\<lambda>i docs. docs(i := None)) (qs_delete q) (st (qs_index q))))" for st
    using name by (simp add: exec_text_def bindO_def read_formatDeleteQuery)
  have upd: "exec_texts idField (map (update_stmt (qs_index q)) (qs_update q)) st =
      Some (st(qs_index q := fold update_doc (qs_update q) (st (qs_index q))))" for st
    using assms by (intro exec_update_texts) (simp_all add: readable_set_def)
  show ?thesis
    unfolding query_plan_def exec_texts_append
    by (simp only: rep del upd bindO_def option.case) (simp add: apply_query_set_def)
qed

lemma exec_query_plans:
  assumes "list_all readable_set qs" and "distinct (map qs_index qs)"
  shows "\<exists>st'. exec_texts idField (concat (map query_plan qs)) st = Some st' \<and>
     (\<forall>q\<in>set qs. st' (qs_index q) = apply_query_set idField q (st (qs_index q))) \<and>
     (\<forall>n. n \<notin> qs_index ` set qs \<longrightarrow> st' n = st n)"
  using assms
proof (induction qs arbitrary: st)
  case (Cons q qs)
  let ?st = "st(qs_index q := apply_query_set idField q (st (qs_index q)))"
  have "list_all readable_set qs" "distinct (map qs_index qs)" using Cons.prems by simp_all
  from Cons.IH[OF this, of ?st] obtain st' where st': "exec_texts idField (concat (map query_plan qs)) ?st = Some st'"
    "\<forall>q'\<in>set qs. st' (qs_index q') = apply_query_set idField q' (?st (qs_index q'))"
    "\<forall>n. n \<notin> qs_index ` set qs \<longrightarrow> st' n = ?st n"
    by blast
  have "exec_texts idField (concat (map query_plan (q # qs))) st = Some st'"
    using Cons.prems(1) st'(1) by (simp add: exec_texts_append exec_query_plan bindO_def)
  moreover have "\<forall>q'\<in>set qs. qs_index q' \<noteq> qs_index q"
    using Cons.prems(2) by (metis distinct.simps(2) image_eqI list.map(2) set_map)
  ultimately show ?case using st'(2,3) Cons.prems(2) by (intro exI[of _ st']) auto
qed simp

subsection \<open>The plan of an index is readable\<close>

lemma closed_Nil: "closed_expr []" by (simp add: closed_expr_def)

lemma fetchRow_closed:
  assumes "fetchRow E fmt_v result ds rowNo = Inr r" and "\<forall>ft\<in>set (scd_fieldTypes (sc_details ds)). closed_type (snd ft)"
  shows "list_all closed_expr (snd r)"
  using assms(1) unfolding fetchRow_def
proof (rule foldR_invariant[where P = "\<lambda>acc. list_all closed_expr (snd acc)"])
  show "list_all closed_expr (snd (0 :: 64 word, replicate (length (res_Fields result)) []))"
    by (simp add: list_all_iff closed_Nil)
next
  fix acc f acc'
  assume acc: "list_all closed_expr (snd acc)" and step: "fetch_field E fmt_v result ds rowNo acc f = Inr acc'"
  obtain ty where ty: "map_of (scd_fieldTypes (sc_details ds)) (fst f) = Some ty"
    using step by (cases "map_of (scd_fieldTypes (sc_details ds)) (fst f)") (auto simp: fetch_field_def)
  with assms(2) map_of_SomeD[OF ty] have "closed_type ty" by fastforce
  from step ty obtain v i where acc': "acc' = (i, (snd acc)[snd f := v])"
    and "v = dec (unat i) \<or> getDBValueExpression E fmt_v result ty rowNo (snd f) = Inr v"
    by (auto simp: fetch_field_def result_simps split: if_splits)
  with \<open>closed_type ty\<close> have "closed_expr v" using closed_numbers(1) getDBValueExpression_closed by blast
  with acc acc' show "list_all closed_expr (snd acc')" using set_update_subset_insert by (fastforce simp: list_all_iff)
qed

lemma fetchIndexData_closed:
  assumes "fetchIndexData E fmt_v result ds = Inr data" and "\<forall>ft\<in>set (scd_fieldTypes (sc_details ds)). closed_type (snd ft)"
  shows "map_of (idx_docs data) i = Some row \<Longrightarrow> list_all closed_expr row"
proof -
  obtain docs where docs: "foldR (\<lambda>docs rowNo. bindR (fetchRow E fmt_v result ds rowNo) (\<lambda>r.
             Inr (aput (fst r) (snd r) docs))) [] [0..<res_RowNumber result] = Inr docs"
    and data: "data = \<lparr>idx_fields = res_Fields result, idx_docs = docs\<rparr>"
    using assms(1) by (auto simp: fetchIndexData_def result_simps)
  from docs have "\<forall>i row. map_of docs i = Some row \<longrightarrow> list_all closed_expr row"
    by (rule foldR_invariant[where P = "\<lambda>docs. \<forall>i row. map_of docs i = Some row \<longrightarrow> list_all closed_expr row"])
      (auto simp: result_simps amap_simps split: if_splits dest: fetchRow_closed[OF _ assms(2)])
  with data show "map_of (idx_docs data) i = Some row \<Longrightarrow> list_all closed_expr row" by simp
qed

lemma changed_attrs_nonempty:
  assumes "attrs_sorted E docs A" and "awf docs" and "i \<in> set (bca_ChangedDocIDs A)"
  shows "the (map_of (bca_Attrs A) i) \<noteq> {}"
proof -
  obtain dc where dc: "(i, dc) \<in> set docs" "ChangedAttrs E (dc_Changes dc) \<noteq> Inr {}"
    using assms(1,3) by (auto simp: attrs_sorted_def)
  have eq: "map (\<lambda>e. (fst e, Inr (snd e))) (bca_Attrs A) = map (\<lambda>e. (fst e, ChangedAttrs E (dc_Changes (snd e)))) docs"
    using assms(1) by (simp add: attrs_sorted_def)
  have "map fst (bca_Attrs A) = map fst docs" using arg_cong[OF eq, of "map fst"] by (simp add: comp_def)
  then have "distinct (map fst (bca_Attrs A))" using assms(2) by (simp add: awf_def akeys_def)
  moreover have "(i, ChangedAttrs E (dc_Changes dc)) \<in> set (map (\<lambda>e. (fst e, Inr (snd e))) (bca_Attrs A))"
    using dc(1) unfolding eq by force
  then obtain a where "(i, a) \<in> set (bca_Attrs A)" "Inr a = ChangedAttrs E (dc_Changes dc)" by auto
  ultimately show ?thesis using dc(2) by auto
qed


text \<open>What the reader relies on: the names have no blanks, quotes, commas or parentheses, the fields' texts are closed.\<close>

definition readable_source :: "string \<Rightarrow> SourceConfig \<Rightarrow> mysql_result \<Rightarrow> bool" where
  "readable_source index ds result \<longleftrightarrow>
     CHR '' '' \<notin> set index \<and> list_all (list_all plain_char) (res_Fields result) \<and>
     list_all (\<lambda>ft. closed_type (snd ft)) (scd_fieldTypes (sc_details ds)) \<and>
     scd_attrFields (sc_details ds) \<subseteq> set (res_Fields result)"

lemma chunk_name_no_blank: "CHR '' '' \<notin> set index \<Longrightarrow> CHR '' '' \<notin> set (IndexChunkName index parts c)"
  using not_in_dec[of "CHR '' ''"] by (simp add: IndexChunkName_def digit_val_def)

lemma update_of_readable:
  assumes "map_of (idx_docs data) i = Some row" and "length row = length (idx_fields data)"
    and "list_all closed_expr row" and "list_all (list_all plain_char) (idx_fields data)"
    and "the (map_of (bca_Attrs A) i) \<noteq> {}" and "the (map_of (bca_Attrs A) i) \<subseteq> set (idx_fields data)"
  shows "readable_update (update_of A data i)"
proof -
  let ?attrs = "the (map_of (bca_Attrs A) i)"
  let ?fv = "filter (\<lambda>fv. fst fv \<in> ?attrs) (zip (idx_fields data) row)"
  obtain f where f: "f \<in> ?attrs" "f \<in> set (idx_fields data)" using assms(5,6) by auto
  then obtain x where "(f, x) \<in> set (zip (idx_fields data) row)" using assms(2) by (metis in_set_impl_in_set_zip1)
  with f have "(f, x) \<in> set ?fv" by simp
  then have "?fv \<noteq> []" by (metis empty_iff list.set(1))
  moreover have "list_all (list_all plain_char) (map fst ?fv)" "list_all closed_expr (map snd ?fv)"
    using assms(3,4) by (auto simp: list_all_iff dest: set_zip_leftD set_zip_rightD)
  ultimately show ?thesis using assms(1) by (simp add: readable_update_def update_of_def Let_def)
qed

lemma part_plan_readable:
  assumes "ChangedAttrsByDocID E ics = Inr A" and "awf (ics_ChangedDocs ics)"
    and "fetchIndexData E' fmt_v result ds = Inr data" and "res_Fields result \<noteq> []" and "readable_source index ds result"
  shows "readable_set (part_plan index A data ds (bca_ChangedDocIDs A) k)"
proof -
  have fields: "idx_fields data = res_Fields result" using fetchIndexData_lengths[OF assms(3)] by simp
  have types: "\<forall>ft\<in>set (scd_fieldTypes (sc_details ds)). closed_type (snd ft)"
    using assms(5) by (simp add: readable_source_def list_all_iff)
  have row: "length row = length (idx_fields data) \<and> row \<noteq> [] \<and> list_all closed_expr row"
    if "map_of (idx_docs data) i = Some row" for i row
  proof -
    have "length row = length (idx_fields data)" using fetchIndexData_lengths[OF assms(3)] that by blast
    then show ?thesis using fetchIndexData_closed[OF assms(3) types that] assms(4) fields by auto
  qed
  have sorted: "attrs_sorted E (ics_ChangedDocs ics) A"
    using ChangedAttrsByDocID_fold[OF assms(2)] assms(1) by (simp add: ChangedAttrsByDocID_def)
  have "readable_update (update_of A data i)" if i: "i \<in> set (bca_ChangedDocIDs A)" "is_updated A data ds i" for i
  proof -
    obtain r where r: "map_of (idx_docs data) i = Some r" using i(2) by (auto simp: is_updated_def is_deleted_def)
    show ?thesis
      using assms(5) i(2) row[OF r] fields changed_attrs_nonempty[OF sorted assms(2) i(1)]
      by (intro update_of_readable[OF r]) (auto simp: readable_source_def is_updated_def)
  qed
  moreover have "\<forall>r\<in>(\<lambda>i. the (map_of (idx_docs data) i)) ` {i. \<not> is_deleted data i}. r \<noteq> [] \<and> list_all closed_expr r"
    using row by (auto simp: is_deleted_def)
  ultimately show ?thesis
    using assms(4,5) fields
    by (auto simp: readable_set_def part_plan_def Let_def readable_source_def chunk_name_no_blank list_all_iff)
qed

lemma chunk_names_distinct: "distinct (map (\<lambda>k. IndexChunkName index parts (of_nat k)) [0..<unat parts])"
proof (cases "parts > 1")
  case True
  have bound: "unat parts < 2 ^ LENGTH(16)" by (rule unsigned_less)
  have "inj_on (\<lambda>k. IndexChunkName index parts (of_nat k)) {0..<unat parts}"
  proof (rule inj_onI)
    fix j k
    assume "j \<in> {0..<unat parts}" and "k \<in> {0..<unat parts}"
      and "IndexChunkName index parts (of_nat j) = IndexChunkName index parts (of_nat k)"
    moreover from this(1,2) have "unat (of_nat j :: 16 word) = j" "unat (of_nat k :: 16 word) = k"
      using bound by (simp_all add: unsigned_of_nat take_bit_nat_eq_self)
    ultimately show "j = k" using IndexChunkName_inject[OF True] by metis
  qed
  then show ?thesis by (simp add: distinct_map)
next
  case False
  then have "unat parts \<le> 1" by (simp add: word_less_nat_alt)
  then have "unat parts = 0 \<or> unat parts = 1" by linarith
  then show ?thesis by auto
qed

subsection \<open>The whole index\<close>

text \<open>The documents of an index after a batch: the changed ones as fetched, the others as they were.\<close>

definition brought_up_to_date ::
  "string \<Rightarrow> 16 word \<Rightarrow> 64 word list \<Rightarrow> indexDataFromDB \<Rightarrow> index_store \<Rightarrow> index_store \<Rightarrow> bool" where
  "brought_up_to_date index parts ids data st st' \<longleftrightarrow>
     (\<forall>k<unat parts. \<forall>i. st' (IndexChunkName index parts (of_nat k)) i =
        (if i \<in> set ids \<and> doc_part parts i = k then fetched_doc data i
         else st (IndexChunkName index parts (of_nat k)) i)) \<and>
     (\<forall>n. (\<forall>k<unat parts. n \<noteq> IndexChunkName index parts (of_nat k)) \<longrightarrow> st' n = st n)"

text \<open>What is stored of the documents that only get an update agrees with the fetched rows in the other fields.\<close>

definition stored_agrees :: "string \<Rightarrow> SourceConfig \<Rightarrow> BatchChangedAttrs \<Rightarrow> indexDataFromDB \<Rightarrow> index_store \<Rightarrow> bool" where
  "stored_agrees index ds A data st \<longleftrightarrow>
     (\<forall>i\<in>set (bca_ChangedDocIDs A). is_updated A data ds i \<longrightarrow>
        (\<exists>doc. st (IndexChunkName index (sc_Parts ds) (of_nat (doc_part (sc_Parts ds) i))) i = Some doc \<and>
           agrees_outside (the (map_of (bca_Attrs A) i)) data i doc))"

lemma exec_index_plan:
  assumes "ChangedAttrsByDocID E ics = Inr A" and "awf (ics_ChangedDocs ics)"
    and "fetchIndexData E fmt_v result ds = Inr data" and "sc_Parts ds \<noteq> 0"
    and "names_columns result" and "id_field ds idField" and "idField \<in> set (res_Fields result)"
    and "readable_source index ds result" and "stored_agrees index ds A data st"
  shows "\<exists>st'. exec_texts idField (index_plan index A data ds) st = Some st' \<and>
     brought_up_to_date index (sc_Parts ds) (bca_ChangedDocIDs A) data st st'"
proof -
  let ?n = "unat (sc_Parts ds)" and ?name = "\<lambda>k. IndexChunkName index (sc_Parts ds) (of_nat k)"
  let ?plan = "part_plan index A data ds (bca_ChangedDocIDs A)"
  let ?qs = "map ?plan [0..<?n]"
  have index: "qs_index (?plan k) = ?name k" for k by (simp add: part_plan_def Let_def)
  have "res_Fields result \<noteq> []" using assms(7) by (metis empty_iff list.set(1))
  then have "list_all readable_set ?qs"
    using part_plan_readable[OF assms(1-3) _ assms(8)] by (simp add: list_all_iff)
  moreover have "distinct (map qs_index ?qs)"
    using chunk_names_distinct[of index "sc_Parts ds"] by (simp add: comp_def index)
  ultimately obtain st' where st': "exec_texts idField (concat (map query_plan ?qs)) st = Some st'"
    "\<forall>q\<in>set ?qs. st' (qs_index q) = apply_query_set idField q (st (qs_index q))"
    "\<forall>m. m \<notin> qs_index ` set ?qs \<longrightarrow> st' m = st m"
    using exec_query_plans by blast
  have "\<exists>qs. fillQueryBatch (newQueryBatch index (idx_fields data) (sc_Parts ds)) A data ds = Inr qs \<and>
     (\<forall>k i. k < ?n \<longrightarrow> apply_query_set idField (qs ! k) (st (?name k)) i =
        (if i \<in> set (bca_ChangedDocIDs A) \<and> doc_part (sc_Parts ds) i = k then fetched_doc data i else st (?name k) i))"
    using assms(9) by (intro plan_makes_current[OF assms(1-7)]) (simp add: stored_agrees_def)
  then have "apply_query_set idField (?plan k) (st (?name k)) i =
      (if i \<in> set (bca_ChangedDocIDs A) \<and> doc_part (sc_Parts ds) i = k then fetched_doc data i else st (?name k) i)"
    if "k < ?n" for k i using batch_plan(1)[OF assms(1-4), of index] that by auto
  then have "brought_up_to_date index (sc_Parts ds) (bca_ChangedDocIDs A) data st st'"
    using st'(2,3) by (auto simp: brought_up_to_date_def index image_iff)
  with st'(1) show ?thesis by (auto simp: index_plan_def comp_def)
qed

end
