(* ===== verification/Backend_Store.thy ===== *)
theory Backend_Store
  imports Statement_Effect
begin

text \<open>
  From a batch that succeeds to the documents of every backend: a backend that executes statements as documented is
  brought up to date by the statements it is sent, also when a statement had to be sent again after a lost
  connection.
\<close>

subsection \<open>Statements can be sent twice\<close>

lemma fold_replace_add: "\<exists>M. \<forall>docs. fold (replace_doc idField flds) rows docs = docs ++ M"
proof (induction rows)
  case (Cons row rows)
  then obtain M where M: "\<And>docs. fold (replace_doc idField flds) rows docs = docs ++ M" by blast
  have "replace_doc idField flds row docs =
      docs ++ (case row_id idField flds row of None \<Rightarrow> Map.empty | Some i \<Rightarrow> [i \<mapsto> map_of (zip flds row)])" for docs
    by (simp add: replace_doc_def split: option.split)
  then have "fold (replace_doc idField flds) (row # rows) docs =
      docs ++ ((case row_id idField flds row of None \<Rightarrow> Map.empty | Some i \<Rightarrow> [i \<mapsto> map_of (zip flds row)]) ++ M)" for docs
    by (simp only: fold_simps M map_add_assoc)
  then show ?case by blast
qed (rule exI[of _ Map.empty], simp)

lemma map_add_twice [simp]: "m ++ n ++ n = m ++ n"
  by (auto simp: map_add_def fun_eq_iff split: option.split)

lemma exec_statement_twice:
  "exec_statement idField s (exec_statement idField s st) = exec_statement idField s st"
proof (cases s)
  case (Replace index flds rows)
  obtain M where "\<And>docs. fold (replace_doc idField flds) rows docs = docs ++ M" using fold_replace_add by blast
  with Replace show ?thesis by simp
next
  case (Delete index ids)
  then show ?thesis by (auto simp: fun_eq_iff fold_delete)
next
  case (Update index sets i)
  then show ?thesis by (auto simp: fun_eq_iff option.map_comp comp_def)
qed

lemma exec_text_twice: "exec_text idField s st = Some st' \<Longrightarrow> exec_text idField s st' = Some st'"
  by (auto simp: exec_text_def exec_statement_twice)

subsection \<open>A backend with documents\<close>

text \<open>
  \<open>docs\<close> is the document part of a backend's state. An answered statement has its documented effect, one that fails
  may or may not have had it; connecting and waiting leave the documents alone.
\<close>

definition executes_documented :: "'b sph_env \<Rightarrow> ('b \<Rightarrow> index_store) \<Rightarrow> string \<Rightarrow> bool" where
  "executes_documented S docs idField \<longleftrightarrow>
     (\<forall>stmt b st'. exec_text idField stmt (docs b) = Some st' \<longrightarrow>
        docs (fst (se_execute S stmt b)) = st' \<or>
        (\<exists>e. snd (se_execute S stmt b) = Inl e) \<and> docs (fst (se_execute S stmt b)) = docs b) \<and>
     (\<forall>b. docs (fst (se_close S b)) = docs b) \<and>
     (\<forall>addr b. docs (fst (se_connect S addr b)) = docs b) \<and>
     (\<forall>pause b. docs (se_sleep S pause b) = docs b)"

abbreviation conn_docs :: "('b \<Rightarrow> index_store) \<Rightarrow> 'b SphConn \<Rightarrow> index_store" where
  "conn_docs docs c \<equiv> docs (conn_backend c)"

lemma reconnect_docs:
  "executes_documented S docs idField \<Longrightarrow> conn_docs docs (fst (reconnect S c)) = conn_docs docs c"
  by (auto simp: executes_documented_def reconnect_def Let_def split: sum.splits option.splits)

lemma retry_loop_docs:
  assumes "executes_documented S docs idField"
  shows "conn_docs docs (fst (retry_loop S pause c)) = conn_docs docs c"
proof (induction c rule: retry_loop_induct[of S pause])
  case (stop c)
  then show ?case
    using assms by (simp add: reconnect_docs[OF assms] wait_and_count_def executes_documented_def)
next
  case (again c e)
  then show ?case
    using assms by (simp add: reconnect_docs[OF assms] wait_and_count_def executes_documented_def)
qed

lemma se_execute_docs:
  assumes "executes_documented S docs idField" and "exec_text idField stmt (docs b) = Some st'"
  shows "docs (fst (se_execute S stmt b)) = st' \<or>
     (\<exists>e. snd (se_execute S stmt b) = Inl e) \<and> docs (fst (se_execute S stmt b)) = docs b"
  using assms unfolding executes_documented_def by blast

lemma resend_docs:
  assumes "executes_documented S docs idField" and "exec_text idField stmt (conn_docs docs c) = Some st'"
    and "snd (resend S stmt c) = Inr r"
  shows "conn_docs docs (fst (resend S stmt c)) = st'"
  using se_execute_docs[OF assms(1,2)] assms(3) by (auto simp: resend_def Let_def)

lemma retry_docs:
  assumes "executes_documented S docs idField" and "exec_text idField stmt (conn_docs docs c) = Some st'"
    and "snd (retry S pause stmt c) = Inr r"
  shows "conn_docs docs (fst (retry S pause stmt c)) = st'"
proof -
  let ?c = "c\<lparr>conn_backend := fst (se_close S (conn_backend c))\<rparr>"
  let ?again = "bindS (retry_loop S pause) (\<lambda>_. resend S stmt) ?c"
  have run: "retry S pause stmt c = ?again" using assms(3) by (auto simp: retry_def Let_def split: option.splits if_splits)
  have "conn_docs docs ?c = conn_docs docs c" using assms(1) by (simp add: executes_documented_def)
  then have "exec_text idField stmt (conn_docs docs (fst (retry_loop S pause ?c))) = Some st'"
    using assms(2) by (simp add: retry_loop_docs[OF assms(1)])
  from resend_docs[OF assms(1) this] assms(3) show ?thesis
    unfolding run by (auto simp: bindS_cases split: sum.splits)
qed

lemma execute_docs:
  assumes "executes_documented S docs idField" and "exec_text idField stmt (conn_docs docs c) = Some st'"
    and "snd (execute S stmt c) = Inr r"
  shows "conn_docs docs (fst (execute S stmt c)) = st'"
proof (cases "snd (se_execute S stmt (conn_backend c))")
  case (Inr x)
  then show ?thesis using se_execute_docs[OF assms(1,2)] by (auto simp: execute_def Let_def)
next
  case (Inl e)
  let ?c = "c\<lparr>conn_backend := fst (se_execute S stmt (conn_backend c))\<rparr>"
  obtain err where err: "e = Fails err" "fst (canRetry S ?c err)"
    using assms(3) Inl by (cases e) (auto simp: execute_def Let_def split: if_splits)
  have run: "execute S stmt c = retry S (snd (canRetry S ?c err)) stmt ?c"
    using Inl err by (simp add: execute_def Let_def)
  have "exec_text idField stmt (conn_docs docs ?c) = Some st'"
    using se_execute_docs[OF assms(1,2)] assms(2) exec_text_twice[OF assms(2)] by auto
  from retry_docs[OF assms(1) this] assms(3) show ?thesis unfolding run by simp
qed

subsection \<open>Statements made on all backends\<close>

definition backends_made ::
  "('b \<Rightarrow> index_store) \<Rightarrow> string \<Rightarrow> string list \<Rightarrow> 'b SphConn list \<Rightarrow> 'b SphConn list \<Rightarrow> bool" where
  "backends_made docs idField stmts =
     list_all2 (\<lambda>c c'. \<forall>st'. exec_texts idField stmts (conn_docs docs c) = Some st' \<longrightarrow> conn_docs docs c' = st')"

text \<open>A call after whose success every backend that executes statements as documented has made the statements.\<close>

definition makes ::
  "('b, 'm) batch_env \<Rightarrow> ('b \<Rightarrow> index_store) \<Rightarrow> string \<Rightarrow> string list \<Rightarrow> (('b, 'm) engine, unit) call \<Rightarrow> bool" where
  "makes R docs idField stmts m \<longleftrightarrow>
     (\<forall>e conns. executes_documented (be_sphinx R) docs idField \<and> en_sph e = Some conns \<and> snd (m e) = Inr () \<longrightarrow>
        (\<exists>conns'. en_sph (fst (m e)) = Some conns' \<and> backends_made docs idField stmts conns conns'))"

lemma makesI:
  assumes "\<And>e conns. executes_documented (be_sphinx R) docs idField \<Longrightarrow> en_sph e = Some conns \<Longrightarrow>
     snd (m e) = Inr () \<Longrightarrow>
     \<exists>conns'. en_sph (fst (m e)) = Some conns' \<and> backends_made docs idField stmts conns conns'"
  shows "makes R docs idField stmts m"
  using assms unfolding makes_def by blast

lemma makesE:
  assumes "makes R docs idField stmts m" and "executes_documented (be_sphinx R) docs idField"
    and "en_sph e = Some conns" and "snd (m e) = Inr ()"
  obtains conns' where "en_sph (fst (m e)) = Some conns'" and "backends_made docs idField stmts conns conns'"
  using assms unfolding makes_def by blast

lemma backends_made_Nil: "backends_made docs idField [] conns conns"
  by (simp add: backends_made_def list.rel_refl)

lemma backends_made_append:
  assumes "backends_made docs idField xs c1 c2" and "backends_made docs idField ys c2 c3"
  shows "backends_made docs idField (xs @ ys) c1 c3"
  unfolding backends_made_def
  by (rule list_all2_trans[OF _ assms[unfolded backends_made_def]])
    (auto simp: exec_texts_append bindO_def split: option.splits)

lemma makes_bind:
  assumes "makes R docs idField xs m" and "makes R docs idField ys m'"
  shows "makes R docs idField (xs @ ys) (bindS m (\<lambda>_. m'))"
proof (rule makesI)
  fix e conns
  assume doc: "executes_documented (be_sphinx R) docs idField"
    and e: "en_sph e = Some conns" "snd (bindS m (\<lambda>_. m') e) = Inr ()"
  then have m: "snd (m e) = Inr ()" by (auto simp: bindS_cases split: sum.splits)
  then have run: "bindS m (\<lambda>_. m') e = m' (fst (m e))" by (simp add: bindS_Inr)
  obtain c2 where c2: "en_sph (fst (m e)) = Some c2" "backends_made docs idField xs conns c2"
    using makesE[OF assms(1) doc e(1) m] .
  obtain c3 where "en_sph (fst (m' (fst (m e)))) = Some c3" "backends_made docs idField ys c2 c3"
    using makesE[OF assms(2) doc c2(1)] e(2) run by auto
  with c2(2) run show "\<exists>conns'. en_sph (fst (bindS m (\<lambda>_. m') e)) = Some conns' \<and>
      backends_made docs idField (xs @ ys) conns conns'"
    using backends_made_append by auto
qed

lemma count_results_Inr:
  "length cs = length rs \<Longrightarrow> snd (count_results S i cs rs n) = Inr () \<Longrightarrow> \<forall>r\<in>set rs. \<exists>x. r = Inr x"
proof (induction S i cs rs n rule: count_results.induct)
  case (1 S i c cs r rs n)
  then show ?case by (auto split: sum.splits fault.splits)
qed auto

lemma makes_run_query: "makes R docs idField [stmt] (run_query R get upd stmt)"
proof (rule makesI)
  fix e conns
  assume doc: "executes_documented (be_sphinx R) docs idField"
    and e: "en_sph e = Some conns" "snd (run_query R get upd stmt e) = Inr ()"
  let ?run = "execute (be_sphinx R) stmt"
  have after: "en_sph (fst (run_query R get upd stmt e)) = Some (map (\<lambda>c. fst (?run c)) conns)"
    using e(1) by (simp add: run_query_def SphinxService_Query_def ExecuteInParallel_def request_all_def Let_def)
  have "\<forall>r\<in>set (map (\<lambda>c. snd (?run c)) conns). \<exists>x. r = Inr x"
    by (rule count_results_Inr[where S = "be_sphinx R" and i = 0 and cs = "map (\<lambda>c. fst (?run c)) conns"
        and n = "get (en_stat e)"])
      (use e in \<open>simp_all add: run_query_def SphinxService_Query_def ExecuteInParallel_def request_all_def Let_def\<close>)
  then have "backends_made docs idField [stmt] conns (map (\<lambda>c. fst (?run c)) conns)"
    using execute_docs[OF doc]
    by (auto simp: backends_made_def list_all2_map2 list.rel_eq bindO_def intro!: list.rel_refl_strong split: option.splits)
  with after show "\<exists>conns'. en_sph (fst (run_query R get upd stmt e)) = Some conns' \<and>
      backends_made docs idField [stmt] conns conns'" by blast
qed

interpretation making: statement_calls R "makes R docs idField"
  for R :: "('b, 'm) batch_env" and docs :: "'b \<Rightarrow> index_store" and idField
proof unfold_locales
  show "makes R docs idField [] (returnS (Inr ()))"
    by (rule makesI) (simp add: returnS_def backends_made_Nil)
  show "makes R docs idField [] (add_stat f)" for f
    by (rule makesI) (simp add: add_stat_def backends_made_Nil)
  show "makes R docs idField [[]] (returnS (Inl e))" for e
    by (rule makesI) (simp add: returnS_def)
qed (intro makes_bind makes_run_query; assumption)+

subsection \<open>An index change set\<close>

lemma index_made_current:
  assumes "map_of (be_DataSource R) (ics_Index ics) = Some ds"
    and "ChangedAttrsByDocID (be_go R) ics = Inr A" and "bca_ChangedDocIDs A \<noteq> []"
    and "buildSelectQuery (scd_queryTpl (sc_details ds)) (bca_ChangedDocIDs A) = Inr query"
    and "be_mysql R query (en_mysql e) = (my, Inr result)"
    and "fetchIndexData (be_go R) (be_fmt_v R) result ds = Inr data"
    and "awf (ics_ChangedDocs ics)" and "sc_Parts ds \<noteq> 0"
    and "names_columns result" and "id_field ds idField" and "idField \<in> set (res_Fields result)"
    and "readable_source (ics_Index ics) ds result"
    and "executes_documented (be_sphinx R) docs idField" and "en_sph e = Some conns"
    and "\<forall>c\<in>set conns. stored_agrees (ics_Index ics) ds A data (docs (conn_backend c))"
    and "snd (doIndexChangeSet R ics e) = Inr ()"
  shows "\<exists>conns'. en_sph (fst (doIndexChangeSet R ics e)) = Some conns' \<and>
     list_all2 (\<lambda>c c'. brought_up_to_date (ics_Index ics) (sc_Parts ds) (bca_ChangedDocIDs A) data
       (docs (conn_backend c)) (docs (conn_backend c'))) conns conns'"
proof -
  let ?qs = "map (part_plan (ics_Index ics) A data ds (bca_ChangedDocIDs A)) [0..<unat (sc_Parts ds)]"
  let ?plan = "index_plan (ics_Index ics) A data ds"
  obtain e0 where e0: "sent R [] e e0" "doIndexChangeSet R ics e = eachS (executeQuerySet R) ?qs e0"
    using doIndexChangeSet_run[OF assms(1-8)] by blast
  have conns: "en_sph e0 = Some conns" using e0(1) assms(14) by (simp add: sent_def)
  obtain conns' where conns': "en_sph (fst (eachS (executeQuerySet R) ?qs e0)) = Some conns'"
    "backends_made docs idField (concat (map query_plan ?qs)) conns conns'"
    by (rule makesE[OF making.holds_query_sets assms(13) conns]) (use assms(16) e0(2) in auto)
  have plan: "concat (map query_plan ?qs) = ?plan" by (simp add: index_plan_def comp_def)
  have "list_all2 (\<lambda>c c'. brought_up_to_date (ics_Index ics) (sc_Parts ds) (bca_ChangedDocIDs A) data
       (docs (conn_backend c)) (docs (conn_backend c'))) conns conns'"
    using conns'(2) unfolding backends_made_def plan
  proof (rule list.rel_mono_strong)
    fix c c'
    assume c: "c \<in> set conns" and
      made: "\<forall>st'. exec_texts idField ?plan (conn_docs docs c) = Some st' \<longrightarrow> conn_docs docs c' = st'"
    have "stored_agrees (ics_Index ics) ds A data (conn_docs docs c)" using assms(15) c by blast
    with made exec_index_plan[OF assms(2,7,6,8,9-12) this]
    show "brought_up_to_date (ics_Index ics) (sc_Parts ds) (bca_ChangedDocIDs A) data (conn_docs docs c) (conn_docs docs c')"
      by auto
  qed
  with conns'(1) e0(2) show ?thesis by auto
qed

subsection \<open>Samples\<close>

text \<open>A backend that is its documents, and the batch environment with it.\<close>

definition doc_backend_env :: "index_store sph_env" where
  "doc_backend_env = \<lparr>se_execute = (\<lambda>stmt b. case exec_text ''id'' stmt b of
        Some b' \<Rightarrow> (b', Inr (sample_result GNil [])) | None \<Rightarrow> (b, Inl (Fails (ErrMsg ''syntax error'')))),
     se_close = (\<lambda>b. (b, None)), se_connect = (\<lambda>_ b. (b, None)), se_sleep = (\<lambda>_ b. b),
     se_is_bad_conn = (\<lambda>_. False), se_error_text = (\<lambda>_. []), se_remote_addr = (\<lambda>_. [])\<rparr>"

lemma doc_backend_documented: "executes_documented doc_backend_env (\<lambda>b. b) ''id''"
  by (simp add: executes_documented_def doc_backend_env_def)

definition doc_batch_env :: "(index_store, unit) batch_env" where
  "doc_batch_env = \<lparr>be_sphinx = doc_backend_env, be_mysql = (\<lambda>_ m. (m, Inr doc_result)),
     be_go = plain_env, be_fmt_v = (\<lambda>_. []), be_DataSource = [(''i'', sample_source)]\<rparr>"

definition old_doc :: index_store where
  "old_doc = (\<lambda>_. [5 \<mapsto> [''id'' \<mapsto> ''5'', ''attr1'' \<mapsto> ''old'']])"

definition doc_engine :: "(index_store, unit) engine" where
  "doc_engine = \<lparr>en_stat = en_stat sample_engine, en_sph = Some [sample_conn old_doc], en_mysql = ()\<rparr>"

lemma doc_batch_succeeds: "snd (doIndexChangeSet doc_batch_env sample_ics doc_engine) = Inr ()"
  by code_simp

subsection \<open>Properties\<close>




text \<open>
  C24. A statement that is sent again has its effect once: if executing a statement succeeds, then whatever failed before,
  also when the first attempt had its effect but its answer was lost, the documents of the backend are those after
  executing the statement exactly once.
\<close>

theorem retried_statement_counts_once:
  assumes "executes_documented S docs idField" and "read_statement stmt = Some s"
    and "snd (execute S stmt c) = Inr r"
  shows "docs (conn_backend (fst (execute S stmt c))) = exec_statement idField s (docs (conn_backend c))"
  using execute_docs[OF assms(1) _ assms(3)] assms(2) by (simp add: exec_text_def)

text \<open>A backend that loses its first answer.\<close>

definition flaky_env :: "(bool \<times> index_store) sph_env" where
  "flaky_env = \<lparr>se_execute = (\<lambda>stmt b. case exec_text ''id'' stmt (snd b) of
        Some st \<Rightarrow> ((True, st), if fst b then Inr (sample_result GNil []) else Inl (Fails (ErrMsg ''lost'')))
      | None \<Rightarrow> (b, Inl (Fails (ErrMsg ''syntax error'')))),
     se_close = (\<lambda>b. (b, None)), se_connect = (\<lambda>_ b. (b, None)), se_sleep = (\<lambda>_ b. b),
     se_is_bad_conn = (\<lambda>e. e = ErrMsg ''lost''), se_error_text = (\<lambda>_. []), se_remote_addr = (\<lambda>_. [])\<rparr>"

lemma flaky_execute:
  "case snd (execute flaky_env ''DELETE FROM i WHERE id IN (5)'' (sample_conn (False, old_doc))) of
     Inr _ \<Rightarrow> True | Inl _ \<Rightarrow> False"
  by code_simp

theorem retried_statement_counts_once_witness:
  "snd (conn_backend (fst (execute flaky_env ''DELETE FROM i WHERE id IN (5)'' (sample_conn (False, old_doc))))) =
     exec_statement ''id'' (Delete ''i'' [5]) old_doc"
proof -
  obtain r where "snd (execute flaky_env ''DELETE FROM i WHERE id IN (5)'' (sample_conn (False, old_doc))) = Inr r"
    using flaky_execute by (auto split: sum.splits)
  moreover have "executes_documented flaky_env snd ''id''"
    by (auto simp: executes_documented_def flaky_env_def)
  moreover have "read_statement ''DELETE FROM i WHERE id IN (5)'' = Some (Delete ''i'' [5])" by code_simp
  ultimately show ?thesis
    using retried_statement_counts_once[of flaky_env snd "''id''"] by (simp add: sample_conn_def)
qed

end
