(* ===== verification/Batch_Store.thy ===== *)
theory Batch_Store
  imports Backend_Store
begin

text \<open>
  From an index change set to the whole batch: what a successful run has fetched, and that a successful batch over several
  indexes brings the changed documents of each of them up to date in every backend.
\<close>

subsection \<open>What a successful run has done\<close>

lemma doIndexChangeSet_success:
  assumes "snd (doIndexChangeSet R ics e) = Inr ()"
  obtains ds A where "map_of (be_DataSource R) (ics_Index ics) = Some ds" and "ChangedAttrsByDocID (be_go R) ics = Inr A"
    and "bca_ChangedDocIDs A = []" and "doIndexChangeSet R ics e = (e, Inr ())"
  | ds A query my result data where "map_of (be_DataSource R) (ics_Index ics) = Some ds"
    and "ChangedAttrsByDocID (be_go R) ics = Inr A" and "bca_ChangedDocIDs A \<noteq> []"
    and "buildSelectQuery (scd_queryTpl (sc_details ds)) (bca_ChangedDocIDs A) = Inr query"
    and "be_mysql R query (en_mysql e) = (my, Inr result)"
    and "fetchIndexData (be_go R) (be_fmt_v R) result ds = Inr data"
    and "en_mysql (fst (doIndexChangeSet R ics e)) = my"
proof -
  obtain ds where ds: "map_of (be_DataSource R) (ics_Index ics) = Some ds"
    using assms by (auto simp: doIndexChangeSet_def returnS_def split: option.splits)
  obtain A where A: "ChangedAttrsByDocID (be_go R) ics = Inr A"
    using assms ds by (auto simp: doIndexChangeSet_def bindS_cases returnS_def split: sum.splits)
  show thesis
  proof (cases "bca_ChangedDocIDs A = []")
    case True
    then have "doIndexChangeSet R ics e = (e, Inr ())"
      using ds A by (simp add: doIndexChangeSet_def bindS_cases returnS_def)
    with that(1) ds A True show thesis by blast
  next
    case False
    obtain query where query: "buildSelectQuery (scd_queryTpl (sc_details ds)) (bca_ChangedDocIDs A) = Inr query"
      using assms ds A False by (auto simp: doIndexChangeSet_def bindS_cases returnS_def split: sum.splits)
    obtain my result where my: "be_mysql R query (en_mysql e) = (my, Inr result)"
      using assms ds A False query
      by (cases "be_mysql R query (en_mysql e)")
        (auto simp: doIndexChangeSet_def bindS_cases returnS_def canal_Execute_def split: sum.splits)
    let ?e = "e\<lparr>en_mysql := my, en_stat := (en_stat e)\<lparr>st_ProcessedBatches := st_ProcessedBatches (en_stat e) + 1\<rparr>\<rparr>"
    obtain data where data: "fetchIndexData (be_go R) (be_fmt_v R) result ds = Inr data"
      using assms ds A False query my
      by (auto simp: doIndexChangeSet_def bindS_cases returnS_def canal_Execute_def add_stat_def split: sum.splits)
    obtain qs where "fillQueryBatch (newQueryBatch (ics_Index ics) (idx_fields data) (sc_Parts ds)) A data ds = Inr qs"
      using assms ds A False query my data
      by (auto simp: doIndexChangeSet_def bindS_cases returnS_def canal_Execute_def add_stat_def split: sum.splits)
    then have "doIndexChangeSet R ics e = eachS (executeQuerySet R) qs ?e"
      using ds A False query my data
      by (simp add: doIndexChangeSet_def bindS_cases returnS_def canal_Execute_def add_stat_def)
    moreover have "en_mysql (fst (eachS (executeQuerySet R) qs ?e)) = my"
      using keeping.holds_query_sets[of R qs] by (simp add: keeps_mysql_def)
    ultimately show thesis using that(2) ds A False query my data by simp
  qed
qed

subsection \<open>The documents of an index\<close>

text \<open>The names of the parts of an index.\<close>

definition part_names :: "string \<Rightarrow> 16 word \<Rightarrow> string set" where
  "part_names index parts = (\<lambda>k. IndexChunkName index parts (of_nat k)) ` {..<unat parts}"

text \<open>The document of an index with a given id, in the part it lives in.\<close>

definition stored_doc :: "string \<Rightarrow> 16 word \<Rightarrow> index_store \<Rightarrow> 64 word \<Rightarrow> (string \<Rightarrow> string option) option" where
  "stored_doc index parts st i = st (IndexChunkName index parts (of_nat (doc_part parts i))) i"

definition same_outside :: "string set \<Rightarrow> index_store \<Rightarrow> index_store \<Rightarrow> bool" where
  "same_outside names st st' \<longleftrightarrow> (\<forall>n. n \<notin> names \<longrightarrow> st' n = st n)"

lemma doc_part_less: "parts \<noteq> 0 \<Longrightarrow> doc_part parts i < unat parts"
  by (simp add: doc_part_def unat_gt_0)

lemma stored_doc_part: "parts \<noteq> 0 \<Longrightarrow> IndexChunkName index parts (of_nat (doc_part parts i)) \<in> part_names index parts"
  by (auto simp: part_names_def doc_part_less)

lemma brought_stored:
  assumes "brought_up_to_date index parts ids data st st'" and "parts \<noteq> 0"
  shows "stored_doc index parts st' i = (if i \<in> set ids then fetched_doc data i else stored_doc index parts st i)"
  using assms(1) doc_part_less[OF assms(2), of i]
  by (simp add: brought_up_to_date_def stored_doc_def)

lemma brought_outside:
  "brought_up_to_date index parts ids data st st' \<Longrightarrow> same_outside (part_names index parts) st st'"
  by (auto simp: brought_up_to_date_def same_outside_def part_names_def image_iff)

lemma same_outside_stored:
  assumes "same_outside names st st'" and "parts \<noteq> 0" and "part_names index parts \<inter> names = {}"
  shows "stored_doc index parts st' i = stored_doc index parts st i"
proof -
  have "IndexChunkName index parts (of_nat (doc_part parts i)) \<notin> names"
    using stored_doc_part[OF assms(2), of index i] assms(3) by blast
  with assms(1) show ?thesis by (simp add: same_outside_def stored_doc_def)
qed

lemma stored_agrees_iff:
  "stored_agrees index ds A data st \<longleftrightarrow>
     (\<forall>i\<in>set (bca_ChangedDocIDs A). is_updated A data ds i \<longrightarrow>
        (\<exists>doc. stored_doc index (sc_Parts ds) st i = Some doc \<and>
           agrees_outside (the (map_of (bca_Attrs A) i)) data i doc))"
  by (simp add: stored_agrees_def stored_doc_def)


subsection \<open>The MySQL server\<close>

text \<open>
  \<open>tables m\<close> are the tables of the server in state \<open>m\<close> and \<open>view index T i\<close> is the document \<open>i\<close> that the query of the index
  makes of the tables \<open>T\<close>. The server answers the query of an index for a list of ids with these documents, one
  column per field, and keeps its tables.
\<close>

definition serves_view ::
  "('b, 'm) batch_env \<Rightarrow> ('m \<Rightarrow> 't) \<Rightarrow> (string \<Rightarrow> 't \<Rightarrow> 64 word \<Rightarrow> (string \<Rightarrow> string option) option) \<Rightarrow> string \<Rightarrow> bool" where
  "serves_view R tables view idField \<longleftrightarrow>
     (\<forall>index ds ids query m m' result.
        map_of (be_DataSource R) index = Some ds \<and> buildSelectQuery (scd_queryTpl (sc_details ds)) ids = Inr query \<and>
        be_mysql R query m = (m', Inr result) \<longrightarrow>
        tables m' = tables m \<and> names_columns result \<and> id_field ds idField \<and> idField \<in> set (res_Fields result) \<and>
        readable_source index ds result \<and>
        (\<forall>data. fetchIndexData (be_go R) (be_fmt_v R) result ds = Inr data \<longrightarrow>
           (\<forall>i\<in>set ids. fetched_doc data i = view index (tables m) i)))"

text \<open>Every index has parts, and no part of one index is a part of another.\<close>

definition parts_apart :: "(string, SourceConfig) amap \<Rightarrow> bool" where
  "parts_apart sources \<longleftrightarrow>
     (\<forall>index ds. map_of sources index = Some ds \<longrightarrow> sc_Parts ds \<noteq> 0) \<and>
     (\<forall>i j ds ds'. i \<noteq> j \<and> map_of sources i = Some ds \<and> map_of sources j = Some ds' \<longrightarrow>
        part_names i (sc_Parts ds) \<inter> part_names j (sc_Parts ds') = {})"

definition source_names :: "('b, 'm) batch_env \<Rightarrow> string \<Rightarrow> string set" where
  "source_names R index =
     (case map_of (be_DataSource R) index of None \<Rightarrow> {} | Some ds \<Rightarrow> part_names index (sc_Parts ds))"

lemma source_names_apart:
  assumes "parts_apart (be_DataSource R)" and "i \<noteq> j" and "map_of (be_DataSource R) i = Some ds"
  shows "part_names i (sc_Parts ds) \<inter> source_names R j = {}"
  using assms by (auto simp: parts_apart_def source_names_def split: option.split)

subsection \<open>One index of a batch\<close>

text \<open>The changed documents are now as in the tables, the others as before.\<close>

definition refreshed ::
  "('b, 'm) batch_env \<Rightarrow> (string \<Rightarrow> 't \<Rightarrow> 64 word \<Rightarrow> (string \<Rightarrow> string option) option) \<Rightarrow> 't \<Rightarrow>
   IndexChangeSet \<Rightarrow> index_store \<Rightarrow> index_store \<Rightarrow> bool" where
  "refreshed R view T ics st st' \<longleftrightarrow>
     (\<forall>ds A i. map_of (be_DataSource R) (ics_Index ics) = Some ds \<and> ChangedAttrsByDocID (be_go R) ics = Inr A \<longrightarrow>
        stored_doc (ics_Index ics) (sc_Parts ds) st' i =
          (if i \<in> set (bca_ChangedDocIDs A) then view (ics_Index ics) T i
           else stored_doc (ics_Index ics) (sc_Parts ds) st i))"

text \<open>
  A document that will only get an attribute update, and is in the tables, is in the index and agrees with the tables in
  the fields that change detection does not report.
\<close>

definition updates_fit ::
  "('b, 'm) batch_env \<Rightarrow> (string \<Rightarrow> 't \<Rightarrow> 64 word \<Rightarrow> (string \<Rightarrow> string option) option) \<Rightarrow> 't \<Rightarrow>
   IndexChangeSet \<Rightarrow> index_store \<Rightarrow> bool" where
  "updates_fit R view T ics st \<longleftrightarrow>
     (\<forall>ds A i new. map_of (be_DataSource R) (ics_Index ics) = Some ds \<and> ChangedAttrsByDocID (be_go R) ics = Inr A \<and>
        i \<in> set (bca_ChangedDocIDs A) \<and> the (map_of (bca_Attrs A) i) \<subseteq> scd_attrFields (sc_details ds) \<and>
        view (ics_Index ics) T i = Some new \<longrightarrow>
        (\<exists>doc. stored_doc (ics_Index ics) (sc_Parts ds) st i = Some doc \<and>
           (\<forall>f. f \<notin> the (map_of (bca_Attrs A) i) \<longrightarrow> doc f = new f)))"

lemma updates_fit_agrees:
  assumes fit: "updates_fit R view T ics st"
    and ds: "map_of (be_DataSource R) (ics_Index ics) = Some ds" and A: "ChangedAttrsByDocID (be_go R) ics = Inr A"
    and fetched: "\<forall>i\<in>set (bca_ChangedDocIDs A). fetched_doc data i = view (ics_Index ics) T i"
    and fields: "scd_attrFields (sc_details ds) \<subseteq> set (idx_fields data)"
  shows "stored_agrees (ics_Index ics) ds A data st"
  unfolding stored_agrees_iff
proof (intro ballI impI)
  fix i
  assume i: "i \<in> set (bca_ChangedDocIDs A)" and upd: "is_updated A data ds i"
  then obtain new where new: "fetched_doc data i = Some new"
    by (auto simp: is_updated_def is_deleted_def fetched_doc_def)
  have attrs: "the (map_of (bca_Attrs A) i) \<subseteq> scd_attrFields (sc_details ds)" using upd by (simp add: is_updated_def)
  obtain doc where "stored_doc (ics_Index ics) (sc_Parts ds) st i = Some doc"
    "\<forall>f. f \<notin> the (map_of (bca_Attrs A) i) \<longrightarrow> doc f = new f"
    using fit ds A i attrs fetched new unfolding updates_fit_def by metis
  then show "\<exists>doc. stored_doc (ics_Index ics) (sc_Parts ds) st i = Some doc \<and>
      agrees_outside (the (map_of (bca_Attrs A) i)) data i doc"
    using attrs fields new by (intro exI[of _ doc]) (auto simp: agrees_outside_def)
qed

lemma refreshed_same: "ChangedAttrsByDocID (be_go R) ics = Inr A \<Longrightarrow> bca_ChangedDocIDs A = [] \<Longrightarrow> refreshed R view T ics st st"
  by (simp add: refreshed_def)

lemma index_refreshed:
  assumes serves: "serves_view R tables view idField" and apart: "parts_apart (be_DataSource R)"
    and doc: "executes_documented (be_sphinx R) docs idField"
    and ok: "snd (doIndexChangeSet R ics e) = Inr ()" and awf: "awf (ics_ChangedDocs ics)"
    and conns: "en_sph e = Some conns"
    and fit: "\<forall>c\<in>set conns. updates_fit R view (tables (en_mysql e)) ics (conn_docs docs c)"
  shows "tables (en_mysql (fst (doIndexChangeSet R ics e))) = tables (en_mysql e) \<and>
     (\<exists>conns'. en_sph (fst (doIndexChangeSet R ics e)) = Some conns' \<and>
        list_all2 (\<lambda>c c'. refreshed R view (tables (en_mysql e)) ics (conn_docs docs c) (conn_docs docs c') \<and>
          same_outside (source_names R (ics_Index ics)) (conn_docs docs c) (conn_docs docs c')) conns conns')"
  using ok
proof (cases rule: doIndexChangeSet_success)
  case (1 ds A)
  then show ?thesis
    using conns by (auto simp: refreshed_same same_outside_def intro!: list.rel_refl_strong)
next
  case (2 ds A query my result data)
  from serves 2(1,4,5) have served: "tables my = tables (en_mysql e)" "names_columns result" "id_field ds idField"
    "idField \<in> set (res_Fields result)" "readable_source (ics_Index ics) ds result"
    "\<forall>i\<in>set (bca_ChangedDocIDs A). fetched_doc data i = view (ics_Index ics) (tables (en_mysql e)) i"
    using 2(6) unfolding serves_view_def by blast+
  have parts: "sc_Parts ds \<noteq> 0" using apart 2(1) by (auto simp: parts_apart_def)
  have "scd_attrFields (sc_details ds) \<subseteq> set (idx_fields data)"
    using served(5) fetchIndexData_lengths[OF 2(6)] by (simp add: readable_source_def)
  then have "\<forall>c\<in>set conns. stored_agrees (ics_Index ics) ds A data (conn_docs docs c)"
    using fit updates_fit_agrees[of R view _ ics, OF _ 2(1,2) served(6)] by blast
  from index_made_current[OF 2(1-6) awf parts served(2-5) doc conns this ok]
  obtain conns' where conns': "en_sph (fst (doIndexChangeSet R ics e)) = Some conns'"
    "list_all2 (\<lambda>c c'. brought_up_to_date (ics_Index ics) (sc_Parts ds) (bca_ChangedDocIDs A) data
       (conn_docs docs c) (conn_docs docs c')) conns conns'" by blast
  have names: "source_names R (ics_Index ics) = part_names (ics_Index ics) (sc_Parts ds)"
    using 2(1) by (simp add: source_names_def)
  have "list_all2 (\<lambda>c c'. refreshed R view (tables (en_mysql e)) ics (conn_docs docs c) (conn_docs docs c') \<and>
      same_outside (source_names R (ics_Index ics)) (conn_docs docs c) (conn_docs docs c')) conns conns'"
    using conns'(2)
  proof (rule list_all2_mono)
    fix c c'
    assume brought: "brought_up_to_date (ics_Index ics) (sc_Parts ds) (bca_ChangedDocIDs A) data
      (conn_docs docs c) (conn_docs docs c')"
    show "refreshed R view (tables (en_mysql e)) ics (conn_docs docs c) (conn_docs docs c') \<and>
      same_outside (source_names R (ics_Index ics)) (conn_docs docs c) (conn_docs docs c')"
      using brought_stored[OF brought parts] brought_outside[OF brought] 2(1,2) served(6) names
      by (auto simp: refreshed_def)
  qed
  with conns'(1) served(1) 2(7) show ?thesis by auto
qed


subsection \<open>All indexes of a batch\<close>

lemma refreshed_frame:
  assumes "refreshed R view T ics st1 st1'" and "parts_apart (be_DataSource R)"
    and "same_outside N st st1" and "same_outside N st1' st'"
    and "\<forall>ds. map_of (be_DataSource R) (ics_Index ics) = Some ds \<longrightarrow> part_names (ics_Index ics) (sc_Parts ds) \<inter> N = {}"
  shows "refreshed R view T ics st st'"
  unfolding refreshed_def
proof (intro allI impI, elim conjE)
  fix ds A i
  assume ds: "map_of (be_DataSource R) (ics_Index ics) = Some ds" and A: "ChangedAttrsByDocID (be_go R) ics = Inr A"
  have "sc_Parts ds \<noteq> 0" using assms(2) ds by (auto simp: parts_apart_def)
  note same = same_outside_stored[OF assms(3) this] same_outside_stored[OF assms(4) this]
  show "stored_doc (ics_Index ics) (sc_Parts ds) st' i =
      (if i \<in> set (bca_ChangedDocIDs A) then view (ics_Index ics) T i else stored_doc (ics_Index ics) (sc_Parts ds) st i)"
    using assms(1,5) ds A same by (simp add: refreshed_def)
qed

lemma updates_fit_frame:
  assumes "updates_fit R view T ics st" and "parts_apart (be_DataSource R)" and "same_outside N st st1"
    and "\<forall>ds. map_of (be_DataSource R) (ics_Index ics) = Some ds \<longrightarrow> part_names (ics_Index ics) (sc_Parts ds) \<inter> N = {}"
  shows "updates_fit R view T ics st1"
  unfolding updates_fit_def
proof (intro allI impI, elim conjE)
  fix ds A i new
  assume ds: "map_of (be_DataSource R) (ics_Index ics) = Some ds" and upd: "ChangedAttrsByDocID (be_go R) ics = Inr A"
    "i \<in> set (bca_ChangedDocIDs A)" "the (map_of (bca_Attrs A) i) \<subseteq> scd_attrFields (sc_details ds)"
    "view (ics_Index ics) T i = Some new"
  have "sc_Parts ds \<noteq> 0" using assms(2) ds by (auto simp: parts_apart_def)
  with same_outside_stored[OF assms(3) this] assms(4) ds
  have "stored_doc (ics_Index ics) (sc_Parts ds) st1 i = stored_doc (ics_Index ics) (sc_Parts ds) st i" by blast
  with assms(1) ds upd show "\<exists>doc. stored_doc (ics_Index ics) (sc_Parts ds) st1 i = Some doc \<and>
      (\<forall>f. f \<notin> the (map_of (bca_Attrs A) i) \<longrightarrow> doc f = new f)"
    unfolding updates_fit_def by metis
qed

text \<open>What a list of index change sets does to the documents of one backend.\<close>

definition all_refreshed ::
  "('b, 'm) batch_env \<Rightarrow> (string \<Rightarrow> 't \<Rightarrow> 64 word \<Rightarrow> (string \<Rightarrow> string option) option) \<Rightarrow> 't \<Rightarrow>
   IndexChangeSet list \<Rightarrow> index_store \<Rightarrow> index_store \<Rightarrow> bool" where
  "all_refreshed R view T L st st' \<longleftrightarrow>
     (\<forall>ics\<in>set L. refreshed R view T ics st st') \<and> same_outside (\<Union>ics\<in>set L. source_names R (ics_Index ics)) st st'"

lemma all_refreshed_Cons:
  assumes apart: "parts_apart (be_DataSource R)" and fresh: "ics_Index ics \<notin> ics_Index ` set L"
    and first: "refreshed R view T ics st st1" "same_outside (source_names R (ics_Index ics)) st st1"
    and rest: "all_refreshed R view T L st1 st'"
  shows "all_refreshed R view T (ics # L) st st'"
proof -
  let ?N = "\<Union>i\<in>set L. source_names R (ics_Index i)"
  have out: "same_outside ?N st1 st'" using rest by (simp add: all_refreshed_def)
  have "part_names (ics_Index ics) (sc_Parts ds) \<inter> ?N = {}"
    if "map_of (be_DataSource R) (ics_Index ics) = Some ds" for ds
  proof -
    have "ics_Index ics \<noteq> ics_Index i" if "i \<in> set L" for i using fresh that by (metis imageI)
    with source_names_apart[OF apart _ that] show ?thesis by (simp add: Int_UN_distrib)
  qed
  then have "refreshed R view T ics st st'"
    using refreshed_frame[OF first(1) apart _ out] by (simp add: same_outside_def)
  moreover have "refreshed R view T i st st'" if i: "i \<in> set L" for i
  proof (rule refreshed_frame[OF _ apart first(2)])
    show "refreshed R view T i st1 st'" using rest i by (simp add: all_refreshed_def)
    show "same_outside (source_names R (ics_Index ics)) st' st'" by (simp add: same_outside_def)
    have other: "ics_Index i \<noteq> ics_Index ics" using fresh i by (metis imageI)
    then show "\<forall>ds. map_of (be_DataSource R) (ics_Index i) = Some ds \<longrightarrow>
        part_names (ics_Index i) (sc_Parts ds) \<inter> source_names R (ics_Index ics) = {}"
      using source_names_apart[OF apart other] by simp
  qed
  moreover have "same_outside (\<Union>i\<in>set (ics # L). source_names R (ics_Index i)) st st'"
    using first(2) out by (simp add: same_outside_def)
  ultimately show ?thesis by (simp add: all_refreshed_def)
qed

lemma list_all2_member: "list_all2 P xs ys \<Longrightarrow> y \<in> set ys \<Longrightarrow> \<exists>x\<in>set xs. P x y"
  by (induction xs ys rule: list_all2_induct) auto

text \<open>The documents of the other indexes still fit their updates.\<close>

lemma later_updates_fit:
  assumes apart: "parts_apart (be_DataSource R)" and fresh: "ics_Index ics \<notin> ics_Index ` set L"
    and fit: "\<forall>c\<in>set conns. \<forall>i\<in>set L. updates_fit R view T i (conn_docs docs c)"
    and step: "list_all2 (\<lambda>c c'. P c c' \<and> same_outside (source_names R (ics_Index ics)) (conn_docs docs c) (conn_docs docs c'))
      conns conns'"
  shows "\<forall>c'\<in>set conns'. \<forall>i\<in>set L. updates_fit R view T i (conn_docs docs c')"
proof (intro ballI)
  fix c' i
  assume c': "c' \<in> set conns'" and i: "i \<in> set L"
  obtain c where c: "c \<in> set conns" "same_outside (source_names R (ics_Index ics)) (conn_docs docs c) (conn_docs docs c')"
    using list_all2_member[OF step c'] by blast
  show "updates_fit R view T i (conn_docs docs c')"
  proof (rule updates_fit_frame[OF _ apart c(2)])
    show "updates_fit R view T i (conn_docs docs c)" using fit c(1) i by simp
    have other: "ics_Index i \<noteq> ics_Index ics" using fresh i by (metis imageI)
    then show "\<forall>ds. map_of (be_DataSource R) (ics_Index i) = Some ds \<longrightarrow>
        part_names (ics_Index i) (sc_Parts ds) \<inter> source_names R (ics_Index ics) = {}"
      using source_names_apart[OF apart other] by simp
  qed
qed

lemma index_sets_refreshed:
  assumes "serves_view R tables view idField" and "parts_apart (be_DataSource R)"
    and "executes_documented (be_sphinx R) docs idField"
    and "snd (eachS (doIndexChangeSet R) L e) = Inr ()" and "\<forall>ics\<in>set L. awf (ics_ChangedDocs ics)"
    and "distinct (map ics_Index L)" and "en_sph e = Some conns"
    and "\<forall>c\<in>set conns. \<forall>ics\<in>set L. updates_fit R view (tables (en_mysql e)) ics (conn_docs docs c)"
  shows "tables (en_mysql (fst (eachS (doIndexChangeSet R) L e))) = tables (en_mysql e) \<and>
     (\<exists>conns'. en_sph (fst (eachS (doIndexChangeSet R) L e)) = Some conns' \<and>
        list_all2 (\<lambda>c c'. all_refreshed R view (tables (en_mysql e)) L (conn_docs docs c) (conn_docs docs c')) conns conns')"
  using assms(4-8)
proof (induction L arbitrary: e conns)
  case Nil
  then show ?case
    by (auto simp: returnS_def all_refreshed_def same_outside_def intro!: list.rel_refl_strong)
next
  case (Cons ics L)
  let ?e = "fst (doIndexChangeSet R ics e)" and ?T = "tables (en_mysql e)"
  have ok: "snd (doIndexChangeSet R ics e) = Inr ()" and ok': "snd (eachS (doIndexChangeSet R) L ?e) = Inr ()"
    using Cons.prems(1) by (auto simp: bindS_cases split: sum.splits)
  have run: "eachS (doIndexChangeSet R) (ics # L) e = eachS (doIndexChangeSet R) L ?e"
    using ok by (simp add: bindS_cases)
  have "\<forall>c\<in>set conns. updates_fit R view ?T ics (conn_docs docs c)" using Cons.prems(5) by simp
  from index_refreshed[OF assms(1-3) ok _ Cons.prems(4) this] Cons.prems(2)
  obtain c1 where c1: "tables (en_mysql ?e) = ?T" "en_sph ?e = Some c1"
    "list_all2 (\<lambda>c c'. refreshed R view ?T ics (conn_docs docs c) (conn_docs docs c') \<and>
      same_outside (source_names R (ics_Index ics)) (conn_docs docs c) (conn_docs docs c')) conns c1" by auto
  have fresh: "ics_Index ics \<notin> ics_Index ` set L" using Cons.prems(3) by simp
  have "\<forall>c\<in>set conns. \<forall>i\<in>set L. updates_fit R view ?T i (conn_docs docs c)" using Cons.prems(5) by simp
  note fits = later_updates_fit[OF assms(2) fresh this c1(3)]
  from Cons.IH[OF ok' _ _ c1(2)] fits Cons.prems(2,3) c1(1)
  obtain conns' where conns': "tables (en_mysql (fst (eachS (doIndexChangeSet R) L ?e))) = ?T"
    "en_sph (fst (eachS (doIndexChangeSet R) L ?e)) = Some conns'"
    "list_all2 (\<lambda>c c'. all_refreshed R view ?T L (conn_docs docs c) (conn_docs docs c')) c1 conns'" by auto
  have "list_all2 (\<lambda>c c'. all_refreshed R view ?T (ics # L) (conn_docs docs c) (conn_docs docs c')) conns conns'"
    by (rule list_all2_trans[OF _ c1(3) conns'(3)]) (blast intro: all_refreshed_Cons[OF assms(2) fresh])
  with conns' show ?case unfolding run by blast
qed

lemma batch_refreshed:
  assumes "serves_view R tables view idField" and "parts_apart (be_DataSource R)"
    and "executes_documented (be_sphinx R) docs idField"
    and "snd (doBatch R batch e) = Inr ()" and "\<forall>ics\<in>snd ` set (bcs_Changes batch). awf (ics_ChangedDocs ics)"
    and "distinct (map ics_Index (map snd (bcs_Changes batch)))" and "en_sph e = Some conns"
    and "\<forall>c\<in>set conns. \<forall>ics\<in>snd ` set (bcs_Changes batch). updates_fit R view (tables (en_mysql e)) ics (conn_docs docs c)"
  shows "tables (en_mysql (fst (doBatch R batch e))) = tables (en_mysql e) \<and>
     (\<exists>conns'. en_sph (fst (doBatch R batch e)) = Some conns' \<and>
        list_all2 (\<lambda>c c'. all_refreshed R view (tables (en_mysql e)) (map snd (bcs_Changes batch))
          (conn_docs docs c) (conn_docs docs c')) conns conns')"
proof -
  have run: "doBatch R batch e = eachS (doIndexChangeSet R) (map snd (bcs_Changes batch)) e"
    by (auto simp: doBatch_def)
  show ?thesis
    using assms(4-8) unfolding run by (intro index_sets_refreshed[OF assms(1-3)]) simp_all
qed

end
