(* ===== verification/Ingest.thy ===== *)
theory Ingest
  imports Row_Change Source_Config "HOL-Library.Char_ord" "HOL-Library.List_Lexorder"
begin

text \<open>
  \<open>src/river/rule.go\<close>: how a replication row event becomes row changes of documents. An ingest
  rule selects a table, names the column that holds the document id and maps columns to index
  attributes; a JSON column can contribute the members of its object as columns. Also the
  per-row notification of the NATS publisher and the application of a whole rule set.

  \<open>canal.RowsEvent\<close> and \<open>schema.Table\<close> are library types of which the code reads the table's
  printed name, its column names and key columns, the action and the rows.
\<close>

record rows_event =
  ev_Table :: string
  ev_Columns :: "string list"
  ev_PKColumns :: "nat list"
  ev_Action :: string
  ev_Rows :: "row list"
  ev_Timestamp :: "32 word"

record IngestRule =
  ir_TableName :: string
  ir_DocIDField :: string
  ir_Index :: string
  ir_ColumnMap :: column_map
  ir_JsonColumnName :: string
  ir_JsonTypeName :: string
  ir_JsonTypeValue :: int

subsection \<open>Configuration checks\<close>

fun checkColumnMap :: "column_map \<Rightarrow> SourceConfig \<Rightarrow> unit result" where
  "checkColumnMap [] dataSource = Inr ()"
| "checkColumnMap ((col, fs) # m) dataSource =
     (case filter (\<lambda>f. map_of (scd_fieldTypes (sc_details dataSource)) f = None) fs of
        f # _ \<Rightarrow> Inl (Fails (ErrMsg (''unknown field '' @ squote f)))
      | [] \<Rightarrow> checkColumnMap m dataSource)"

definition IngestRule_check :: "IngestRule \<Rightarrow> (string, SourceConfig) amap \<Rightarrow> unit result" where
  "IngestRule_check r sources =
     (case map_of sources (ir_Index r) of
        None \<Rightarrow> Inl (Fails (ErrMsg (''no datasource for index '' @ squote (ir_Index r))))
      | Some dataSource \<Rightarrow>
          if \<not> hasTable dataSource (ir_TableName r)
          then Inl (Fails (ErrMsg (''table '' @ squote (ir_TableName r) @
                 '' is absent in datasource for index '' @ squote (ir_Index r))))
          else if ir_ColumnMap r = [] then Inl (Fails (ErrMsg ''empty column_map''))
          else checkColumnMap (ir_ColumnMap r) dataSource)"

subsection \<open>Reading an event\<close>

definition columnNames :: "rows_event \<Rightarrow> string list" where
  "columnNames e = ev_Columns e"

definition realPKColumns :: "rows_event \<Rightarrow> nat list" where
  "realPKColumns e = (if ev_PKColumns e \<noteq> [] then ev_PKColumns e else [0..<length (ev_Columns e)])"

fun find_index :: "string \<Rightarrow> string list \<Rightarrow> nat option" where
  "find_index x [] = None"
| "find_index x (y # ys) = (if x = y then Some 0 else map_option Suc (find_index x ys))"

definition fieldIndex :: "rows_event \<Rightarrow> string \<Rightarrow> nat result" where
  "fieldIndex e fieldName =
     (case find_index fieldName (ev_Columns e) of
        Some i \<Rightarrow> Inr i
      | None \<Rightarrow> Inl (Fails (ErrMsg (''field '' @ fieldName @ '' not found in binlog event ''))))"

definition rowCount :: "rows_event \<Rightarrow> nat" where
  "rowCount e = (if ev_Action e = UpdateAction then length (ev_Rows e) div 2 else length (ev_Rows e))"

text \<open>True as soon as one row of the event has the type; an error before that is returned.\<close>

fun isJsonRowTypeValid :: "go_env \<Rightarrow> row list \<Rightarrow> nat \<Rightarrow> int \<Rightarrow> bool result" where
  "isJsonRowTypeValid E [] typColNo typColVal = Inr False"
| "isJsonRowTypeValid E (r # rs) typColNo typColVal =
     bindR (go_index r typColNo) (\<lambda>v.
     bindR (checked (CoerceToUint32 E v)) (\<lambda>typId.
       if int (unat typId) = typColVal then Inr True
       else isJsonRowTypeValid E rs typColNo typColVal))"

subsection \<open>Filtering columns\<close>

text \<open>
  The filtered row has one slot per entry of the column map, filled from the left; writing past
  the last slot is an index panic. \<open>slots\<close> is what has been written so far.
\<close>

definition put_slot :: "nat \<Rightarrow> string \<Rightarrow> gval \<Rightarrow> (string \<times> gval) list \<Rightarrow> (string \<times> gval) list result" where
  "put_slot n col v slots =
     (if length slots < n then Inr (slots @ [(col, v)]) else Inl (Panics IndexOutOfRange))"

text \<open>
  The members of a JSON column's object that are mapped columns, in sorted key order
  (\<open>sort.Strings\<close> compares bytes).
\<close>

definition put_members ::
  "column_map \<Rightarrow> (string \<times> gval) list \<Rightarrow> (string \<times> gval) list \<Rightarrow> (string \<times> gval) list result" where
  "put_members cm obj slots =
     foldR (\<lambda>s kv. if map_of cm (fst kv) \<noteq> None then put_slot (length cm) (fst kv) (snd kv) s
                   else Inr s) slots (sort_key fst obj)"

definition filter_step ::
  "go_env \<Rightarrow> IngestRule \<Rightarrow> string \<Rightarrow> gval \<Rightarrow> (string \<times> gval) list \<Rightarrow> (string \<times> gval) list result" where
  "filter_step E r col v slots =
     (let take = (if map_of (ir_ColumnMap r) col \<noteq> None
                  then put_slot (length (ir_ColumnMap r)) col v slots else Inr slots)
      in (case v of
            GBytes data \<Rightarrow>
              if col = ir_JsonColumnName r
              then (case unmarshal E data of
                      None \<Rightarrow> Inr slots
                    | Some obj \<Rightarrow> put_members (ir_ColumnMap r) obj slots)
              else take
          | _ \<Rightarrow> take))"

text \<open>The loop over the columns; a row shorter than the column list is an index panic.\<close>

fun filter_loop ::
  "go_env \<Rightarrow> IngestRule \<Rightarrow> string list \<Rightarrow> row \<Rightarrow> (string \<times> gval) list \<Rightarrow> (string \<times> gval) list result" where
  "filter_loop E r [] vs slots = Inr slots"
| "filter_loop E r (col # cols) [] slots = Inl (Panics IndexOutOfRange)"
| "filter_loop E r (col # cols) (v # vs) slots =
     bindR (filter_step E r col v slots) (filter_loop E r cols vs)"

definition filterColumns ::
  "go_env \<Rightarrow> IngestRule \<Rightarrow> string list \<Rightarrow> row \<Rightarrow> (string list \<times> row) result" where
  "filterColumns E r columns vs =
     bindR (filter_loop E r columns vs []) (\<lambda>slots.
       let pad = length (ir_ColumnMap r) - length slots
       in Inr (map fst slots @ replicate pad [], map snd slots @ replicate pad GNil))"

subsection \<open>Row changes\<close>

text \<open>\<open>now\<close> is the reading of the rule's \<open>timeProvider\<close> for this change.\<close>

definition insertedTableRow ::
  "go_env \<Rightarrow> IngestRule \<Rightarrow> int \<Rightarrow> 64 word \<Rightarrow> nat list \<Rightarrow> string list \<Rightarrow> row \<Rightarrow> TableRowChange result" where
  "insertedTableRow E r now docID pkCols columns vs =
     bindR (newPrimaryKeyFromRow E pkCols vs) (\<lambda>pk.
     bindR (filterColumns E r columns vs) (\<lambda>f.
     Inr \<lparr>trc_Action = InsertAction, trc_Columns = fst f, trc_ColumnMap = ir_ColumnMap r,
          trc_DocID = docID, trc_EventID = 0, trc_Index = ir_Index r,
          trc_OldRow = emptyRow (snd f), trc_NewRow = snd f, trc_PK = pk,
          trc_TableName = ir_TableName r, trc_TS = now\<rparr>))"

definition updatedTableRow ::
  "go_env \<Rightarrow> IngestRule \<Rightarrow> int \<Rightarrow> 64 word \<Rightarrow> nat list \<Rightarrow> string list \<Rightarrow> row \<Rightarrow> row \<Rightarrow> TableRowChange result" where
  "updatedTableRow E r now docID pkCols columns oldRow newRow =
     bindR (newPrimaryKeyFromRow E pkCols oldRow) (\<lambda>pk.
     bindR (filterColumns E r columns oldRow) (\<lambda>old.
     bindR (filterColumns E r columns newRow) (\<lambda>new.
     Inr \<lparr>trc_Action = UpdateAction, trc_Columns = fst new, trc_ColumnMap = ir_ColumnMap r,
          trc_DocID = docID, trc_EventID = 0, trc_Index = ir_Index r,
          trc_OldRow = snd old, trc_NewRow = snd new, trc_PK = pk,
          trc_TableName = ir_TableName r, trc_TS = now\<rparr>)))"

definition deletedTableRow ::
  "go_env \<Rightarrow> IngestRule \<Rightarrow> int \<Rightarrow> 64 word \<Rightarrow> nat list \<Rightarrow> string list \<Rightarrow> row \<Rightarrow> TableRowChange result" where
  "deletedTableRow E r now docID pkCols columns vs =
     bindR (newPrimaryKeyFromRow E pkCols vs) (\<lambda>pk.
     bindR (filterColumns E r columns vs) (\<lambda>f.
     Inr \<lparr>trc_Action = DeleteAction, trc_Columns = fst f, trc_ColumnMap = ir_ColumnMap r,
          trc_DocID = docID, trc_EventID = 0, trc_Index = ir_Index r,
          trc_OldRow = snd f, trc_NewRow = emptyRow (snd f), trc_PK = pk,
          trc_TableName = ir_TableName r, trc_TS = now\<rparr>))"

definition row_doc_id :: "go_env \<Rightarrow> nat \<Rightarrow> row \<Rightarrow> 64 word result" where
  "row_doc_id E idColNo vs = bindR (go_index vs idColNo) (\<lambda>v. checked (CoerceToUint64 E v))"

text \<open>
  The three loops over the rows of an event. \<open>clock k\<close> is the reading of the rule's time
  provider when the \<open>k\<close>-th change of the event is made.
\<close>

fun makeInsertChangeSet ::
  "go_env \<Rightarrow> IngestRule \<Rightarrow> (nat \<Rightarrow> int) \<Rightarrow> nat list \<Rightarrow> string list \<Rightarrow> nat \<Rightarrow> nat \<Rightarrow> row list \<Rightarrow>
   TableRowChange list result" where
  "makeInsertChangeSet E r clock pkCols columns idColNo k [] = Inr []"
| "makeInsertChangeSet E r clock pkCols columns idColNo k (vs # rs) =
     bindR (row_doc_id E idColNo vs) (\<lambda>docID.
     bindR (insertedTableRow E r (clock k) docID pkCols columns vs) (\<lambda>c.
     bindR (makeInsertChangeSet E r clock pkCols columns idColNo (Suc k) rs) (\<lambda>cs.
     Inr (c # cs))))"

fun makeDeleteChangeSet ::
  "go_env \<Rightarrow> IngestRule \<Rightarrow> (nat \<Rightarrow> int) \<Rightarrow> nat list \<Rightarrow> string list \<Rightarrow> nat \<Rightarrow> nat \<Rightarrow> row list \<Rightarrow>
   TableRowChange list result" where
  "makeDeleteChangeSet E r clock pkCols columns idColNo k [] = Inr []"
| "makeDeleteChangeSet E r clock pkCols columns idColNo k (vs # rs) =
     bindR (row_doc_id E idColNo vs) (\<lambda>docID.
     bindR (deletedTableRow E r (clock k) docID pkCols columns vs) (\<lambda>c.
     bindR (makeDeleteChangeSet E r clock pkCols columns idColNo (Suc k) rs) (\<lambda>cs.
     Inr (c # cs))))"

definition new_doc_id :: "go_env \<Rightarrow> nat \<Rightarrow> 64 word \<Rightarrow> row \<Rightarrow> 64 word result" where
  "new_doc_id E idColNo oldDocID newRow =
     bindR (go_index newRow idColNo) (\<lambda>v.
       if v = GNil then Inr oldDocID else checked (CoerceToUint64 E v))"

text \<open>The rows of an update event come in pairs; a row without a partner is ignored.\<close>

fun makeUpdateChangeSet ::
  "go_env \<Rightarrow> IngestRule \<Rightarrow> (nat \<Rightarrow> int) \<Rightarrow> nat list \<Rightarrow> string list \<Rightarrow> nat \<Rightarrow> nat \<Rightarrow> row list \<Rightarrow>
   TableRowChange list result" where
  "makeUpdateChangeSet E r clock pkCols columns idColNo k (oldRow # newRow # rs) =
     bindR (row_doc_id E idColNo oldRow) (\<lambda>oldDocID.
     bindR (new_doc_id E idColNo oldDocID newRow) (\<lambda>newDocID.
       if oldDocID = newDocID
       then
         bindR (updatedTableRow E r (clock k) newDocID pkCols columns oldRow newRow) (\<lambda>c.
         bindR (makeUpdateChangeSet E r clock pkCols columns idColNo (k + 1) rs) (\<lambda>cs.
         Inr (c # cs)))
       else
         bindR (deletedTableRow E r (clock k) oldDocID pkCols columns oldRow) (\<lambda>c.
         bindR (insertedTableRow E r (clock (k + 1)) newDocID pkCols columns newRow) (\<lambda>d.
         bindR (makeUpdateChangeSet E r clock pkCols columns idColNo (k + 2) rs) (\<lambda>cs.
         Inr (c # d # cs))))))"
| "makeUpdateChangeSet E r clock pkCols columns idColNo k rs = Inr []"

subsection \<open>Applying rules\<close>

text \<open>\<open>None\<close> is the nil slice of a rule that does not apply to the event.\<close>

definition json_type_matches :: "go_env \<Rightarrow> IngestRule \<Rightarrow> rows_event \<Rightarrow> bool result" where
  "json_type_matches E r e =
     (if ir_JsonTypeValue r > 0
      then bindR (fieldIndex e (ir_JsonTypeName r)) (\<lambda>typColNo.
           isJsonRowTypeValid E (ev_Rows e) typColNo (ir_JsonTypeValue r))
      else Inr True)"

definition IngestRule_Apply ::
  "go_env \<Rightarrow> IngestRule \<Rightarrow> (nat \<Rightarrow> int) \<Rightarrow> rows_event \<Rightarrow> TableRowChange list option result" where
  "IngestRule_Apply E r clock e =
     (if ir_TableName r \<noteq> ev_Table e then Inr None
      else
        bindR (json_type_matches E r e) (\<lambda>ok.
          if \<not> ok then Inr None
          else
            bindR (fieldIndex e (ir_DocIDField r)) (\<lambda>idColNo.
              let pkCols = realPKColumns e; columns = columnNames e
              in bindR
                   (if ev_Action e = InsertAction
                    then makeInsertChangeSet E r clock pkCols columns idColNo 0 (ev_Rows e)
                    else if ev_Action e = UpdateAction
                    then makeUpdateChangeSet E r clock pkCols columns idColNo 0 (ev_Rows e)
                    else if ev_Action e = DeleteAction
                    then makeDeleteChangeSet E r clock pkCols columns idColNo 0 (ev_Rows e)
                    else Inl (Panics (PanicMsg ''unknown row event action'')))
                   (\<lambda>cs. Inr (Some cs)))))"

text \<open>
  The rules in order; the changes of a rule are sent to the sync channel before the next rule is
  applied, so an error leaves the changes of the earlier rules sent. The result is what was
  sent, whose length is the document count, and the error.
\<close>

fun apply_rules ::
  "go_env \<Rightarrow> (nat \<Rightarrow> nat \<Rightarrow> int) \<Rightarrow> nat \<Rightarrow> IngestRule list \<Rightarrow> rows_event \<Rightarrow>
   TableRowChange list \<times> fault option" where
  "apply_rules E clock ruleID [] e = ([], None)"
| "apply_rules E clock ruleID (r # rs) e =
     (case IngestRule_Apply E r (clock ruleID) e of
        Inl f \<Rightarrow> ([], Some f)
      | Inr docs \<Rightarrow>
          let rest = apply_rules E clock (Suc ruleID) rs e
          in (case docs of None \<Rightarrow> rest | Some cs \<Rightarrow> (cs @ fst rest, snd rest)))"

subsection \<open>Row notifications for NATS\<close>

record nats_message =
  nm_Id :: "64 word"
  nm_Type :: "32 word"
  nm_Name :: string
  nm_Action :: string
  nm_Metadata :: "(string, string) amap"

definition NewMessage :: "64 word \<Rightarrow> nats_message" where
  "NewMessage i = \<lparr>nm_Id = i, nm_Type = 0, nm_Name = [], nm_Action = [], nm_Metadata = []\<rparr>"

definition PublishRowToNats :: "64 word \<Rightarrow> 32 word \<Rightarrow> string \<Rightarrow> string \<Rightarrow> nats_message" where
  "PublishRowToNats i typ action table =
     (NewMessage i)\<lparr>nm_Type := typ, nm_Name := table, nm_Action := action,
        nm_Metadata := aput ''tableName'' table []\<rparr>"

text \<open>
  A coercion error is ignored here, and the value that comes with it is used; a missing column
  gives 0.
\<close>

definition value_or_zero :: "(gval \<Rightarrow> 'a::len word \<times> go_error option) \<Rightarrow> nat option \<Rightarrow> row \<Rightarrow> 'a word result" where
  "value_or_zero coerce colNo vs =
     (case colNo of None \<Rightarrow> Inr 0 | Some c \<Rightarrow> bindR (go_index vs c) (\<lambda>v. Inr (fst (coerce v))))"

definition notify_row :: "go_env \<Rightarrow> rows_event \<Rightarrow> row \<Rightarrow> nats_message list result" where
  "notify_row E e vs =
     bindR (value_or_zero (CoerceToUint64 E) (find_index ''id'' (ev_Columns e)) vs) (\<lambda>i.
     bindR (value_or_zero (CoerceToUint32 E) (find_index ''type'' (ev_Columns e)) vs) (\<lambda>typ.
       if i > 0 \<and> typ > 0
       then Inr [PublishRowToNats i typ (ev_Action e) (ev_Table e)]
       else Inr []))"

text \<open>The messages put into the NATS channel, and the panic that ended the loop early.\<close>

fun notify_rows :: "go_env \<Rightarrow> rows_event \<Rightarrow> row list \<Rightarrow> nats_message list \<times> fault option" where
  "notify_rows E e [] = ([], None)"
| "notify_rows E e (vs # rs) =
     (case notify_row E e vs of
        Inl f \<Rightarrow> ([], Some f)
      | Inr ms \<Rightarrow> (let rest = notify_rows E e rs in (ms @ fst rest, snd rest)))"

fun new_rows :: "row list \<Rightarrow> row list" where
  "new_rows (oldRow # newRow # rs) = newRow # new_rows rs"
| "new_rows rs = []"

definition processRowEventForNats :: "go_env \<Rightarrow> rows_event \<Rightarrow> nats_message list \<times> fault option" where
  "processRowEventForNats E e =
     (if ev_Action e = UpdateAction then notify_rows E e (new_rows (ev_Rows e))
      else if ev_Action e = InsertAction \<or> ev_Action e = DeleteAction
      then notify_rows E e (ev_Rows e)
      else ([], None))"

definition ApplyRuleSet ::
  "go_env \<Rightarrow> (nat \<Rightarrow> nat \<Rightarrow> int) \<Rightarrow> IngestRule list \<Rightarrow> rows_event \<Rightarrow>
   nats_message list \<times> TableRowChange list \<times> fault option" where
  "ApplyRuleSet E clock ruleSet e =
     (let nats = processRowEventForNats E e
      in (fst nats,
          case snd nats of
            Some f \<Rightarrow> ([], Some f)
          | None \<Rightarrow> apply_rules E clock 0 ruleSet e))"

end
