(* ===== verification/Ingest_Correct.thy ===== *)
theory Ingest_Correct
  imports Ingest Changed_Attrs
begin

text \<open>
  The changes an ingest rule makes of an event: their shape (which is what change detection
  relies on), the document ids and actions of each kind of event, and what column filtering
  keeps, with and without a JSON column.
\<close>

subsection \<open>Column filtering\<close>

lemma put_slot_bound:
  "put_slot n col v slots = Inr slots' \<Longrightarrow> length slots' \<le> n"
  by (auto simp: put_slot_def split: if_splits)

lemma put_members_bound:
  assumes "put_members cm obj slots = Inr slots'" and "length slots \<le> length cm"
  shows "length slots' \<le> length cm"
  using assms(1) unfolding put_members_def
  by (rule foldR_invariant[where P = "\<lambda>s. length s \<le> length cm"])
    (use assms(2) in \<open>auto split: if_splits dest: put_slot_bound\<close>)

lemma filter_step_bound:
  "filter_step E r col v slots = Inr slots' \<Longrightarrow> length slots \<le> length (ir_ColumnMap r) \<Longrightarrow>
   length slots' \<le> length (ir_ColumnMap r)"
  by (auto simp: filter_step_def Let_def split: gval.splits if_splits option.splits
      dest: put_slot_bound put_members_bound)

lemma filter_loop_bound:
  "filter_loop E r cols vs slots = Inr slots' \<Longrightarrow> length slots \<le> length (ir_ColumnMap r) \<Longrightarrow>
   length slots' \<le> length (ir_ColumnMap r)"
  by (induction E r cols vs slots rule: filter_loop.induct)
    (auto simp: bindR_eq_Inr dest: filter_step_bound)

lemma filterColumns_lengths:
  assumes "filterColumns E r cols vs = Inr (c, v)"
  shows "length c = length (ir_ColumnMap r) \<and> length v = length (ir_ColumnMap r)"
proof -
  obtain slots where s: "filter_loop E r cols vs [] = Inr slots"
    and c: "c = map fst slots @ replicate (length (ir_ColumnMap r) - length slots) []"
    and v: "v = map snd slots @ replicate (length (ir_ColumnMap r) - length slots) GNil"
    using assms by (auto simp: filterColumns_def result_simps Let_def)
  have "length slots \<le> length (ir_ColumnMap r)" using filter_loop_bound[OF s] by simp
  then show ?thesis by (simp add: c v)
qed

text \<open>Without a JSON column the filter selects the mapped columns, whatever the row holds.\<close>

definition mapped :: "IngestRule \<Rightarrow> string \<Rightarrow> bool" where
  "mapped r col \<longleftrightarrow> map_of (ir_ColumnMap r) col \<noteq> None"

lemma filter_step_plain:
  assumes "col \<noteq> ir_JsonColumnName r"
    and "mapped r col \<Longrightarrow> length slots < length (ir_ColumnMap r)"
  shows "filter_step E r col v slots = Inr (if mapped r col then slots @ [(col, v)] else slots)"
  using assms by (cases v) (auto simp: filter_step_def Let_def mapped_def put_slot_def)

lemma filter_loop_plain:
  "ir_JsonColumnName r \<notin> set cols \<Longrightarrow> length cols \<le> length vs \<Longrightarrow>
   length slots + length (filter (mapped r) cols) \<le> length (ir_ColumnMap r) \<Longrightarrow>
   filter_loop E r cols vs slots =
     Inr (slots @ filter (\<lambda>cv. mapped r (fst cv)) (zip cols vs))"
proof (induction E r cols vs slots rule: filter_loop.induct)
  case (3 E r col cols v vs slots)
  have "filter_step E r col v slots = Inr (if mapped r col then slots @ [(col, v)] else slots)"
    using "3.prems" by (intro filter_step_plain) auto
  then show ?case using "3.prems" "3.IH" by (auto split: if_splits)
qed simp_all

lemma mapped_count:
  assumes "distinct cols"
  shows "length (filter (mapped r) cols) \<le> length (ir_ColumnMap r)"
proof -
  have "set (filter (mapped r) cols) \<subseteq> fst ` set (ir_ColumnMap r)"
    by (auto simp: mapped_def dest: map_of_SomeD intro: rev_image_eqI)
  then have "card (set (filter (mapped r) cols)) \<le> card (fst ` set (ir_ColumnMap r))"
    by (rule card_mono[rotated]) simp
  also have "\<dots> \<le> length (ir_ColumnMap r)"
    by (metis card_image_le card_length finite_set le_trans)
  finally show ?thesis
    using distinct_card[OF distinct_filter[OF assms, of "mapped r"]] by simp
qed

definition plain_columns :: "IngestRule \<Rightarrow> string list \<Rightarrow> string list" where
  "plain_columns r cols =
     (let m = filter (mapped r) cols in m @ replicate (length (ir_ColumnMap r) - length m) [])"

definition plain_row :: "IngestRule \<Rightarrow> string list \<Rightarrow> row \<Rightarrow> row" where
  "plain_row r cols vs =
     (let m = filter (\<lambda>cv. mapped r (fst cv)) (zip cols vs)
      in map snd m @ replicate (length (ir_ColumnMap r) - length m) GNil)"

lemma zip_filter_fst:
  "length cols \<le> length vs \<Longrightarrow> map fst (filter (\<lambda>cv. P (fst cv)) (zip cols vs)) = filter P cols"
  by (induction cols arbitrary: vs) (auto simp: zip_Cons1 split: list.splits)

lemma filterColumns_plain_eq:
  assumes "ir_JsonColumnName r \<notin> set cols" and "distinct cols" and "length cols \<le> length vs"
  shows "filterColumns E r cols vs = Inr (plain_columns r cols, plain_row r cols vs)"
proof -
  have "filter_loop E r cols vs [] = Inr (filter (\<lambda>cv. mapped r (fst cv)) (zip cols vs))"
    using filter_loop_plain[OF assms(1,3), of "[]" E] mapped_count[OF assms(2)] by simp
  moreover have "length (filter (\<lambda>cv. mapped r (fst cv)) (zip cols vs)) = length (filter (mapped r) cols)"
    using zip_filter_fst[OF assms(3), of "mapped r"] by (metis length_map)
  ultimately show ?thesis
    by (simp add: filterColumns_def plain_columns_def plain_row_def Let_def zip_filter_fst[OF assms(3)])
qed

subsection \<open>The changes of one event\<close>

definition rule_change :: "IngestRule \<Rightarrow> TableRowChange \<Rightarrow> bool" where
  "rule_change r c \<longleftrightarrow>
     (let n = length (ir_ColumnMap r) in
      known_action c \<and> trc_TableName c = ir_TableName r \<and> trc_Index c = ir_Index r \<and>
      trc_ColumnMap c = ir_ColumnMap r \<and> trc_EventID c = 0 \<and>
      length (trc_Columns c) = n \<and> length (trc_OldRow c) = n \<and> length (trc_NewRow c) = n \<and>
      (trc_Action c = InsertAction \<longrightarrow> trc_OldRow c = replicate n GNil) \<and>
      (trc_Action c = DeleteAction \<longrightarrow> trc_NewRow c = replicate n GNil))"

lemma insertedTableRow_ok:
  assumes "insertedTableRow E r now docID pkCols cols vs = Inr c"
  shows "rule_change r c \<and> trc_Action c = InsertAction \<and> trc_DocID c = docID"
  using assms filterColumns_lengths
  by (fastforce simp: insertedTableRow_def result_simps rule_change_def known_action_def emptyRow_def)

lemma deletedTableRow_ok:
  assumes "deletedTableRow E r now docID pkCols cols vs = Inr c"
  shows "rule_change r c \<and> trc_Action c = DeleteAction \<and> trc_DocID c = docID"
  using assms filterColumns_lengths
  by (fastforce simp: deletedTableRow_def result_simps rule_change_def known_action_def emptyRow_def)

lemma updatedTableRow_ok:
  assumes "updatedTableRow E r now docID pkCols cols old new = Inr c"
  shows "rule_change r c \<and> trc_Action c = UpdateAction \<and> trc_DocID c = docID"
proof -
  obtain pk c1 v1 c2 v2 where f: "filterColumns E r cols old = Inr (c1, v1)"
      "filterColumns E r cols new = Inr (c2, v2)"
    and c: "c = \<lparr>trc_Action = UpdateAction, trc_Columns = c2, trc_ColumnMap = ir_ColumnMap r,
          trc_DocID = docID, trc_EventID = 0, trc_Index = ir_Index r, trc_OldRow = v1,
          trc_NewRow = v2, trc_PK = pk, trc_TableName = ir_TableName r, trc_TS = now\<rparr>"
    using assms by (fastforce simp: updatedTableRow_def result_simps)
  with filterColumns_lengths[OF f(1)] filterColumns_lengths[OF f(2)] show ?thesis
    by (simp add: rule_change_def known_action_def)
qed

lemmas made_change_ok = insertedTableRow_ok deletedTableRow_ok updatedTableRow_ok

text \<open>The document operations an event stands for.\<close>

definition row_ids :: "go_env \<Rightarrow> nat \<Rightarrow> row \<Rightarrow> 64 word" where
  "row_ids E idCol vs = fst (CoerceToUint64 E (vs ! idCol))"

fun update_ops :: "go_env \<Rightarrow> nat \<Rightarrow> row list \<Rightarrow> (string \<times> 64 word) list" where
  "update_ops E idCol (old # new # rs) =
     (let i = row_ids E idCol old;
          j = (if new ! idCol = GNil then i else row_ids E idCol new)
      in (if i = j then [(UpdateAction, i)] else [(DeleteAction, i), (InsertAction, j)]) @
         update_ops E idCol rs)"
| "update_ops E idCol rs = []"

abbreviation ops_of :: "TableRowChange list \<Rightarrow> (string \<times> 64 word) list" where
  "ops_of cs \<equiv> map (\<lambda>c. (trc_Action c, trc_DocID c)) cs"

lemma row_doc_id_ok: "row_doc_id E idCol vs = Inr i \<Longrightarrow> i = row_ids E idCol vs"
  by (auto simp: row_doc_id_def row_ids_def result_simps)

lemma new_doc_id_ok:
  "new_doc_id E idCol i vs = Inr j \<Longrightarrow> j = (if vs ! idCol = GNil then i else row_ids E idCol vs)"
  by (auto simp: new_doc_id_def row_ids_def result_simps split: if_splits)

lemma makeInsertChangeSet_ok:
  "makeInsertChangeSet E r clock pkCols cols idCol k rs = Inr cs \<Longrightarrow>
   (\<forall>c\<in>set cs. rule_change r c) \<and> ops_of cs = map (\<lambda>vs. (InsertAction, row_ids E idCol vs)) rs"
  by (induction rs arbitrary: k cs)
    (auto simp: bindR_eq_Inr dest!: made_change_ok row_doc_id_ok)

lemma makeDeleteChangeSet_ok:
  "makeDeleteChangeSet E r clock pkCols cols idCol k rs = Inr cs \<Longrightarrow>
   (\<forall>c\<in>set cs. rule_change r c) \<and> ops_of cs = map (\<lambda>vs. (DeleteAction, row_ids E idCol vs)) rs"
  by (induction rs arbitrary: k cs)
    (auto simp: bindR_eq_Inr dest!: made_change_ok row_doc_id_ok)

lemma makeUpdateChangeSet_Inr:
  "makeUpdateChangeSet E r clock pkCols cols idCol k (old # new # rs) = Inr cs \<longleftrightarrow>
   (\<exists>i j. row_doc_id E idCol old = Inr i \<and> new_doc_id E idCol i new = Inr j \<and>
      (if i = j
       then \<exists>c cs'. updatedTableRow E r (clock k) j pkCols cols old new = Inr c \<and>
              makeUpdateChangeSet E r clock pkCols cols idCol (k + 1) rs = Inr cs' \<and> cs = c # cs'
       else \<exists>c d cs'. deletedTableRow E r (clock k) i pkCols cols old = Inr c \<and>
              insertedTableRow E r (clock (k + 1)) j pkCols cols new = Inr d \<and>
              makeUpdateChangeSet E r clock pkCols cols idCol (k + 2) rs = Inr cs' \<and>
              cs = c # d # cs'))"
  by (simp only: makeUpdateChangeSet.simps bindR_eq_Inr) (auto simp: bindR_eq_Inr)

lemma makeUpdateChangeSet_ok:
  "makeUpdateChangeSet E r clock pkCols cols idCol k rs = Inr cs \<Longrightarrow>
   (\<forall>c\<in>set cs. rule_change r c) \<and> ops_of cs = update_ops E idCol rs"
proof (induction E idCol rs arbitrary: k cs rule: update_ops.induct)
  case (1 E idCol old new rs)
  then obtain i j where ij: "row_doc_id E idCol old = Inr i" "new_doc_id E idCol i new = Inr j"
    and cs: "if i = j
       then \<exists>c cs'. updatedTableRow E r (clock k) j pkCols cols old new = Inr c \<and>
              makeUpdateChangeSet E r clock pkCols cols idCol (k + 1) rs = Inr cs' \<and> cs = c # cs'
       else \<exists>c d cs'. deletedTableRow E r (clock k) i pkCols cols old = Inr c \<and>
              insertedTableRow E r (clock (k + 1)) j pkCols cols new = Inr d \<and>
              makeUpdateChangeSet E r clock pkCols cols idCol (k + 2) rs = Inr cs' \<and>
              cs = c # d # cs'"
    unfolding makeUpdateChangeSet_Inr by blast
  note ids = row_doc_id_ok[OF ij(1)] new_doc_id_ok[OF ij(2)]
  show ?case
  proof (cases "i = j")
    case True
    with cs obtain c cs' where c: "updatedTableRow E r (clock k) j pkCols cols old new = Inr c"
      "makeUpdateChangeSet E r clock pkCols cols idCol (k + 1) rs = Inr cs'" "cs = c # cs'"
      by auto
    with made_change_ok(3)[OF c(1)] "1.IH"[OF refl refl c(2)] True ids show ?thesis
      by (auto simp: Let_def)
  next
    case False
    with cs obtain c d cs' where c: "deletedTableRow E r (clock k) i pkCols cols old = Inr c"
      "insertedTableRow E r (clock (k + 1)) j pkCols cols new = Inr d"
      "makeUpdateChangeSet E r clock pkCols cols idCol (k + 2) rs = Inr cs'" "cs = c # d # cs'"
      by auto
    with made_change_ok(2)[OF c(1)] made_change_ok(1)[OF c(2)] "1.IH"[OF refl refl c(3)] False ids
    show ?thesis by (auto simp: Let_def)
  qed
qed simp_all

text \<open>When a rule returns changes, and which.\<close>

lemma fieldIndex_Inr: "fieldIndex e f = Inr i \<longleftrightarrow> find_index f (ev_Columns e) = Some i"
  by (auto simp: fieldIndex_def split: option.splits)

lemma Apply_Some_cases:
  assumes "IngestRule_Apply E r clock e = Inr (Some cs)"
  obtains idCol where "ir_TableName r = ev_Table e" "json_type_matches E r e = Inr True"
    "find_index (ir_DocIDField r) (ev_Columns e) = Some idCol"
    "ev_Action e = InsertAction \<and>
       makeInsertChangeSet E r clock (realPKColumns e) (ev_Columns e) idCol 0 (ev_Rows e) = Inr cs \<or>
     ev_Action e = UpdateAction \<and>
       makeUpdateChangeSet E r clock (realPKColumns e) (ev_Columns e) idCol 0 (ev_Rows e) = Inr cs \<or>
     ev_Action e = DeleteAction \<and>
       makeDeleteChangeSet E r clock (realPKColumns e) (ev_Columns e) idCol 0 (ev_Rows e) = Inr cs"
  using assms
  by (auto simp: IngestRule_Apply_def bindR_eq_Inr fieldIndex_Inr columnNames_def Let_def
      split: if_splits)

definition event_ops :: "go_env \<Rightarrow> rows_event \<Rightarrow> nat \<Rightarrow> (string \<times> 64 word) list" where
  "event_ops E e idCol =
     (if ev_Action e = UpdateAction then update_ops E idCol (ev_Rows e)
      else map (\<lambda>vs. (ev_Action e, row_ids E idCol vs)) (ev_Rows e))"

lemma Apply_changes:
  assumes "IngestRule_Apply E r clock e = Inr (Some cs)"
  shows "(\<forall>c\<in>set cs. rule_change r c) \<and>
     (\<exists>idCol. find_index (ir_DocIDField r) (ev_Columns e) = Some idCol \<and> ops_of cs = event_ops E e idCol)"
  using assms
proof (rule Apply_Some_cases)
  fix idCol
  assume "find_index (ir_DocIDField r) (ev_Columns e) = Some idCol"
    and "ev_Action e = InsertAction \<and>
       makeInsertChangeSet E r clock (realPKColumns e) (ev_Columns e) idCol 0 (ev_Rows e) = Inr cs \<or>
     ev_Action e = UpdateAction \<and>
       makeUpdateChangeSet E r clock (realPKColumns e) (ev_Columns e) idCol 0 (ev_Rows e) = Inr cs \<or>
     ev_Action e = DeleteAction \<and>
       makeDeleteChangeSet E r clock (realPKColumns e) (ev_Columns e) idCol 0 (ev_Rows e) = Inr cs"
  then show ?thesis
    using makeInsertChangeSet_ok[of E r clock "realPKColumns e" "ev_Columns e" idCol 0 "ev_Rows e" cs]
      makeDeleteChangeSet_ok[of E r clock "realPKColumns e" "ev_Columns e" idCol 0 "ev_Rows e" cs]
      makeUpdateChangeSet_ok[of E r clock "realPKColumns e" "ev_Columns e" idCol 0 "ev_Rows e" cs]
    by (auto simp: event_ops_def)
qed

subsection \<open>Samples\<close>

definition sample_rule :: IngestRule where
  "sample_rule = \<lparr>ir_TableName = ''db.t'', ir_DocIDField = ''doc'', ir_Index = ''i'',
     ir_ColumnMap = [(''doc'', [''id'']), (''name'', [''field1''])],
     ir_JsonColumnName = ''data'', ir_JsonTypeName = [], ir_JsonTypeValue = 0\<rparr>"

text \<open>One row, keyed by its first column, moves from document 5 to document 6.\<close>

definition sample_event :: rows_event where
  "sample_event = \<lparr>ev_Table = ''db.t'', ev_Columns = [''id'', ''doc'', ''name''], ev_PKColumns = [0],
     ev_Action = UpdateAction,
     ev_Rows = [[GInt32 1, GInt32 5, GString ''x''], [GInt32 1, GInt32 6, GString ''x'']],
     ev_Timestamp = 0\<rparr>"

definition sample_changes :: "TableRowChange list" where
  "sample_changes =
     [\<lparr>trc_Action = DeleteAction, trc_Columns = [''doc'', ''name''],
       trc_ColumnMap = ir_ColumnMap sample_rule, trc_DocID = 5, trc_EventID = 0, trc_Index = ''i'',
       trc_OldRow = [GInt32 5, GString ''x''], trc_NewRow = [GNil, GNil],
       trc_PK = PrimaryKey 1 (GInt32 1 # replicate 15 GNil), trc_TableName = ''db.t'', trc_TS = 0\<rparr>,
      \<lparr>trc_Action = InsertAction, trc_Columns = [''doc'', ''name''],
       trc_ColumnMap = ir_ColumnMap sample_rule, trc_DocID = 6, trc_EventID = 0, trc_Index = ''i'',
       trc_OldRow = [GNil, GNil], trc_NewRow = [GInt32 6, GString ''x''],
       trc_PK = PrimaryKey 1 (GInt32 1 # replicate 15 GNil), trc_TableName = ''db.t'', trc_TS = 0\<rparr>]"

lemma sample_apply:
  "IngestRule_Apply plain_env sample_rule (\<lambda>_. 0) sample_event = Inr (Some sample_changes)"
  by code_simp

subsection \<open>Properties\<close>

text \<open>
  C28. Shape of what a rule emits: every change of an event names the rule's table, index and
  column map, its column list and its two rows have one entry per column-map entry, its action
  is one of the three, an insert starts from NULLs and a delete ends in NULLs. This is the
  shape that change detection assumes of its input.
\<close>

theorem Apply_shape:
  assumes "IngestRule_Apply E r clock e = Inr (Some cs)" and "c \<in> set cs"
  shows "trc_TableName c = ir_TableName r \<and> trc_Index c = ir_Index r \<and>
     trc_ColumnMap c = ir_ColumnMap r \<and> known_action c \<and>
     length (trc_Columns c) = length (ir_ColumnMap r) \<and>
     length (trc_OldRow c) = length (ir_ColumnMap r) \<and>
     length (trc_NewRow c) = length (ir_ColumnMap r) \<and>
     (trc_Action c = InsertAction \<longrightarrow> trc_OldRow c = replicate (length (ir_ColumnMap r)) GNil) \<and>
     (trc_Action c = DeleteAction \<longrightarrow> trc_NewRow c = replicate (length (ir_ColumnMap r)) GNil)"
  using Apply_changes[OF assms(1)] assms(2) by (simp add: rule_change_def Let_def)

theorem Apply_shape_witness: "trc_NewRow (hd sample_changes) = [GNil, GNil]"
proof -
  have "hd sample_changes \<in> set sample_changes" and "trc_Action (hd sample_changes) = DeleteAction"
    by (simp_all add: sample_changes_def)
  with Apply_shape[OF sample_apply] show ?thesis by (simp add: sample_rule_def numeral_2_eq_2)
qed

text \<open>
  C26. Document operations of an event: an insert or delete event gives one change of that action
  per row, for the document its id column names; an update event gives per row pair one update,
  or, when the row moves to another document, a delete of the old document's row followed by an
  insert into the new document. A NULL id in the new row means the old document.
\<close>

theorem Apply_ops:
  assumes "IngestRule_Apply E r clock e = Inr (Some cs)"
    and "find_index (ir_DocIDField r) (ev_Columns e) = Some idCol"
  shows "ops_of cs = event_ops E e idCol"
  using Apply_changes[OF assms(1)] assms(2) by simp

theorem Apply_ops_witness:
  "ops_of sample_changes = [(DeleteAction, 5), (InsertAction, 6)]"
proof -
  have "find_index (ir_DocIDField sample_rule) (ev_Columns sample_event) = Some 1" by code_simp
  moreover have "event_ops plain_env sample_event 1 = [(DeleteAction, 5), (InsertAction, 6)]"
    by code_simp
  ultimately show ?thesis using Apply_ops[OF sample_apply] by metis
qed

end
