(* ===== verification/Replication.thy ===== *)
theory Replication
  imports Ingest_Correct Batch_Queue
begin

text \<open>
  From the tables in MySQL to the queue. A database is a map from tables and primary keys to rows,
  and a row event describes operations on one table. When the rules of an index are plain (no JSON
  column, no type filter) and belong to different tables, the changes they send for a document are a
  \<open>row_history\<close> of the document's rows, from their state before the events to the state after them.
\<close>

subsection \<open>Tables and what events do to them\<close>

type_synonym table_rows = "PrimaryKey \<Rightarrow> row option"
type_synonym row_op = "row option \<times> row option"

record schema =
  sch_Columns :: "string \<Rightarrow> string list"
  sch_PKColumns :: "string \<Rightarrow> nat list"

text \<open>
  The operations of an event: the row before and the row after. An operation fits the table when
  its row image is the stored row and an update keeps the primary key.
\<close>

fun update_pairs :: "row list \<Rightarrow> row_op list" where
  "update_pairs (old # new # rs) = (Some old, Some new) # update_pairs rs"
| "update_pairs rs = []"

definition event_row_ops :: "rows_event \<Rightarrow> row_op list" where
  "event_row_ops e =
     (if ev_Action e = InsertAction then map (\<lambda>v. (None, Some v)) (ev_Rows e)
      else if ev_Action e = DeleteAction then map (\<lambda>v. (Some v, None)) (ev_Rows e)
      else update_pairs (ev_Rows e))"

definition op_step :: "go_env \<Rightarrow> nat list \<Rightarrow> table_rows \<Rightarrow> row_op \<Rightarrow> table_rows option" where
  "op_step E pkCols R w =
     (case newPrimaryKeyFromRow E pkCols (case fst w of Some u \<Rightarrow> u | None \<Rightarrow> the (snd w)) of
        Inl f \<Rightarrow> None
      | Inr k \<Rightarrow>
          if R k = fst w \<and> (case snd w of Some v \<Rightarrow> newPrimaryKeyFromRow E pkCols v = Inr k | None \<Rightarrow> True)
          then Some (R(k := snd w)) else None)"

fun replay_ops :: "go_env \<Rightarrow> nat list \<Rightarrow> table_rows \<Rightarrow> row_op list \<Rightarrow> table_rows option" where
  "replay_ops E pkCols R [] = Some R"
| "replay_ops E pkCols R (w # ws) =
     (case op_step E pkCols R w of None \<Rightarrow> None | Some R' \<Rightarrow> replay_ops E pkCols R' ws)"

definition replay_event ::
  "go_env \<Rightarrow> (string \<Rightarrow> table_rows) \<Rightarrow> rows_event \<Rightarrow> (string \<Rightarrow> table_rows) option" where
  "replay_event E D e =
     map_option (\<lambda>R. D(ev_Table e := R)) (replay_ops E (realPKColumns e) (D (ev_Table e)) (event_row_ops e))"

fun replay_events ::
  "go_env \<Rightarrow> (string \<Rightarrow> table_rows) \<Rightarrow> rows_event list \<Rightarrow> (string \<Rightarrow> table_rows) option" where
  "replay_events E D [] = Some D"
| "replay_events E D (e # es) =
     (case replay_event E D e of None \<Rightarrow> None | Some D' \<Rightarrow> replay_events E D' es)"

text \<open>An event of the schema has full row images.\<close>

definition event_fits :: "schema \<Rightarrow> rows_event \<Rightarrow> bool" where
  "event_fits S e \<longleftrightarrow>
     ev_Columns e = sch_Columns S (ev_Table e) \<and> ev_PKColumns e = sch_PKColumns S (ev_Table e) \<and>
     (\<forall>u\<in>set (ev_Rows e). length u = length (ev_Columns e))"

subsection \<open>The rows of a document\<close>

definition doc_view ::
  "go_env \<Rightarrow> IngestRule \<Rightarrow> string list \<Rightarrow> nat \<Rightarrow> 64 word \<Rightarrow> table_rows \<Rightarrow> PrimaryKey \<Rightarrow> row" where
  "doc_view E r cols idCol d R k =
     (case R k of
        Some u \<Rightarrow> if row_ids E idCol u = d then plain_row r cols u
                  else replicate (length (ir_ColumnMap r)) GNil
      | None \<Rightarrow> replicate (length (ir_ColumnMap r)) GNil)"

abbreviation doc_changes :: "string \<Rightarrow> 64 word \<Rightarrow> TableRowChange list \<Rightarrow> TableRowChange list" where
  "doc_changes index d cs \<equiv> filter (\<lambda>c. trc_Index c = index \<and> trc_DocID c = d) cs"

lemma row_history_append:
  "row_history cols cm T (cs @ ds) \<longleftrightarrow>
   row_history cols cm T cs \<and> row_history cols cm (rows_after T cs) ds"
  by (induction cs arbitrary: T) (simp_all add: rows_after_def)

lemma rows_after_append: "rows_after T (cs @ ds) = rows_after (rows_after T cs) ds"
  by (simp add: rows_after_def)


subsection \<open>The changes of one operation\<close>

text \<open>A rule that reads the columns of a table as they are.\<close>

definition plain_rule :: "IngestRule \<Rightarrow> string list \<Rightarrow> bool" where
  "plain_rule r cols \<longleftrightarrow>
     distinct cols \<and> ir_JsonColumnName r \<notin> set cols \<and> ir_JsonTypeValue r \<le> 0 \<and>
     map_of (ir_ColumnMap r) [] = None"

definition plain_change ::
  "IngestRule \<Rightarrow> string list \<Rightarrow> string \<Rightarrow> 64 word \<Rightarrow> int \<Rightarrow> PrimaryKey \<Rightarrow> row \<Rightarrow> row \<Rightarrow> TableRowChange" where
  "plain_change r cols action d now k old new =
     \<lparr>trc_Action = action, trc_Columns = plain_columns r cols, trc_ColumnMap = ir_ColumnMap r,
      trc_DocID = d, trc_EventID = 0, trc_Index = ir_Index r, trc_OldRow = old, trc_NewRow = new,
      trc_PK = k, trc_TableName = ir_TableName r, trc_TS = now\<rparr>"

lemma plain_change_simps [simp]:
  "trc_Index (plain_change r cols action d now k old new) = ir_Index r"
  "trc_DocID (plain_change r cols action d now k old new) = d"
  "apply_change T (plain_change r cols action d now k old new) =
     T(ir_TableName r := (T (ir_TableName r))(k := new))"
  by (simp_all add: plain_change_def apply_change_def)

abbreviation no_row :: "IngestRule \<Rightarrow> row" where
  "no_row r \<equiv> replicate (length (ir_ColumnMap r)) GNil"

lemma plain_row_length:
  assumes "distinct cols" and "length cols \<le> length u"
  shows "length (plain_row r cols u) = length (ir_ColumnMap r)"
    and "length (plain_columns r cols) = length (ir_ColumnMap r)"
proof -
  have "length (filter (\<lambda>cv. mapped r (fst cv)) (zip cols u)) = length (filter (mapped r) cols)"
    using zip_filter_fst[OF assms(2), of "mapped r"] by (metis length_map)
  with mapped_count[OF assms(1), of r] show "length (plain_row r cols u) = length (ir_ColumnMap r)"
    and "length (plain_columns r cols) = length (ir_ColumnMap r)"
    by (simp_all add: plain_row_def plain_columns_def Let_def)
qed

lemma filterColumns_plain:
  "plain_rule r cols \<Longrightarrow> length u = length cols \<Longrightarrow>
   filterColumns E r cols u = Inr (plain_columns r cols, plain_row r cols u)"
  by (simp add: plain_rule_def filterColumns_plain_eq)

lemma plain_changes:
  assumes "plain_rule r cols" and "length u = length cols"
  shows "insertedTableRow E r now d pkCols cols u = Inr c \<longleftrightarrow>
      (\<exists>k. newPrimaryKeyFromRow E pkCols u = Inr k \<and>
           c = plain_change r cols InsertAction d now k (no_row r) (plain_row r cols u))"
    and "deletedTableRow E r now d pkCols cols u = Inr c \<longleftrightarrow>
      (\<exists>k. newPrimaryKeyFromRow E pkCols u = Inr k \<and>
           c = plain_change r cols DeleteAction d now k (plain_row r cols u) (no_row r))"
    and "length v = length cols \<Longrightarrow> updatedTableRow E r now d pkCols cols u v = Inr c \<longleftrightarrow>
      (\<exists>k. newPrimaryKeyFromRow E pkCols u = Inr k \<and>
           c = plain_change r cols UpdateAction d now k (plain_row r cols u) (plain_row r cols v))"
  using assms filterColumns_plain[OF assms] plain_row_length(1)[of cols u r]
  by (auto simp: insertedTableRow_def deletedTableRow_def updatedTableRow_def result_simps
      filterColumns_plain emptyRow_def plain_change_def plain_rule_def)

text \<open>The changes a rule makes of one operation.\<close>

definition op_makes ::
  "go_env \<Rightarrow> IngestRule \<Rightarrow> nat list \<Rightarrow> string list \<Rightarrow> nat \<Rightarrow> row_op \<Rightarrow> TableRowChange list \<Rightarrow> bool" where
  "op_makes E r pkCols cols idCol w cs \<longleftrightarrow>
     (case w of
        (None, Some v) \<Rightarrow> (\<exists>i now c. row_doc_id E idCol v = Inr i \<and>
           insertedTableRow E r now i pkCols cols v = Inr c \<and> cs = [c])
      | (Some u, None) \<Rightarrow> (\<exists>i now c. row_doc_id E idCol u = Inr i \<and>
           deletedTableRow E r now i pkCols cols u = Inr c \<and> cs = [c])
      | (Some u, Some v) \<Rightarrow> (\<exists>i j. row_doc_id E idCol u = Inr i \<and> new_doc_id E idCol i v = Inr j \<and>
           (if i = j then \<exists>now c. updatedTableRow E r now j pkCols cols u v = Inr c \<and> cs = [c]
            else \<exists>now now' c c'. deletedTableRow E r now i pkCols cols u = Inr c \<and>
              insertedTableRow E r now' j pkCols cols v = Inr c' \<and> cs = [c, c']))
      | (None, None) \<Rightarrow> False)"

fun ops_make ::
  "go_env \<Rightarrow> IngestRule \<Rightarrow> nat list \<Rightarrow> string list \<Rightarrow> nat \<Rightarrow> row_op list \<Rightarrow> TableRowChange list \<Rightarrow> bool" where
  "ops_make E r pkCols cols idCol [] cs \<longleftrightarrow> cs = []"
| "ops_make E r pkCols cols idCol (w # ws) cs \<longleftrightarrow>
     (\<exists>c cs'. cs = c @ cs' \<and> op_makes E r pkCols cols idCol w c \<and> ops_make E r pkCols cols idCol ws cs')"

declare ops_make.simps(2) [simp del]

lemma ops_make_one:
  "op_makes E r pkCols cols idCol w [c] \<Longrightarrow> ops_make E r pkCols cols idCol ws cs \<Longrightarrow>
   ops_make E r pkCols cols idCol (w # ws) (c # cs)"
  unfolding ops_make.simps by (rule exI[of _ "[c]"]) auto

lemma makeInsertChangeSet_ops:
  "makeInsertChangeSet E r clock pkCols cols idCol k rs = Inr cs \<Longrightarrow>
   ops_make E r pkCols cols idCol (map (\<lambda>v. (None, Some v)) rs) cs"
proof (induction rs arbitrary: k cs)
  case (Cons v rs)
  then obtain i c cs' where "row_doc_id E idCol v = Inr i"
    "insertedTableRow E r (clock k) i pkCols cols v = Inr c"
    "makeInsertChangeSet E r clock pkCols cols idCol (Suc k) rs = Inr cs'" "cs = c # cs'"
    by (auto simp: bindR_eq_Inr)
  with Cons.IH show ?case unfolding list.map by (auto simp: op_makes_def intro!: ops_make_one)
qed simp

lemma makeDeleteChangeSet_ops:
  "makeDeleteChangeSet E r clock pkCols cols idCol k rs = Inr cs \<Longrightarrow>
   ops_make E r pkCols cols idCol (map (\<lambda>v. (Some v, None)) rs) cs"
proof (induction rs arbitrary: k cs)
  case (Cons v rs)
  then obtain i c cs' where "row_doc_id E idCol v = Inr i"
    "deletedTableRow E r (clock k) i pkCols cols v = Inr c"
    "makeDeleteChangeSet E r clock pkCols cols idCol (Suc k) rs = Inr cs'" "cs = c # cs'"
    by (auto simp: bindR_eq_Inr)
  with Cons.IH show ?case unfolding list.map by (auto simp: op_makes_def intro!: ops_make_one)
qed simp

lemma makeUpdateChangeSet_ops:
  "makeUpdateChangeSet E r clock pkCols cols idCol k rs = Inr cs \<Longrightarrow>
   ops_make E r pkCols cols idCol (update_pairs rs) cs"
proof (induction rs arbitrary: k cs rule: update_pairs.induct)
  case (1 old new rs)
  then obtain i j where ij: "row_doc_id E idCol old = Inr i" "new_doc_id E idCol i new = Inr j"
    and cs: "if i = j
       then \<exists>c cs'. updatedTableRow E r (clock k) j pkCols cols old new = Inr c \<and>
              makeUpdateChangeSet E r clock pkCols cols idCol (k + 1) rs = Inr cs' \<and> cs = c # cs'
       else \<exists>c d cs'. deletedTableRow E r (clock k) i pkCols cols old = Inr c \<and>
              insertedTableRow E r (clock (k + 1)) j pkCols cols new = Inr d \<and>
              makeUpdateChangeSet E r clock pkCols cols idCol (k + 2) rs = Inr cs' \<and>
              cs = c # d # cs'"
    unfolding makeUpdateChangeSet_Inr by blast
  obtain a cs' where "cs = a @ cs'" "op_makes E r pkCols cols idCol (Some old, Some new) a"
    and "\<exists>k. makeUpdateChangeSet E r clock pkCols cols idCol k rs = Inr cs'"
  proof (cases "i = j")
    case True
    with cs obtain c cs' where "updatedTableRow E r (clock k) j pkCols cols old new = Inr c"
      "makeUpdateChangeSet E r clock pkCols cols idCol (k + 1) rs = Inr cs'" "cs = [c] @ cs'" by auto
    with that[of "[c]" cs'] ij True show ?thesis by (auto simp: op_makes_def)
  next
    case False
    with cs obtain c d cs' where "deletedTableRow E r (clock k) i pkCols cols old = Inr c"
      "insertedTableRow E r (clock (k + 1)) j pkCols cols new = Inr d"
      "makeUpdateChangeSet E r clock pkCols cols idCol (k + 2) rs = Inr cs'" "cs = [c, d] @ cs'" by auto
    with that[of "[c, d]" cs'] ij False show ?thesis by (fastforce simp: op_makes_def)
  qed
  with "1.IH" show ?case unfolding update_pairs.simps ops_make.simps by blast
qed simp_all


subsection \<open>One operation on a document's history\<close>

lemma op_step_Some:
  "op_step E pkCols R w = Some R' \<longleftrightarrow>
   (\<exists>k. newPrimaryKeyFromRow E pkCols (case fst w of Some u \<Rightarrow> u | None \<Rightarrow> the (snd w)) = Inr k \<and>
      R k = fst w \<and> (\<forall>v. snd w = Some v \<longrightarrow> newPrimaryKeyFromRow E pkCols v = Inr k) \<and>
      R' = R(k := snd w))"
  by (auto simp: op_step_def split: sum.splits option.splits if_splits)

definition full_row :: "string list \<Rightarrow> nat \<Rightarrow> row \<Rightarrow> bool" where
  "full_row cols idCol u \<longleftrightarrow> length u = length cols \<and> u ! idCol \<noteq> GNil"

definition full_op :: "string list \<Rightarrow> nat \<Rightarrow> row_op \<Rightarrow> bool" where
  "full_op cols idCol w \<longleftrightarrow> (\<forall>u. fst w = Some u \<or> snd w = Some u \<longrightarrow> full_row cols idCol u)"

lemma doc_view_update:
  "doc_view E r cols idCol d (R(k := x)) =
   (doc_view E r cols idCol d R)(k := (case x of
      Some u \<Rightarrow> if row_ids E idCol u = d then plain_row r cols u else no_row r
    | None \<Rightarrow> no_row r))"
  by (auto simp: doc_view_def fun_eq_iff)

lemma plain_change_fits:
  assumes "plain_rule r cols" and "cf (ir_TableName r) = plain_columns r cols"
    and "cm (ir_TableName r) = ir_ColumnMap r"
    and "length old = length (ir_ColumnMap r)" and "length new = length (ir_ColumnMap r)"
    and "action = InsertAction \<and> old = no_row r \<or> action = UpdateAction \<or> action = DeleteAction \<and> new = no_row r"
  shows "change_fits cf cm T (plain_change r cols action d now k old new) \<longleftrightarrow> T (ir_TableName r) k = old"
  using assms plain_row_length(2)[of cols "replicate (length cols) GNil" r]
  by (auto simp: change_fits_def plain_change_def known_action_def Let_def plain_rule_def)

text \<open>The changes of one operation, by its kind: a keyed update of a row whose document id stays is one
update, one whose document id moves a deletion and an insertion.\<close>

lemma op_makes_insert:
  assumes "plain_rule r cols" and "full_op cols idCol (None, Some v)" and "newPrimaryKeyFromRow E pkCols v = Inr k"
    and "op_makes E r pkCols cols idCol (None, Some v) cs"
  shows "\<exists>now. cs = [plain_change r cols InsertAction (row_ids E idCol v) now k (no_row r) (plain_row r cols v)]"
proof -
  have len: "length v = length cols" using assms(2) by (simp add: full_op_def full_row_def)
  obtain i now c where "row_doc_id E idCol v = Inr i" "insertedTableRow E r now i pkCols cols v = Inr c" "cs = [c]"
    using assms(4) by (auto simp: op_makes_def)
  then show ?thesis using plain_changes(1)[OF assms(1) len] assms(3) by (auto simp: row_doc_id_ok[symmetric])
qed

lemma op_makes_delete:
  assumes "plain_rule r cols" and "full_op cols idCol (Some u, None)" and "newPrimaryKeyFromRow E pkCols u = Inr k"
    and "op_makes E r pkCols cols idCol (Some u, None) cs"
  shows "\<exists>now. cs = [plain_change r cols DeleteAction (row_ids E idCol u) now k (plain_row r cols u) (no_row r)]"
proof -
  have len: "length u = length cols" using assms(2) by (simp add: full_op_def full_row_def)
  obtain i now c where "row_doc_id E idCol u = Inr i" "deletedTableRow E r now i pkCols cols u = Inr c" "cs = [c]"
    using assms(4) by (auto simp: op_makes_def)
  then show ?thesis using plain_changes(2)[OF assms(1) len] assms(3) by (auto simp: row_doc_id_ok[symmetric])
qed

lemma op_makes_update:
  assumes r: "plain_rule r cols" and w: "full_op cols idCol (Some u, Some v)"
    and keys: "newPrimaryKeyFromRow E pkCols u = Inr k" "newPrimaryKeyFromRow E pkCols v = Inr k"
    and make: "op_makes E r pkCols cols idCol (Some u, Some v) cs"
  shows "if row_ids E idCol u = row_ids E idCol v
    then \<exists>now. cs = [plain_change r cols UpdateAction (row_ids E idCol v) now k (plain_row r cols u) (plain_row r cols v)]
    else \<exists>now now'. cs = [plain_change r cols DeleteAction (row_ids E idCol u) now k (plain_row r cols u) (no_row r),
      plain_change r cols InsertAction (row_ids E idCol v) now' k (no_row r) (plain_row r cols v)]"
proof -
  have u: "length u = length cols" and v: "length v = length cols" "v ! idCol \<noteq> GNil"
    using w by (auto simp: full_op_def full_row_def)
  obtain i j where ij: "row_doc_id E idCol u = Inr i" "new_doc_id E idCol i v = Inr j"
    and cs: "if i = j then \<exists>now c. updatedTableRow E r now j pkCols cols u v = Inr c \<and> cs = [c]
          else \<exists>now now' c c'. deletedTableRow E r now i pkCols cols u = Inr c \<and>
            insertedTableRow E r now' j pkCols cols v = Inr c' \<and> cs = [c, c']"
    using make by (auto simp: op_makes_def)
  from ij have "i = row_ids E idCol u" "j = row_ids E idCol v"
    using v(2) new_doc_id_ok[OF ij(2)] by (simp_all add: row_doc_id_ok)
  with cs show ?thesis
    using keys plain_changes(1)[OF r v(1)] plain_changes(2)[OF r u] plain_changes(3)[OF r u v(1)]
    by (cases "i = j") auto
qed

lemma op_history:
  assumes r: "plain_rule r cols" and w: "full_op cols idCol w"
    and make: "op_makes E r pkCols cols idCol w cs" and op: "op_step E pkCols R w = Some R'"
    and cf: "cf (ir_TableName r) = plain_columns r cols" and cm: "cm (ir_TableName r) = ir_ColumnMap r"
    and T: "T (ir_TableName r) = doc_view E r cols idCol d R"
  shows "row_history cf cm T (doc_changes (ir_Index r) d cs) \<and>
     rows_after T (doc_changes (ir_Index r) d cs) = T(ir_TableName r := doc_view E r cols idCol d R')"
proof -
  obtain k where k: "newPrimaryKeyFromRow E pkCols (case fst w of Some u \<Rightarrow> u | None \<Rightarrow> the (snd w)) = Inr k"
    "R k = fst w" "\<forall>v. snd w = Some v \<longrightarrow> newPrimaryKeyFromRow E pkCols v = Inr k" "R' = R(k := snd w)"
    using op unfolding op_step_Some by blast
  note fits = plain_change_fits[where cf = cf and cm = cm, OF r cf cm]
  have len: "full_row cols idCol u \<Longrightarrow> length (plain_row r cols u) = length (ir_ColumnMap r)" for u
    using plain_row_length(1)[of cols u r] r by (simp add: plain_rule_def full_row_def)
  have rows: "fst w = Some u \<or> snd w = Some u \<Longrightarrow> length (plain_row r cols u) = length (ir_ColumnMap r)" for u
    using w len by (auto simp: full_op_def)
  have view: "T (ir_TableName r) k = (case fst w of
      Some u \<Rightarrow> if row_ids E idCol u = d then plain_row r cols u else no_row r | None \<Rightarrow> no_row r)"
    using k(2) by (simp add: T doc_view_def split: option.splits)
  have same: "T (ir_TableName r) k = x \<Longrightarrow> T(ir_TableName r := (doc_view E r cols idCol d R)(k := x)) = T" for x
    using T by (metis fun_upd_triv)
  note facts = view fits rows same
  consider (ins) v where "w = (None, Some v)" | (del) u where "w = (Some u, None)"
    | (upd) u v where "w = (Some u, Some v)"
    using make by (cases w) (auto simp: op_makes_def split: option.splits)
  then show ?thesis
  proof cases
    case ins
    then show ?thesis using op_makes_insert[OF r, of idCol v E pkCols k cs] w make k facts
      by (auto simp: doc_view_update rows_after_def T)
  next
    case del
    then show ?thesis using op_makes_delete[OF r, of idCol u E pkCols k cs] w make k facts
      by (auto simp: doc_view_update rows_after_def T)
  next
    case upd
    then show ?thesis using op_makes_update[OF r, of idCol u v E pkCols k cs] w make k facts
      by (auto simp: doc_view_update rows_after_def T split: if_splits)
  qed
qed


lemma ops_history:
  assumes "plain_rule r cols" and "\<forall>w\<in>set ws. full_op cols idCol w"
    and "ops_make E r pkCols cols idCol ws cs" and "replay_ops E pkCols R ws = Some R'"
    and "cf (ir_TableName r) = plain_columns r cols" and "cm (ir_TableName r) = ir_ColumnMap r"
    and "T (ir_TableName r) = doc_view E r cols idCol d R"
  shows "row_history cf cm T (doc_changes (ir_Index r) d cs) \<and>
     rows_after T (doc_changes (ir_Index r) d cs) = T(ir_TableName r := doc_view E r cols idCol d R')"
  using assms
proof (induction ws arbitrary: cs R T)
  case Nil
  then show ?case by (simp add: rows_after_def) (metis fun_upd_triv)
next
  case (Cons w ws)
  from Cons.prems(3) obtain c cs' where cs: "cs = c @ cs'" "op_makes E r pkCols cols idCol w c"
    "ops_make E r pkCols cols idCol ws cs'"
    by (auto simp: ops_make.simps)
  from Cons.prems(4) obtain R1 where R1: "op_step E pkCols R w = Some R1" "replay_ops E pkCols R1 ws = Some R'"
    by (auto split: option.splits)
  have h1: "row_history cf cm T (doc_changes (ir_Index r) d c) \<and>
     rows_after T (doc_changes (ir_Index r) d c) = T(ir_TableName r := doc_view E r cols idCol d R1)"
    using Cons.prems by (intro op_history[OF _ _ cs(2) R1(1)]) auto
  have "row_history cf cm (rows_after T (doc_changes (ir_Index r) d c)) (doc_changes (ir_Index r) d cs') \<and>
     rows_after (rows_after T (doc_changes (ir_Index r) d c)) (doc_changes (ir_Index r) d cs') =
       (rows_after T (doc_changes (ir_Index r) d c))(ir_TableName r := doc_view E r cols idCol d R')"
    using Cons.prems h1 by (intro Cons.IH[OF _ _ cs(3) R1(2)]) auto
  with h1 show ?case by (simp add: cs(1) row_history_append rows_after_append)
qed

subsection \<open>Rules and events\<close>

definition rule_for :: "IngestRule list \<Rightarrow> string \<Rightarrow> string \<Rightarrow> IngestRule option" where
  "rule_for rs index tb = List.find (\<lambda>r. ir_Index r = index \<and> ir_TableName r = tb) rs"

text \<open>
  An index with plain rules: they belong to different tables, and each finds its id column.
\<close>

definition plain_index :: "schema \<Rightarrow> IngestRule list \<Rightarrow> string \<Rightarrow> bool" where
  "plain_index S rs index \<longleftrightarrow>
     distinct (map ir_TableName (filter (\<lambda>r. ir_Index r = index) rs)) \<and>
     (\<forall>r\<in>set rs. ir_Index r = index \<longrightarrow>
        plain_rule r (sch_Columns S (ir_TableName r)) \<and>
        ir_DocIDField r \<in> set (sch_Columns S (ir_TableName r)))"

lemma rule_for_Some:
  "rule_for rs index tb = Some r \<Longrightarrow> r \<in> set rs \<and> ir_Index r = index \<and> ir_TableName r = tb"
  by (auto simp: rule_for_def find_Some_iff)

lemma rule_for_None:
  "rule_for rs index tb = None \<longleftrightarrow> (\<forall>r\<in>set rs. ir_Index r = index \<longrightarrow> ir_TableName r \<noteq> tb)"
  by (auto simp: rule_for_def find_None_iff)

lemma find_index_Some: "x \<in> set xs \<Longrightarrow> \<exists>i. find_index x xs = Some i"
  by (induction xs) auto

lemma Apply_other_table: "ir_TableName r \<noteq> ev_Table e \<Longrightarrow> IngestRule_Apply E r clock e = Inr None"
  by (simp add: IngestRule_Apply_def)

lemma Apply_index:
  "IngestRule_Apply E r clock e = Inr (Some cs) \<Longrightarrow> c \<in> set cs \<Longrightarrow> trc_Index c = ir_Index r"
  using Apply_changes by (auto simp: rule_change_def Let_def)

lemma Apply_plain_ops:
  assumes "IngestRule_Apply E r clock e = Inr docs" and "ir_TableName r = ev_Table e"
    and "plain_rule r (ev_Columns e)"
  obtains idCol cs where "docs = Some cs" "find_index (ir_DocIDField r) (ev_Columns e) = Some idCol"
    "ops_make E r (realPKColumns e) (ev_Columns e) idCol (event_row_ops e) cs"
proof -
  obtain cs where docs: "docs = Some cs"
    using assms by (auto simp: IngestRule_Apply_def json_type_matches_def plain_rule_def bindR_eq_Inr Let_def)
  with assms(1) obtain idCol where "find_index (ir_DocIDField r) (ev_Columns e) = Some idCol"
    and cs: "ev_Action e = InsertAction \<and>
       makeInsertChangeSet E r clock (realPKColumns e) (ev_Columns e) idCol 0 (ev_Rows e) = Inr cs \<or>
     ev_Action e = UpdateAction \<and>
       makeUpdateChangeSet E r clock (realPKColumns e) (ev_Columns e) idCol 0 (ev_Rows e) = Inr cs \<or>
     ev_Action e = DeleteAction \<and>
       makeDeleteChangeSet E r clock (realPKColumns e) (ev_Columns e) idCol 0 (ev_Rows e) = Inr cs"
    by (blast elim: Apply_Some_cases)
  moreover from cs have "ops_make E r (realPKColumns e) (ev_Columns e) idCol (event_row_ops e) cs"
    by (auto simp: event_row_ops_def dest: makeInsertChangeSet_ops makeDeleteChangeSet_ops makeUpdateChangeSet_ops)
  ultimately show thesis using that docs by blast
qed

text \<open>The changes an event sends for an index are those of the one rule that reads its table.\<close>

abbreviation index_changes :: "string \<Rightarrow> TableRowChange list \<Rightarrow> TableRowChange list" where
  "index_changes index cs \<equiv> filter (\<lambda>c. trc_Index c = index) cs"

lemma apply_rules_no_rule:
  assumes "apply_rules E clock k rs e = (cs, None)" and "rule_for rs index (ev_Table e) = None"
  shows "index_changes index cs = []"
  using assms
proof (induction rs arbitrary: k cs)
  case (Cons r rs)
  then obtain docs cs' where docs: "IngestRule_Apply E r (clock k) e = Inr docs"
    and rest: "apply_rules E clock (Suc k) rs e = (cs', None)"
    and cs: "cs = (case docs of None \<Rightarrow> [] | Some c \<Rightarrow> c) @ cs'"
    by (cases "apply_rules E clock (Suc k) rs e")
      (auto simp: Let_def split: sum.splits option.splits)
  have "index_changes index (case docs of None \<Rightarrow> [] | Some c \<Rightarrow> c) = []"
  proof (cases "ir_Index r = index")
    case True
    then have "ir_TableName r \<noteq> ev_Table e" using Cons.prems(2) by (simp add: rule_for_None)
    with docs show ?thesis by (simp add: Apply_other_table)
  next
    case False
    then show ?thesis using docs Apply_index by (fastforce split: option.splits)
  qed
  moreover have "index_changes index cs' = []"
    using Cons.IH[OF rest] Cons.prems(2) by (simp add: rule_for_None)
  ultimately show ?case by (simp add: cs)
qed simp

lemma apply_rules_rule:
  assumes "apply_rules E clock k rs e = (cs, None)" and "rule_for rs index (ev_Table e) = Some r"
    and "distinct (map ir_TableName (filter (\<lambda>r. ir_Index r = index) rs))"
  shows "\<exists>t docs. IngestRule_Apply E r t e = Inr docs \<and>
     index_changes index cs = (case docs of None \<Rightarrow> [] | Some c \<Rightarrow> c)"
  using assms
proof (induction rs arbitrary: k cs)
  case (Cons r' rs)
  then obtain docs cs' where docs: "IngestRule_Apply E r' (clock k) e = Inr docs"
    and rest: "apply_rules E clock (Suc k) rs e = (cs', None)"
    and cs: "cs = (case docs of None \<Rightarrow> [] | Some c \<Rightarrow> c) @ cs'"
    by (cases "apply_rules E clock (Suc k) rs e")
      (auto simp: Let_def split: sum.splits option.splits)
  show ?case
  proof (cases "ir_Index r' = index \<and> ir_TableName r' = ev_Table e")
    case True
    with Cons.prems(2) have r: "r = r'" by (simp add: rule_for_def)
    have "rule_for rs index (ev_Table e) = None"
      using True Cons.prems(3) by (force simp: rule_for_None)
    with rest have "index_changes index cs' = []" by (rule apply_rules_no_rule)
    moreover have "index_changes index (case docs of None \<Rightarrow> [] | Some c \<Rightarrow> c) =
        (case docs of None \<Rightarrow> [] | Some c \<Rightarrow> c)"
      using docs True Apply_index by (fastforce split: option.splits simp: filter_id_conv)
    ultimately show ?thesis using docs r cs by auto
  next
    case False
    then have "index_changes index (case docs of None \<Rightarrow> [] | Some c \<Rightarrow> c) = []"
      using docs Apply_index[of E r'] Apply_other_table[of r' e E "clock k"]
      by (cases "ir_Index r' = index") (fastforce split: option.splits)+
    moreover have "rule_for rs index (ev_Table e) = Some r"
      using Cons.prems(2) False by (auto simp: rule_for_def)
    moreover have "distinct (map ir_TableName (filter (\<lambda>r. ir_Index r = index) rs))"
      using Cons.prems(3) by (auto split: if_splits)
    ultimately show ?thesis using Cons.IH[OF rest] by (simp add: cs)
  qed
qed (simp add: rule_for_def)


subsection \<open>The history of a document of an index\<close>

text \<open>What the rules of an index see of a document, and the columns they list.\<close>

definition id_column :: "schema \<Rightarrow> IngestRule \<Rightarrow> nat" where
  "id_column S r = (case find_index (ir_DocIDField r) (sch_Columns S (ir_TableName r)) of
     Some i \<Rightarrow> i | None \<Rightarrow> 0)"

definition index_view ::
  "go_env \<Rightarrow> schema \<Rightarrow> IngestRule list \<Rightarrow> string \<Rightarrow> 64 word \<Rightarrow> (string \<Rightarrow> table_rows) \<Rightarrow> doc_rows" where
  "index_view E S rs index d D tb =
     (case rule_for rs index tb of
        None \<Rightarrow> (\<lambda>_. [])
      | Some r \<Rightarrow> doc_view E r (sch_Columns S tb) (id_column S r) d (D tb))"

definition index_columns :: "schema \<Rightarrow> IngestRule list \<Rightarrow> string \<Rightarrow> string \<Rightarrow> string list" where
  "index_columns S rs index tb =
     (case rule_for rs index tb of None \<Rightarrow> [] | Some r \<Rightarrow> plain_columns r (sch_Columns S tb))"

definition index_map :: "IngestRule list \<Rightarrow> string \<Rightarrow> string \<Rightarrow> column_map" where
  "index_map rs index tb = (case rule_for rs index tb of None \<Rightarrow> [] | Some r \<Rightarrow> ir_ColumnMap r)"

text \<open>Events with full row images in which no row lacks its document id.\<close>

definition readable :: "schema \<Rightarrow> IngestRule list \<Rightarrow> string \<Rightarrow> rows_event \<Rightarrow> bool" where
  "readable S rs index e \<longleftrightarrow>
     event_fits S e \<and>
     (\<forall>r. rule_for rs index (ev_Table e) = Some r \<longrightarrow>
        (\<forall>u\<in>set (ev_Rows e). u ! id_column S r \<noteq> GNil))"

lemma row_ops_rows:
  "w \<in> set (event_row_ops e) \<Longrightarrow> fst w = Some u \<or> snd w = Some u \<Longrightarrow> u \<in> set (ev_Rows e)"
proof -
  have pairs: "w \<in> set (update_pairs rs) \<Longrightarrow> fst w = Some u \<or> snd w = Some u \<Longrightarrow> u \<in> set rs" for rs
    by (induction rs rule: update_pairs.induct) auto
  show "w \<in> set (event_row_ops e) \<Longrightarrow> fst w = Some u \<or> snd w = Some u \<Longrightarrow> u \<in> set (ev_Rows e)"
    using pairs by (auto simp: event_row_ops_def split: if_splits)
qed

lemma readable_ops:
  assumes "readable S rs index e" and "rule_for rs index (ev_Table e) = Some r"
    and "w \<in> set (event_row_ops e)"
  shows "full_op (ev_Columns e) (id_column S r) w"
  using assms row_ops_rows[OF assms(3)]
  by (auto simp: readable_def event_fits_def full_op_def full_row_def)

lemma doc_index_changes: "doc_changes index d cs = doc_changes index d (index_changes index cs)"
  by (simp add: conj_commute)

lemma index_view_other:
  "rule_for rs index tb = None \<Longrightarrow> index_view E S rs index d (D(tb := R)) = index_view E S rs index d D"
  by (auto simp: index_view_def fun_eq_iff split: option.splits)

lemma event_history:
  assumes idx: "plain_index S rs index" and e: "readable S rs index e"
    and sent: "apply_rules E clock 0 rs e = (cs, None)" and D: "replay_event E D e = Some D'"
  shows "row_history (index_columns S rs index) (index_map rs index) (index_view E S rs index d D)
           (doc_changes index d cs) \<and>
     rows_after (index_view E S rs index d D) (doc_changes index d cs) = index_view E S rs index d D'"
proof -
  obtain R where R: "replay_ops E (realPKColumns e) (D (ev_Table e)) (event_row_ops e) = Some R"
    and D': "D' = D(ev_Table e := R)"
    using D by (auto simp: replay_event_def)
  show ?thesis
  proof (cases "rule_for rs index (ev_Table e)")
    case None
    with apply_rules_no_rule[OF sent this] show ?thesis
      by (subst (1 2) doc_index_changes) (simp add: rows_after_def D' index_view_other)
  next
    case (Some r)
    note r = rule_for_Some[OF Some]
    have plain: "plain_rule r (ev_Columns e)" and field: "ir_DocIDField r \<in> set (ev_Columns e)"
      using idx r e by (auto simp: plain_index_def readable_def event_fits_def)
    obtain t docs where docs: "IngestRule_Apply E r t e = Inr docs"
      and cs: "index_changes index cs = (case docs of None \<Rightarrow> [] | Some c \<Rightarrow> c)"
      using apply_rules_rule[OF sent Some] idx by (auto simp: plain_index_def)
    from docs r obtain idCol c where c: "docs = Some c"
      "find_index (ir_DocIDField r) (ev_Columns e) = Some idCol"
      "ops_make E r (realPKColumns e) (ev_Columns e) idCol (event_row_ops e) c"
      by (metis Apply_plain_ops plain)
    have cols: "ev_Columns e = sch_Columns S (ev_Table e)"
      using e by (simp add: readable_def event_fits_def)
    then have idCol: "idCol = id_column S r" using c(2) r by (simp add: id_column_def)
    have "row_history (index_columns S rs index) (index_map rs index) (index_view E S rs index d D)
           (doc_changes (ir_Index r) d c) \<and>
       rows_after (index_view E S rs index d D) (doc_changes (ir_Index r) d c) =
         (index_view E S rs index d D)(ir_TableName r :=
            doc_view E r (ev_Columns e) idCol d R)"
      using plain readable_ops[OF e Some] c(3) R r
      by (intro ops_history[where pkCols = "realPKColumns e" and ws = "event_row_ops e" and
            R = "D (ev_Table e)"])
        (auto simp: index_columns_def index_map_def index_view_def Some cols idCol)
    moreover have "(index_view E S rs index d D)(ir_TableName r := doc_view E r (ev_Columns e) idCol d R) =
        index_view E S rs index d D'"
      using r by (auto simp: index_view_def D' Some cols idCol fun_eq_iff split: option.split)
    ultimately show ?thesis
      using cs c(1) r by (subst (1 2) doc_index_changes) (simp add: conj_commute)
  qed
qed

text \<open>The changes that a list of events puts into the sync channel when no rule fails.\<close>

fun send_events ::
  "go_env \<Rightarrow> (nat \<Rightarrow> nat \<Rightarrow> nat \<Rightarrow> int) \<Rightarrow> IngestRule list \<Rightarrow> rows_event list \<Rightarrow> TableRowChange list option" where
  "send_events E clock rs [] = Some []"
| "send_events E clock rs (e # es) =
     (case snd (ApplyRuleSet E (clock (length es)) rs e) of
        (cs, None) \<Rightarrow> map_option ((@) cs) (send_events E clock rs es)
      | (cs, Some f) \<Rightarrow> None)"

lemma ApplyRuleSet_ok:
  "snd (ApplyRuleSet E clock rs e) = (cs, None) \<Longrightarrow> apply_rules E clock 0 rs e = (cs, None)"
  by (simp add: ApplyRuleSet_def Let_def split: option.splits)

lemma events_history:
  assumes "plain_index S rs index" and "\<forall>e\<in>set es. readable S rs index e"
    and "send_events E clock rs es = Some cs" and "replay_events E D es = Some D'"
  shows "row_history (index_columns S rs index) (index_map rs index) (index_view E S rs index d D)
           (doc_changes index d cs) \<and>
     rows_after (index_view E S rs index d D) (doc_changes index d cs) = index_view E S rs index d D'"
  using assms
proof (induction es arbitrary: cs D)
  case (Cons e es)
  from Cons.prems(3) obtain c cs' where c: "snd (ApplyRuleSet E (clock (length es)) rs e) = (c, None)"
    and cs': "send_events E clock rs es = Some cs'" and cs: "cs = c @ cs'"
    by (auto split: prod.splits option.splits)
  from Cons.prems(4) obtain D1 where D1: "replay_event E D e = Some D1" "replay_events E D1 es = Some D'"
    by (auto split: option.splits)
  note h = event_history[OF Cons.prems(1) _ ApplyRuleSet_ok[OF c] D1(1), of d]
  show ?case
    using h Cons.IH[OF Cons.prems(1) _ cs' D1(2)] Cons.prems(2)
    by (simp add: cs row_history_append rows_after_append)
qed (simp add: rows_after_def)


subsection \<open>The source values of an attribute\<close>

text \<open>
  The columns of a row that feed an attribute, and the values the rows of a document have in them,
  leaving out rows in which they are all NULL.
\<close>

definition source_tuple :: "IngestRule \<Rightarrow> string list \<Rightarrow> string \<Rightarrow> row \<Rightarrow> gval list" where
  "source_tuple r cols a u =
     map snd (filter (\<lambda>cv. a \<in> set (mapped_attrs (ir_ColumnMap r) (fst cv))) (zip cols u))"

definition attr_values ::
  "go_env \<Rightarrow> IngestRule \<Rightarrow> string list \<Rightarrow> nat \<Rightarrow> 64 word \<Rightarrow> string \<Rightarrow> table_rows \<Rightarrow> gval list set" where
  "attr_values E r cols idCol d a R =
     {map (hashable E) (source_tuple r cols a u) | u.
        u \<in> ran R \<and> row_ids E idCol u = d \<and> \<not> list_all (\<lambda>v. v = GNil) (source_tuple r cols a u)}"

lemma hashable_eq_GNil [simp]: "hashable E v = GNil \<longleftrightarrow> v = GNil"
  by (cases v) (auto split: option.splits)

lemma map_hashable_replicate: "map (hashable E) vs = replicate (length vs) GNil \<longleftrightarrow> list_all (\<lambda>v. v = GNil) vs"
  by (induction vs) auto

lemma nth_filter_zip:
  "length names = length vals \<Longrightarrow>
   map ((!) vals) (filter (\<lambda>j. Q (names ! j)) [0..<length names]) =
   map snd (filter (\<lambda>cv. Q (fst cv)) (zip names vals))"
proof -
  assume "length names = length vals"
  then have "zip names vals = map (\<lambda>j. (names ! j, vals ! j)) [0..<length names]"
    by (auto intro: nth_equalityI)
  then show ?thesis by (simp add: filter_map comp_def)
qed

lemma source_tuple_plain:
  assumes "plain_rule r cols" and "length u = length cols"
  shows "map ((!) (plain_row r cols u)) (attr_columns (plain_columns r cols) (ir_ColumnMap r) a) =
     source_tuple r cols a u"
proof -
  let ?Q = "\<lambda>col. a \<in> set (mapped_attrs (ir_ColumnMap r) col)"
  let ?m = "filter (\<lambda>cv. mapped r (fst cv)) (zip cols u)"
  let ?pad = "length (ir_ColumnMap r) - length ?m"
  have len: "length (plain_columns r cols) = length (plain_row r cols u)"
    using plain_row_length[of cols u r] assms by (simp add: plain_rule_def)
  have m: "map fst ?m = filter (mapped r) cols" using assms(2) by (simp add: zip_filter_fst)
  then have lm: "length (filter (mapped r) cols) = length ?m" by (metis length_map)
  have "zip (plain_columns r cols) (plain_row r cols u) = ?m @ replicate ?pad ([], GNil)"
    by (simp add: plain_columns_def plain_row_def Let_def m[symmetric] zip_map_fst_snd lm)
  moreover have "\<not> ?Q []" using assms(1) by (simp add: plain_rule_def mapped_attrs_def)
  moreover have "filter (\<lambda>cv. ?Q (fst cv)) ?m = filter (\<lambda>cv. ?Q (fst cv)) (zip cols u)"
    by (auto simp: mapped_def mapped_attrs_def intro!: filter_cong split: option.splits dest: sym)
  moreover have "map ((!) (plain_row r cols u)) (attr_columns (plain_columns r cols) (ir_ColumnMap r) a) =
      map snd (filter (\<lambda>cv. ?Q (fst cv)) (zip (plain_columns r cols) (plain_row r cols u)))"
    unfolding attr_columns_def by (rule nth_filter_zip[OF len])
  ultimately show ?thesis by (simp add: source_tuple_def)
qed

lemma column_values_doc_view:
  assumes r: "plain_rule r cols" and full: "\<forall>u\<in>ran R. length u = length cols"
  shows "column_values E (attr_columns (plain_columns r cols) (ir_ColumnMap r) a)
       (doc_view E r cols idCol d R) = attr_values E r cols idCol d a R"
proof -
  let ?J = "attr_columns (plain_columns r cols) (ir_ColumnMap r) a"
  let ?view = "doc_view E r cols idCol d R"
  have J: "\<forall>j\<in>set ?J. j < length (ir_ColumnMap r)"
    using r plain_row_length(2)[of cols "replicate (length cols) GNil" r]
    by (auto simp: attr_columns_def plain_rule_def)
  have none: "map (\<lambda>j. hashable E (no_row r ! j)) ?J = replicate (length ?J) GNil"
    using J by (auto simp: list_eq_iff_nth_eq)
  have row: "map (\<lambda>j. hashable E (plain_row r cols u ! j)) ?J = map (hashable E) (source_tuple r cols a u)"
    and len: "length (source_tuple r cols a u) = length ?J" if "u \<in> ran R" for u
    using source_tuple_plain[OF r, of u a] full that by (auto simp: comp_def dest: sym)
  show ?thesis
  proof (intro set_eqI iffI)
    fix x assume "x \<in> column_values E ?J ?view"
    then obtain k where x: "x = map (\<lambda>j. hashable E (?view k ! j)) ?J" "x \<noteq> replicate (length ?J) GNil"
      by (auto simp: column_values_def)
    with none obtain u where u: "R k = Some u" "row_ids E idCol u = d"
      by (auto simp: doc_view_def split: option.splits if_splits)
    then have ran: "u \<in> ran R" by (auto simp: ran_def)
    have "x = map (hashable E) (source_tuple r cols a u)"
      using x(1) u row[OF ran] by (simp add: doc_view_def)
    moreover have "\<not> list_all (\<lambda>v. v = GNil) (source_tuple r cols a u)"
      using x(2) calculation map_hashable_replicate len[OF ran] by metis
    ultimately show "x \<in> attr_values E r cols idCol d a R" using ran u(2) by (auto simp: attr_values_def)
  next
    fix x assume "x \<in> attr_values E r cols idCol d a R"
    then obtain u k where u: "R k = Some u" "row_ids E idCol u = d"
      and x: "x = map (hashable E) (source_tuple r cols a u)" "\<not> list_all (\<lambda>v. v = GNil) (source_tuple r cols a u)"
      by (auto simp: attr_values_def ran_def)
    then have ran: "u \<in> ran R" by (auto simp: ran_def)
    have "x = map (\<lambda>j. hashable E (?view k ! j)) ?J"
      using u x(1) row[OF ran] by (simp add: doc_view_def)
    moreover have "x \<noteq> replicate (length ?J) GNil"
      using x map_hashable_replicate len[OF ran] by metis
    ultimately show "x \<in> column_values E ?J ?view" by (auto simp: column_values_def)
  qed
qed

text \<open>Full row images keep the tables full.\<close>

definition full_tables :: "schema \<Rightarrow> (string \<Rightarrow> table_rows) \<Rightarrow> bool" where
  "full_tables S D \<longleftrightarrow> (\<forall>tb. \<forall>u\<in>ran (D tb). length u = length (sch_Columns S tb))"

lemma replay_ops_ran:
  "replay_ops E pkCols R ws = Some R' \<Longrightarrow> \<forall>u\<in>ran R. P u \<Longrightarrow>
   \<forall>w\<in>set ws. \<forall>u. snd w = Some u \<longrightarrow> P u \<Longrightarrow> \<forall>u\<in>ran R'. P u"
proof (induction ws arbitrary: R)
  case (Cons w ws)
  then obtain R1 where R1: "op_step E pkCols R w = Some R1" "replay_ops E pkCols R1 ws = Some R'"
    by (auto split: option.splits)
  then obtain k where "R1 = R(k := snd w)" by (auto simp: op_step_Some)
  with Cons.prems(2,3) have "\<forall>u\<in>ran R1. P u" unfolding ran_def by (auto split: if_splits)
  with Cons R1(2) show ?case by simp
qed simp

lemma replay_full:
  "replay_events E D es = Some D' \<Longrightarrow> full_tables S D \<Longrightarrow> \<forall>e\<in>set es. event_fits S e \<Longrightarrow> full_tables S D'"
proof (induction es arbitrary: D)
  case (Cons e es)
  then obtain D1 where D1: "replay_event E D e = Some D1" "replay_events E D1 es = Some D'"
    by (auto split: option.splits)
  then obtain R where R: "replay_ops E (realPKColumns e) (D (ev_Table e)) (event_row_ops e) = Some R"
    and D1': "D1 = D(ev_Table e := R)"
    by (auto simp: replay_event_def)
  have "\<forall>u\<in>ran R. length u = length (sch_Columns S (ev_Table e))"
    using Cons.prems row_ops_rows
    by (intro replay_ops_ran[OF R]) (auto simp: full_tables_def event_fits_def)
  then have "full_tables S D1" using Cons.prems(2) by (auto simp: full_tables_def D1')
  with Cons.IH[OF D1(2)] Cons.prems(3) show ?case by simp
qed simp


subsection \<open>Through the queue\<close>

text \<open>The sync loop tags a row change with an event id before it queues it.\<close>

abbreviation untagged :: "TableRowChange \<Rightarrow> TableRowChange" where
  "untagged c \<equiv> c\<lparr>trc_EventID := 0\<rparr>"

lemma untagged_history:
  "row_history cf cm T (map untagged cs) \<longleftrightarrow> row_history cf cm T cs"
  "rows_after T (map untagged cs) = rows_after T cs"
  by (induction cs arbitrary: T)
    (simp_all add: change_fits_def known_action_def apply_change_def rows_after_def)

lemma untagged_doc_changes:
  "doc_changes index d (map untagged cs) = map untagged (doc_changes index d cs)"
  by (simp add: filter_map comp_def)

definition queued :: "TableRowChange list \<Rightarrow> BatchedChangeSet" where
  "queued cs = foldl AddRowChange (NewBatchedChangeSet []) cs"

definition attr_unreported :: "go_env \<Rightarrow> DocumentChange option \<Rightarrow> string \<Rightarrow> bool" where
  "attr_unreported E doc a \<longleftrightarrow>
     (case doc of None \<Rightarrow> True
      | Some dc \<Rightarrow> (case ChangedAttrs E (dc_Changes dc) of Inl f \<Rightarrow> False | Inr attrs \<Rightarrow> a \<notin> attrs))"

text \<open>\<open>same_values\<close>: in every table of the index the rows of the document feed the attribute with the same values.\<close>

definition same_values ::
  "go_env \<Rightarrow> schema \<Rightarrow> IngestRule list \<Rightarrow> string \<Rightarrow> 64 word \<Rightarrow> string \<Rightarrow>
   (string \<Rightarrow> table_rows) \<Rightarrow> (string \<Rightarrow> table_rows) \<Rightarrow> bool" where
  "same_values E S rs index d a D D' \<longleftrightarrow>
     (\<forall>tb r. rule_for rs index tb = Some r \<longrightarrow>
        attr_values E r (sch_Columns S tb) (id_column S r) d a (D tb) =
        attr_values E r (sch_Columns S tb) (id_column S r) d a (D' tb))"

lemma ChangedAttrs_Nil: "ChangedAttrs E [] = Inr {}"
  by (simp add: ChangedAttrs_def NewDocChangeSet_def PruneUnchangedTables_def)

lemma history_values:
  assumes idx: "plain_index S rs index" and D: "full_tables S D" and D': "full_tables S D'"
    and h: "row_history (index_columns S rs index) (index_map rs index) (index_view E S rs index d D) cs"
    and after: "rows_after (index_view E S rs index d D) cs = index_view E S rs index d D'"
    and attrs: "ChangedAttrs E cs = Inr attrs" "a \<notin> attrs"
  shows "same_values E S rs index d a D D'"
  unfolding same_values_def
proof (intro allI impI)
  fix tb r
  assume r: "rule_for rs index tb = Some r"
  have plain: "plain_rule r (sch_Columns S tb)"
    using idx rule_for_Some[OF r] by (auto simp: plain_index_def)
  from ChangedAttrs_table_sound[OF h attrs, of tb]
  show "attr_values E r (sch_Columns S tb) (id_column S r) d a (D tb) =
        attr_values E r (sch_Columns S tb) (id_column S r) d a (D' tb)"
    unfolding after using r plain D D'
    by (simp add: index_view_def index_columns_def index_map_def column_values_doc_view full_tables_def)
qed

lemma unreported_values:
  assumes idx: "plain_index S rs index" and es: "\<forall>e\<in>set es. readable S rs index e"
    and D: "full_tables S D" and sent: "send_events E clock rs es = Some cs"
    and D': "replay_events E D es = Some D'" and tags: "map untagged tagged = cs"
    and r: "rule_for rs index tb = Some r"
    and a: "attr_unreported E (batch_doc (queued tagged) index d) a"
  shows "attr_values E r (sch_Columns S tb) (id_column S r) d a (D tb) =
         attr_values E r (sch_Columns S tb) (id_column S r) d a (D' tb)"
proof -
  let ?cs = "doc_changes index d tagged"
  have h: "row_history (index_columns S rs index) (index_map rs index) (index_view E S rs index d D) ?cs"
    and after: "rows_after (index_view E S rs index d D) ?cs = index_view E S rs index d D'"
    using events_history[OF idx es sent D', of d]
    by (simp_all only: tags[symmetric] untagged_doc_changes untagged_history)
  have full': "full_tables S D'" using replay_full[OF D' D] es by (simp add: readable_def)
  obtain attrs where attrs: "ChangedAttrs E ?cs = Inr attrs" "a \<notin> attrs"
  proof (cases "?cs = []")
    case True
    with that show thesis by (simp add: ChangedAttrs_Nil)
  next
    case False
    then have "\<exists>dc. batch_doc (queued tagged) index d = Some dc \<and> dc_Changes dc = ?cs"
      using batch_doc_rows[of "[]" tagged index d] by (simp add: queued_def Let_def)
    with a have "case ChangedAttrs E ?cs of Inl f \<Rightarrow> False | Inr attrs \<Rightarrow> a \<notin> attrs"
      by (auto simp: attr_unreported_def)
    with that show thesis by (cases "ChangedAttrs E ?cs") auto
  qed
  from history_values[OF idx D full' h after this] r show ?thesis by (simp add: same_values_def)
qed

subsection \<open>Samples\<close>

definition sample_schema :: schema where
  "sample_schema = \<lparr>sch_Columns = (\<lambda>_. ev_Columns sample_event), sch_PKColumns = (\<lambda>_. [0])\<rparr>"

definition sample_update :: rows_event where
  "sample_update = sample_event\<lparr>ev_Rows :=
     [[GInt32 1, GInt32 5, GString ''x''], [GInt32 1, GInt32 5, GString ''y'']]\<rparr>"

definition sample_db :: "string \<Rightarrow> table_rows" where
  "sample_db = (\<lambda>_ _. None)(''db.t'' := (\<lambda>_. None)(PrimaryKey 1 (GInt32 1 # replicate 15 GNil) :=
     Some [GInt32 1, GInt32 5, GString ''x'']))"

lemma sample_plain_index: "plain_index sample_schema [sample_rule] ''i''"
  by code_simp

lemma sample_readable: "readable sample_schema [sample_rule] ''i'' sample_update"
  unfolding readable_def
  by (intro conjI) (code_simp, simp add: rule_for_def sample_rule_def sample_update_def
      sample_event_def id_column_def sample_schema_def)

lemma sample_full: "full_tables sample_schema sample_db"
  by (auto simp: full_tables_def sample_db_def sample_schema_def sample_event_def ran_def split: if_splits)

definition sample_sent :: "TableRowChange list" where
  "sample_sent = the (send_events plain_env (\<lambda>_ _ _. 0) [sample_rule] [sample_update])"

lemma sample_send:
  "send_events plain_env (\<lambda>_ _ _. 0) [sample_rule] [sample_update] = Some sample_sent"
proof -
  have "send_events plain_env (\<lambda>_ _ _. 0) [sample_rule] [sample_update] \<noteq> None" by code_simp
  then show ?thesis by (simp add: sample_sent_def)
qed

lemma sample_replay: "\<exists>D'. replay_events plain_env sample_db [sample_update] = Some D'"
proof -
  have "(case replay_events plain_env sample_db [sample_update] of None \<Rightarrow> False | Some D' \<Rightarrow> True)"
    by code_simp
  then show ?thesis by (auto split: option.splits)
qed

lemma sample_unreported:
  "attr_unreported plain_env (batch_doc (queued (map (\<lambda>c. c\<lparr>trc_EventID := 3\<rparr>) sample_sent)) ''i'' 5) ''id'' \<and>
   \<not> attr_unreported plain_env (batch_doc (queued (map (\<lambda>c. c\<lparr>trc_EventID := 3\<rparr>) sample_sent)) ''i'' 5) ''field1''"
  by code_simp

end
