(* ===== verification/Master.thy ===== *)
theory Master
  imports Sphinx
begin

text \<open>
  \<open>src/river/master.go\<close>: the replication position that is known to be applied, with
  \<open>LoadSyncState\<close> and \<open>SaveSyncState\<close> of \<open>sphinx_service.go\<close>, which read and write it at the
  backends. The mutex is held for the whole of every method, so each is one step.
\<close>

record 'g positionEvent =
  pe_gtid :: "'g option"
  pe_pos :: Position
  pe_force :: bool

record 'g masterState =
  ms_flavor :: string
  ms_gtid :: "'g option"
  ms_pos :: "Position option"
  ms_useGTID :: bool
  ms_needPositionReset :: bool
  ms_skipFileSyncState :: bool

definition newMasterState :: "bool \<Rightarrow> string \<Rightarrow> 'g masterState" where
  "newMasterState useGTID flavor =
     \<lparr>ms_flavor = flavor, ms_gtid = None, ms_pos = None, ms_useGTID = useGTID,
      ms_needPositionReset = False, ms_skipFileSyncState = True\<rparr>"

definition updatePosition ::
  "'g gtid_env \<Rightarrow> 'g masterState \<Rightarrow> 'g positionEvent \<Rightarrow> 'g masterState \<times> bool" where
  "updatePosition G m posEvent =
     (let hasChanged = (case ms_pos m of None \<Rightarrow> True | Some p \<Rightarrow> ge_Compare G p (pe_pos posEvent) \<noteq> 0);
          m' = m\<lparr>ms_pos := Some (pe_pos posEvent)\<rparr>
      in case pe_gtid posEvent of
           None \<Rightarrow> (m', hasChanged)
         | Some g \<Rightarrow>
             (m'\<lparr>ms_gtid := Some g\<rparr>,
              hasChanged \<or> (case ms_gtid m of None \<Rightarrow> True | Some old \<Rightarrow> \<not> ge_Contain G old g)))"

definition gtidSet :: "'g masterState \<Rightarrow> 'g option" where
  "gtidSet m = ms_gtid m"

definition gtidString :: "'g gtid_env \<Rightarrow> 'g masterState \<Rightarrow> string" where
  "gtidString G m = (case ms_gtid m of None \<Rightarrow> [] | Some g \<Rightarrow> ge_String G g)"

definition empty_position :: Position where
  "empty_position = \<lparr>pos_Name = [], pos_Pos = 0\<rparr>"

definition master_position :: "'g masterState \<Rightarrow> Position" where
  "master_position m = (case ms_pos m of None \<Rightarrow> empty_position | Some p \<Rightarrow> p)"

definition master_syncState :: "'g masterState \<Rightarrow> 'g SyncState" where
  "master_syncState m =
     \<lparr>ss_Position = master_position m, ss_GTID = ms_gtid m, ss_Flavor = ms_flavor m\<rparr>"

text \<open>
  The provider answers with the current GTID set and position. A failing second answer leaves the
  first one assigned.
\<close>

definition resetToCurrent ::
  "'g result \<Rightarrow> Position result \<Rightarrow> 'g masterState \<Rightarrow> 'g masterState \<times> unit result" where
  "resetToCurrent currentGTID currentPos m =
     bindS (\<lambda>m. if ms_useGTID m
                then (case currentGTID of
                        Inl e \<Rightarrow> (m, Inl e) | Inr g \<Rightarrow> (m\<lparr>ms_gtid := Some g\<rparr>, Inr ()))
                else (m, Inr ()))
       (\<lambda>_ m. case currentPos of Inl e \<Rightarrow> (m, Inl e) | Inr p \<Rightarrow> (m\<lparr>ms_pos := Some p\<rparr>, Inr ())) m"

subsection \<open>The state at the backends (sphinx_service.go)\<close>

definition SphinxService_LoadSyncState ::
  "'b sph_env \<Rightarrow> 'g gtid_env \<Rightarrow> bool \<Rightarrow> 'b SphConn list option \<Rightarrow> 'g masterState \<Rightarrow>
   'b SphConn list option \<times> 'g masterState \<times> unit result" where
  "SphinxService_LoadSyncState S G skipSphSyncState sph m =
     (case sph of
        None \<Rightarrow> (None, m, Inl (Fails (ErrAnnotated ''error loading synchronization state'' ErrSphinxDisconnected)))
      | Some conns \<Rightarrow>
          if skipSphSyncState \<or> conns = [] then (sph, m, Inr ())
          else
            (let r = LoadSyncState S G conns
             in case snd r of
                  Inl e \<Rightarrow> (Some (fst r), m, Inl e)
                | Inr None \<Rightarrow> (Some (fst r), m, Inr ())
                | Inr (Some state) \<Rightarrow>
                    (Some (fst r),
                     fst (updatePosition G m
                       \<lparr>pe_gtid = ss_GTID state, pe_pos = ss_Position state, pe_force = False\<rparr>),
                     Inr ())))"

text \<open>The error is returned and also goes, annotated, to the channel of fatal errors.\<close>

definition SphinxService_SaveSyncState ::
  "'b sph_env \<Rightarrow> 'g gtid_env \<Rightarrow> 'b SphConn list option \<Rightarrow> 'g masterState \<Rightarrow>
   'b SphConn list option \<times> go_error list \<times> unit result" where
  "SphinxService_SaveSyncState S G sph m =
     (case sph of
        None \<Rightarrow> (None, [], Inl (Fails ErrSphinxDisconnected))
      | Some conns \<Rightarrow>
          (let r = SaveSyncState S G conns (master_syncState m)
           in (Some (fst r),
               (case snd r of
                  Inl (Fails e) \<Rightarrow> [ErrAnnotated ''could not connect to manticore'' e] | _ \<Rightarrow> []),
               snd r)))"

lemma updatePosition_pos [simp]: "ms_pos (fst (updatePosition G m ev)) = Some (pe_pos ev)"
  by (simp add: updatePosition_def Let_def split: option.splits)

lemma updatePosition_gtid:
  "ms_gtid (fst (updatePosition G m ev)) = (case pe_gtid ev of None \<Rightarrow> ms_gtid m | Some g \<Rightarrow> Some g)"
  by (simp add: updatePosition_def Let_def split: option.splits)

lemma updatePosition_unchanged:
  assumes "\<forall>p q. ge_Compare G p q = 0 \<longleftrightarrow> p = q" and "\<not> snd (updatePosition G m ev)"
  shows "ms_pos m = Some (pe_pos ev) \<and>
     (\<forall>g. pe_gtid ev = Some g \<longrightarrow> (\<exists>old. ms_gtid m = Some old \<and> ge_Contain G old g))"
  using assms by (auto simp: updatePosition_def Let_def split: option.splits)

end
