(* ===== verification/Sync.thy ===== *)
theory Sync
  imports Batch Master
begin

text \<open>
  \<open>src/river/sync.go\<close>: the replication event handler, which turns binlog events into position
  events, and the sync loop, which queues row changes, applies the ones that are ready in batches
  and moves the saved position up to the first change that is still queued.
\<close>

subsection \<open>The event handler\<close>

text \<open>
  The handler's fields; its output is what it puts into the sync channel. GTID sets of the two
  flavors are distinguished by their dynamic type: \<open>gt_mariadb g\<close> is the list of the subsets of a
  MariaDB set and \<open>None\<close> for another type; \<open>gt_AddSet\<close> is its \<open>AddSet\<close> method. The context's
  error is returned by every callback: \<open>ctx\<close>.
\<close>

record 'g handler_env =
  gt_mariadb :: "'g \<Rightarrow> 'g list option"
  gt_AddSet :: "'g \<Rightarrow> 'g \<Rightarrow> 'g result"

record 'g eventHandler =
  eh_activeGTID :: "'g option"
  eh_completedGTID :: "'g option"
  eh_pos :: Position

type_synonym ('g, 'a) handler_call =
  "'g eventHandler \<Rightarrow> 'g eventHandler \<times> 'g positionEvent list \<times> 'a result"

definition newReplicationEventHandler :: "'g masterState \<Rightarrow> 'g eventHandler" where
  "newReplicationEventHandler m =
     \<lparr>eh_activeGTID = gtidSet m, eh_completedGTID = gtidSet m, eh_pos = master_position m\<rparr>"

definition sendPositionEvent :: "'g eventHandler \<Rightarrow> bool \<Rightarrow> 'g option \<Rightarrow> 'g positionEvent" where
  "sendPositionEvent h forceFlush gtid =
     \<lparr>pe_gtid = (if gtid = None \<and> eh_completedGTID h \<noteq> None then eh_completedGTID h else gtid),
      pe_pos = eh_pos h, pe_force = forceFlush\<rparr>"

text \<open>
  For a MariaDB set its subsets are added to the active set, which must be a MariaDB set too: the
  type assertion panics on a nil interface and on a set of the other type.
\<close>

definition updateGTID :: "'g handler_env \<Rightarrow> 'g option \<Rightarrow> ('g eventHandler, unit) call" where
  "updateGTID H gtid h =
     (case gtid of
        None \<Rightarrow> (h, Inr ())
      | Some g \<Rightarrow>
          (case gt_mariadb H g of
             None \<Rightarrow> (h\<lparr>eh_activeGTID := Some g\<rparr>, Inr ())
           | Some subsets \<Rightarrow>
               eachS (\<lambda>subset h.
                   case eh_activeGTID h of
                     None \<Rightarrow> (h, Inl (Panics TypeAssertion))
                   | Some a \<Rightarrow>
                       (if gt_mariadb H a = None then (h, Inl (Panics TypeAssertion))
                        else (case gt_AddSet H a subset of
                                Inl e \<Rightarrow> (h, Inl e)
                              | Inr a' \<Rightarrow> (h\<lparr>eh_activeGTID := Some a'\<rparr>, Inr ()))))
                 subsets h))"

definition OnRotate :: "unit result \<Rightarrow> string \<Rightarrow> 64 word \<Rightarrow> ('g, unit) handler_call" where
  "OnRotate ctx nextLogName position h =
     (let h' = h\<lparr>eh_pos := \<lparr>pos_Name = nextLogName, pos_Pos = ucast position\<rparr>\<rparr>
      in (h', [sendPositionEvent h' True None], ctx))"

definition OnDDL ::
  "'g handler_env \<Rightarrow> unit result \<Rightarrow> Position \<Rightarrow> 'g option \<Rightarrow> ('g, unit) handler_call" where
  "OnDDL H ctx nextPos gset h =
     (let u = updateGTID H gset h
      in case snd u of
           Inl e \<Rightarrow> (fst u, [], Inl e)
         | Inr _ \<Rightarrow> (let h' = (fst u)\<lparr>eh_pos := nextPos\<rparr> in (h', [sendPositionEvent h' True gset], ctx)))"

text \<open>\<open>h.activeGTID.Clone()\<close> on a nil interface is a nil dereference.\<close>

definition OnXID :: "int \<Rightarrow> unit result \<Rightarrow> Position \<Rightarrow> ('g, unit) handler_call" where
  "OnXID flushBulkTime ctx nextPos h =
     (let h' = h\<lparr>eh_pos := nextPos\<rparr>
      in case eh_activeGTID h' of
           None \<Rightarrow> (h', [], Inl (Panics NilDereference))
         | Some a \<Rightarrow>
             (let h'' = h'\<lparr>eh_completedGTID := Some a\<rparr>
              in (h'', [sendPositionEvent h'' (flushBulkTime = 0) None], ctx)))"

definition OnGTID :: "'g handler_env \<Rightarrow> unit result \<Rightarrow> 'g option \<Rightarrow> ('g, unit) handler_call" where
  "OnGTID H ctx gtid h =
     (let u = updateGTID H gtid h
      in case snd u of
           Inl e \<Rightarrow> (fst u, [], Inl e)
         | Inr _ \<Rightarrow> (fst u, [sendPositionEvent (fst u) False gtid], ctx))"

definition OnPosSynced ::
  "'g handler_env \<Rightarrow> unit result \<Rightarrow> Position \<Rightarrow> 'g option \<Rightarrow> bool \<Rightarrow> ('g, unit) handler_call" where
  "OnPosSynced H ctx pos gtid force h =
     (let u = updateGTID H gtid h
      in case snd u of
           Inl e \<Rightarrow> (fst u, [], Inl e)
         | Inr _ \<Rightarrow> (let h' = (fst u)\<lparr>eh_pos := pos\<rparr> in (h', [sendPositionEvent h' force gtid], ctx)))"

subsection \<open>The state of the sync loop\<close>

text \<open>
  The map of subscriptions is keyed by \<open>mysql.GTIDSet\<close> interfaces holding pointers, so the keys
  are the pointers: \<open>gref\<close> pairs an address with the set it points to. \<open>gs_c\<close> names the
  subscriber's channel (of capacity one, used once).
\<close>

type_synonym 'g gref = "nat \<times> 'g"

record 'g gtidSubscriber =
  gs_c :: nat
  gs_gtid :: "'g gref option"
  gs_peer :: string

record 'g syncState =
  sy_queue :: BatchedChangeSet
  sy_staged :: BatchedChangeSet
  sy_gtidSubscribers :: "(string, ('g gref, 'g gtidSubscriber list) amap) amap"
  sy_firstPositionEventID :: "64 word"
  sy_lastPositionEventID :: "64 word"
  sy_positionEvents :: "'g positionEvent list"
  sy_flushC :: bool
  sy_flushTimer :: bool

text \<open>What \<open>acceptMessage\<close>'s select can receive: channel values, a tick of \<open>flushC\<close>, cancellation.\<close>

datatype 'g message =
    PositionMsg "'g positionEvent"
  | RowMsg TableRowChange
  | SubscribeMsg "'g gtidSubscriber"
  | CancelMsg string
  | FlushTick
  | CtxDone

record syncActionNeed =
  need_flush :: bool
  need_stop :: bool

definition no_need :: syncActionNeed where
  "no_need = \<lparr>need_flush = False, need_stop = False\<rparr>"

definition processGTIDSubscribeRequest ::
  "'g gtid_env \<Rightarrow> 'g masterState \<Rightarrow> 'g gtidSubscriber \<Rightarrow> 'g syncState \<Rightarrow>
   ('g syncState \<times> (nat \<times> 'g) list) result" where
  "processGTIDSubscribeRequest G master gs s =
     (case gs_gtid gs of
        None \<Rightarrow> Inr (s, [])
      | Some r \<Rightarrow>
          (case gtidSet master of
             None \<Rightarrow> Inl (Panics NilDereference)
           | Some current \<Rightarrow>
               if ge_Contain G current (snd r) then Inr (s, [(gs_c gs, current)])
               else
                 (let peerSubs = (case map_of (sy_gtidSubscribers s) (gs_peer gs) of None \<Rightarrow> [] | Some m \<Rightarrow> m);
                      subs = (case map_of peerSubs r of None \<Rightarrow> [] | Some l \<Rightarrow> l)
                  in Inr (s\<lparr>sy_gtidSubscribers :=
                        aput (gs_peer gs) (aput r (subs @ [gs]) peerSubs) (sy_gtidSubscribers s)\<rparr>, []))))"

text \<open>
  The subscribers that are told, with the set they are sent, and the state without them. A peer
  whose last subscription is told keeps an empty entry.
\<close>

definition processGTIDSubscribers ::
  "'g gtid_env \<Rightarrow> 'g syncState \<Rightarrow> ('g syncState \<times> (nat \<times> 'g) list) result" where
  "processGTIDSubscribers G s =
     bindR (go_index (sy_positionEvents s) 0) (\<lambda>ev.
       case pe_gtid ev of
         None \<Rightarrow> Inr (s, [])
       | Some newGTID \<Rightarrow>
           Inr (s\<lparr>sy_gtidSubscribers :=
                  map (\<lambda>p. (fst p, filter (\<lambda>e. \<not> ge_Contain G newGTID (snd (fst e))) (snd p)))
                    (sy_gtidSubscribers s)\<rparr>,
                concat (map (\<lambda>p. concat (map (\<lambda>e. map (\<lambda>sub. (gs_c sub, newGTID)) (snd e))
                    (filter (\<lambda>e. ge_Contain G newGTID (snd (fst e))) (snd p))))
                  (sy_gtidSubscribers s))))"

definition acceptMessage ::
  "'g gtid_env \<Rightarrow> int \<Rightarrow> 'g masterState \<Rightarrow> 'g message \<Rightarrow> 'g syncState \<Rightarrow>
   ('g syncState \<times> syncActionNeed \<times> (nat \<times> 'g) list) result" where
  "acceptMessage G flushBulkTime master msg s =
     (case msg of
        PositionMsg v \<Rightarrow>
          Inr (s\<lparr>sy_positionEvents := sy_positionEvents s @ [v],
                 sy_lastPositionEventID := sy_lastPositionEventID s + 1\<rparr>,
               no_need\<lparr>need_flush := pe_force v\<rparr>, [])
      | RowMsg v \<Rightarrow>
          Inr (s\<lparr>sy_queue := AddRowChange (sy_queue s) (v\<lparr>trc_EventID := sy_lastPositionEventID s\<rparr>)\<rparr>,
               no_need, [])
      | SubscribeMsg gs \<Rightarrow>
          bindR (processGTIDSubscribeRequest G master gs s) (\<lambda>r. Inr (fst r, no_need, snd r))
      | CancelMsg peer \<Rightarrow>
          Inr (s\<lparr>sy_gtidSubscribers := adel peer (sy_gtidSubscribers s)\<rparr>, no_need, [])
      | FlushTick \<Rightarrow>
          Inr ((if flushBulkTime = 0 then s\<lparr>sy_flushC := False, sy_flushTimer := False\<rparr> else s),
               no_need\<lparr>need_flush := True\<rparr>, [])
      | CtxDone \<Rightarrow> Inr (s, no_need\<lparr>need_stop := True\<rparr>, []))"

subsection \<open>Splitting the queue\<close>

definition queued_docs :: "BatchedChangeSet \<Rightarrow> DocumentChange list" where
  "queued_docs b = concat (map (\<lambda>e. map snd (ics_ChangedDocs (snd e))) (bcs_Changes b))"

definition split_doc ::
  "(DocumentChange \<Rightarrow> bool) \<Rightarrow> BatchedChangeSet \<times> BatchedChangeSet \<Rightarrow> DocumentChange \<Rightarrow>
   BatchedChangeSet \<times> BatchedChangeSet" where
  "split_doc isReady rn doc =
     (if isReady doc then (AddDocumentChange (fst rn) doc, snd rn)
      else (fst rn, AddDocumentChange (snd rn) doc))"

definition SplitQueue :: "(DocumentChange \<Rightarrow> bool) \<Rightarrow> 'g syncState \<Rightarrow> 'g syncState" where
  "SplitQueue isReady s =
     (let rn = foldl (split_doc isReady) NewBatchedChangeSetPair (queued_docs (sy_queue s))
      in s\<lparr>sy_staged := fst rn, sy_queue := snd rn\<rparr>)"

subsection \<open>The loop\<close>

record sync_config =
  cf_FlushBulkTime :: int
  cf_MinTimeAfterLastEvent :: int
  cf_MaxTimeAfterFirstEvent :: int

definition doc_ready :: "sync_config \<Rightarrow> int \<Rightarrow> DocumentChange \<Rightarrow> bool" where
  "doc_ready C now c \<longleftrightarrow>
     now - dc_LastTS c \<ge> cf_MinTimeAfterLastEvent C \<or> now - dc_FirstTS c \<ge> cf_MaxTimeAfterFirstEvent C"

text \<open>
  Everything the loop works on: its own state, the batch engine, the saved position, the errors
  put into \<open>FatalErrC\<close>, the notifications sent, and the time of the last save.
\<close>

record ('b, 'm, 'g) sync_loop =
  lp_state :: "'g syncState"
  lp_engine :: "('b, 'm) engine"
  lp_master :: "'g masterState"
  lp_fatal :: "go_error list"
  lp_sends :: "(nat \<times> 'g) list"
  lp_lastSaved :: int

definition SaveState ::
  "'b sph_env \<Rightarrow> 'g gtid_env \<Rightarrow> (('b, 'm, 'g) sync_loop, unit) call" where
  "SaveState S G l =
     (let r = SphinxService_SaveSyncState S G (en_sph (lp_engine l)) (lp_master l);
          l' = l\<lparr>lp_engine := (lp_engine l)\<lparr>en_sph := fst r\<rparr>, lp_fatal := lp_fatal l @ fst (snd r)\<rparr>
      in (l', case snd (snd r) of Inl (Panics p) \<Rightarrow> Inl (Panics p) | _ \<Rightarrow> Inr ()))"

definition arm_timer :: "sync_config \<Rightarrow> 'g syncState \<Rightarrow> 'g syncState" where
  "arm_timer C s =
     (if cf_FlushBulkTime C = 0 \<and> bcs_Changes (sy_queue s) \<noteq> [] \<and> cf_MinTimeAfterLastEvent C > 0
      then s\<lparr>sy_flushTimer := True, sy_flushC := True\<rparr> else s)"

text \<open>Moving the window: \<open>positionEvents[offset:]\<close> panics when the offset is past the end.\<close>

definition advance :: "('g syncState, unit) call" where
  "advance s =
     (let synced = FirstSeenPositionEventID (sy_queue s) (sy_lastPositionEventID s);
          offset = synced - sy_firstPositionEventID s;
          s' = s\<lparr>sy_firstPositionEventID := synced\<rparr>
      in if unat offset \<le> length (sy_positionEvents s')
         then (s'\<lparr>sy_positionEvents := drop (unat offset) (sy_positionEvents s')\<rparr>, Inr ())
         else (s', Inl (Panics IndexOutOfRange)))"

definition save_interval :: int where
  "save_interval = 3 * 10 ^ 9"

definition save_position ::
  "'b sph_env \<Rightarrow> 'g gtid_env \<Rightarrow> int \<Rightarrow> (('b, 'm, 'g) sync_loop, unit) call" where
  "save_position S G bnow l =
     (if bnow - lp_lastSaved l > save_interval
      then
        (let l = l\<lparr>lp_lastSaved := bnow\<rparr>
         in case sy_positionEvents (lp_state l) of
              [] \<Rightarrow> (l, Inl (Panics IndexOutOfRange))
            | ev # _ \<Rightarrow>
                (let u = updatePosition G (lp_master l) ev; l = l\<lparr>lp_master := fst u\<rparr>
                 in if snd u
                    then bindS (SaveState S G) (\<lambda>_ l.
                           case processGTIDSubscribers G (lp_state l) of
                             Inl e \<Rightarrow> (l, Inl e)
                           | Inr r \<Rightarrow> (l\<lparr>lp_state := fst r, lp_sends := lp_sends l @ snd r\<rparr>, Inr ())) l
                    else (l, Inr ())))
      else (l, Inr ()))"

text \<open>
  The flush of one turn. \<open>now\<close> and \<open>bnow\<close> are its two readings of the clock. \<open>Inl (Fails e)\<close> is
  the batch error after which the loop is left.
\<close>

definition flush ::
  "('b, 'm) batch_env \<Rightarrow> 'g gtid_env \<Rightarrow> sync_config \<Rightarrow> int \<Rightarrow> int \<Rightarrow> (('b, 'm, 'g) sync_loop, unit) call" where
  "flush R G C now bnow l =
     (let s = SplitQueue (doc_ready C now) (lp_state l);
          b = doBatch R (sy_staged s) (lp_engine l);
          l = l\<lparr>lp_state := s, lp_engine := fst b\<rparr>
      in case snd b of
           Inl (Fails e) \<Rightarrow> (l\<lparr>lp_fatal := lp_fatal l @ [e]\<rparr>, Inl (Fails e))
         | Inl p \<Rightarrow> (l, Inl p)
         | Inr _ \<Rightarrow>
             (let a = advance (arm_timer C s); l = l\<lparr>lp_state := fst a\<rparr>
              in case snd a of
                   Inl e \<Rightarrow> (l, Inl e)
                 | Inr _ \<Rightarrow> save_position (be_sphinx R) G bnow l))"

text \<open>One turn of the loop: \<open>Inr True\<close> says that it goes on.\<close>

definition sync_turn ::
  "('b, 'm) batch_env \<Rightarrow> 'g gtid_env \<Rightarrow> sync_config \<Rightarrow> 'g message \<Rightarrow> int \<Rightarrow> int \<Rightarrow>
   (('b, 'm, 'g) sync_loop, bool) call" where
  "sync_turn R G C msg now bnow l =
     (case acceptMessage G (cf_FlushBulkTime C) (lp_master l) msg (lp_state l) of
        Inl e \<Rightarrow> (l, Inl e)
      | Inr (s, need, sends) \<Rightarrow>
          (let l = l\<lparr>lp_state := s, lp_sends := lp_sends l @ sends\<rparr>
           in if need_stop need then (l, Inr False)
              else if need_flush need
              then (let r = flush R G C now bnow l
                    in (fst r, case snd r of Inr _ \<Rightarrow> Inr True | Inl (Fails e) \<Rightarrow> Inr False | Inl p \<Rightarrow> Inl p))
              else (l, Inr True)))"

definition initial_loop ::
  "sync_config \<Rightarrow> 'g masterState \<Rightarrow> ('b, 'm) engine \<Rightarrow> int \<Rightarrow> ('b, 'm, 'g) sync_loop" where
  "initial_loop C m e now =
     \<lparr>lp_state = \<lparr>sy_queue = NewBatchedChangeSet ''queue'', sy_staged = NewBatchedChangeSet ''staged'',
        sy_gtidSubscribers = [], sy_firstPositionEventID = 0, sy_lastPositionEventID = 0,
        sy_positionEvents = [\<lparr>pe_gtid = gtidSet m, pe_pos = master_position m, pe_force = False\<rparr>],
        sy_flushC = (cf_FlushBulkTime C > 0), sy_flushTimer = False\<rparr>,
      lp_engine = e, lp_master = m, lp_fatal = [], lp_sends = [], lp_lastSaved = now\<rparr>"

text \<open>
  The loop on the messages it receives, each with the two clock readings of its turn, up to the
  end of the list or the turn that leaves the loop; leaving it, also by a panic, saves the state
  (the deferred \<open>SaveState\<close>).
\<close>

fun SyncLoop ::
  "('b, 'm) batch_env \<Rightarrow> 'g gtid_env \<Rightarrow> sync_config \<Rightarrow> ('g message \<times> int \<times> int) list \<Rightarrow>
   (('b, 'm, 'g) sync_loop, bool) call" where
  "SyncLoop R G C [] l = (l, Inr True)"
| "SyncLoop R G C ((msg, now, bnow) # ms) l =
     (let t = sync_turn R G C msg now bnow l
      in case snd t of
           Inr True \<Rightarrow> SyncLoop R G C ms (fst t)
         | Inr False \<Rightarrow> (let r = SaveState (be_sphinx R) G (fst t) in (fst r, bindR (snd r) (\<lambda>_. Inr False)))
         | Inl f \<Rightarrow> (fst (SaveState (be_sphinx R) G (fst t)), Inl f))"

end
