(* ===== verification/Sync_Window.thy ===== *)
theory Sync_Window
  imports Sync Batch_Queue
begin

text \<open>
  The window of position events. The locale states what the sync loop needs of its change queue
  (adding and splitting keep every row change, and the first seen event is the smallest one) and
  proves that the window then only moves forward and never past a queued change; it is
  interpreted on the queue of \<open>batch.go\<close>.
\<close>

locale change_queue =
  fixes wf :: "'q \<Rightarrow> bool"
    and rows :: "'q \<Rightarrow> 'r multiset"
    and event :: "'r \<Rightarrow> 64 word"
    and empty :: 'q
    and add :: "'q \<Rightarrow> 'r \<Rightarrow> 'q"
    and split :: "('d \<Rightarrow> bool) \<Rightarrow> 'q \<Rightarrow> 'q \<times> 'q"
    and first_seen :: "'q \<Rightarrow> 64 word \<Rightarrow> 64 word"
  assumes wf_empty: "wf empty"
    and rows_empty: "rows empty = {#}"
    and wf_add: "wf q \<Longrightarrow> wf (add q r)"
    and rows_add: "wf q \<Longrightarrow> rows (add q r) = add_mset r (rows q)"
    and wf_split: "wf q \<Longrightarrow> wf (fst (split P q)) \<and> wf (snd (split P q))"
    and rows_split: "wf q \<Longrightarrow> rows q = rows (fst (split P q)) + rows (snd (split P q))"
    and first_seen_none: "rows q = {#} \<Longrightarrow> first_seen q l = l"
    and first_seen_least:
      "r \<in># rows q \<Longrightarrow> event r < 0xffffffffffffffff \<Longrightarrow> first_seen q l \<le> event r"
    and first_seen_some:
      "r \<in># rows q \<Longrightarrow> event r < 0xffffffffffffffff \<Longrightarrow> \<exists>r'\<in>#rows q. first_seen q l = event r'"
begin

definition in_window :: "64 word \<Rightarrow> 64 word \<Rightarrow> 'q \<Rightarrow> bool" where
  "in_window f l q \<longleftrightarrow> f \<le> l \<and> l < 0xffffffffffffffff \<and> (\<forall>r\<in>#rows q. f \<le> event r \<and> event r \<le> l)"

lemma window_empty: "f \<le> l \<Longrightarrow> l < 0xffffffffffffffff \<Longrightarrow> in_window f l empty"
  by (simp add: in_window_def rows_empty)

lemma window_add:
  "wf q \<Longrightarrow> in_window f l q \<Longrightarrow> event r = l \<Longrightarrow> in_window f l (add q r)"
  by (auto simp: in_window_def rows_add)

lemma window_next:
  "in_window f l q \<Longrightarrow> l + 1 < 0xffffffffffffffff \<Longrightarrow> l < l + 1 \<Longrightarrow> in_window f (l + 1) q"
  unfolding in_window_def by (meson le_less_trans less_imp_le order_trans)

lemma window_rest: "wf q \<Longrightarrow> in_window f l q \<Longrightarrow> in_window f l (snd (split P q))"
  using rows_split[of q P] by (auto simp: in_window_def)

text \<open>The first seen event is inside the window, and everything queued is inside the new window.\<close>

lemma first_seen_in_window:
  assumes "in_window f l q"
  shows "f \<le> first_seen q l \<and> first_seen q l \<le> l \<and> in_window (first_seen q l) l q"
proof (cases "rows q = {#}")
  case True
  with assms show ?thesis by (simp add: in_window_def first_seen_none)
next
  case False
  then obtain r where r: "r \<in># rows q" by (auto simp: multiset_nonemptyE)
  have below: "event x < 0xffffffffffffffff" if "x \<in># rows q" for x
    using that assms unfolding in_window_def by (meson le_less_trans)
  obtain r' where "r' \<in># rows q" "first_seen q l = event r'"
    using first_seen_some[OF r below[OF r]] by blast
  then have "f \<le> first_seen q l" "first_seen q l \<le> l" using assms by (auto simp: in_window_def)
  moreover have "\<forall>x\<in>#rows q. first_seen q l \<le> event x" using first_seen_least below by blast
  ultimately show ?thesis using assms by (auto simp: in_window_def)
qed

end

subsection \<open>The queue of batch.go\<close>

definition split_batch ::
  "(DocumentChange \<Rightarrow> bool) \<Rightarrow> BatchedChangeSet \<Rightarrow> BatchedChangeSet \<times> BatchedChangeSet" where
  "split_batch isReady b = foldl (split_doc isReady) NewBatchedChangeSetPair (queued_docs b)"

lemma SplitQueue_split_batch:
  "SplitQueue isReady s =
     s\<lparr>sy_staged := fst (split_batch isReady (sy_queue s)),
       sy_queue := snd (split_batch isReady (sy_queue s))\<rparr>"
  by (simp add: SplitQueue_def split_batch_def Let_def)

lemma split_docs_parts:
  "foldl (split_doc isReady) rn ds =
     (foldl AddDocumentChange (fst rn) (filter isReady ds),
      foldl AddDocumentChange (snd rn) (filter (\<lambda>d. \<not> isReady d) ds))"
  by (induction ds arbitrary: rn) (simp_all add: split_doc_def)

lemma split_batch_parts:
  "batch_of (filter isReady (batch_docs b)) (fst (split_batch isReady b)) \<and>
   batch_of (filter (\<lambda>d. \<not> isReady d) (batch_docs b)) (snd (split_batch isReady b))"
proof -
  have "queued_docs b = batch_docs b" by (simp add: queued_docs_def batch_docs_def)
  then show ?thesis
    using batch_of_fold[OF batch_of_New, of "filter isReady (batch_docs b)"]
      batch_of_fold[OF batch_of_New, of "filter (\<lambda>d. \<not> isReady d) (batch_docs b)"]
    by (simp add: split_batch_def split_docs_parts NewBatchedChangeSetPair_def)
qed

lemma mset_filter_split:
  "mset (concat (map g (filter P xs))) + mset (concat (map g (filter (\<lambda>x. \<not> P x) xs))) =
   mset (concat (map g xs))"
  by (induction xs) (auto simp: ac_simps)

lemma split_batch_rows:
  "mset (batch_rows b) = mset (batch_rows (fst (split_batch P b))) + mset (batch_rows (snd (split_batch P b)))"
  using batch_of_rows[OF conjunct1[OF split_batch_parts[of P b]]]
    batch_of_rows[OF conjunct2[OF split_batch_parts[of P b]]]
    mset_filter_split[of dc_Changes P "batch_docs b"]
  by (simp add: batch_rows_def)

lemma first_seen_member:
  assumes "r \<in> set (batch_rows b)" and "trc_EventID r < 0xffffffffffffffff"
  shows "FirstSeenPositionEventID b l \<in> trc_EventID ` set (batch_rows b) \<and>
     FirstSeenPositionEventID b l \<le> trc_EventID r"
proof -
  have "FirstSeenPositionEventID b l = Min (trc_EventID ` set (batch_rows b))"
    using assms by (auto simp: FirstSeen_Min)
  moreover have "trc_EventID ` set (batch_rows b) \<noteq> {}" using assms(1) by auto
  ultimately show ?thesis using assms(1) Min_in Min_le by (metis finite_imageI finite_set imageI)
qed

interpretation batch_queue: change_queue batch_wf "\<lambda>b. mset (batch_rows b)" trc_EventID
    "NewBatchedChangeSet ''queue''" AddRowChange split_batch FirstSeenPositionEventID
proof unfold_locales
  show "batch_wf q \<Longrightarrow> batch_wf (fst (split_batch P q)) \<and> batch_wf (snd (split_batch P q))" for P q
    using split_batch_parts[of P q] by (auto simp: batch_wf_def)
  show "mset (batch_rows q) = mset (batch_rows (fst (split_batch P q))) + mset (batch_rows (snd (split_batch P q)))" for P q
    by (rule split_batch_rows)
  show "mset (batch_rows q) = {#} \<Longrightarrow> FirstSeenPositionEventID q l = l" for q l
    by (simp add: FirstSeen_Min)
  show "r \<in># mset (batch_rows q) \<Longrightarrow> trc_EventID r < 0xffffffffffffffff \<Longrightarrow>
      FirstSeenPositionEventID q l \<le> trc_EventID r" for r q l
    using first_seen_member[of r q l] by (simp only: set_mset_mset)
  show "r \<in># mset (batch_rows q) \<Longrightarrow> trc_EventID r < 0xffffffffffffffff \<Longrightarrow>
      \<exists>r'\<in>#mset (batch_rows q). FirstSeenPositionEventID q l = trc_EventID r'" for r q l
    using first_seen_member[of r q l] by (simp only: set_mset_mset) blast
qed (simp_all add: batch_rows_AddRow)

subsection \<open>Documents move as one piece\<close>

lemma doc_describes_single: "doc_describes [d] v \<Longrightarrow> v = d"
  by (cases d; cases v) (simp add: doc_describes_def)

lemma for_key_entries:
  "awf m \<Longrightarrow> \<forall>(k, v)\<in>set m. f v = k \<Longrightarrow>
   for_key f k (map snd m) = (case map_of m k of None \<Rightarrow> [] | Some v \<Rightarrow> [v])"
proof (induction m)
  case (Cons e m)
  have "awf m" "fst e \<notin> fst ` set m" using Cons.prems(1) by (simp_all add: awf_Cons)
  then have "map_of m (fst e) = None" by (simp add: map_of_eq_None_iff)
  moreover have "f (snd e) = fst e" "for_key f k (map snd m) = (case map_of m k of None \<Rightarrow> [] | Some v \<Rightarrow> [v])"
    using Cons \<open>awf m\<close> by (cases e, auto)+
  ultimately show ?case by (cases e) auto
qed simp

lemma for_key_concat_entries:
  "awf m \<Longrightarrow> \<forall>(k, v)\<in>set m. \<forall>x\<in>set (g v). f x = k \<Longrightarrow>
   for_key f k (concat (map (\<lambda>e. g (snd e)) m)) = (case map_of m k of None \<Rightarrow> [] | Some v \<Rightarrow> g v)"
proof (induction m)
  case (Cons e m)
  have "awf m" "fst e \<notin> fst ` set m" using Cons.prems(1) by (simp_all add: awf_Cons)
  then have none: "map_of m (fst e) = None" by (simp add: map_of_eq_None_iff)
  have "\<forall>x\<in>set (g (snd e)). f x = fst e" using Cons.prems(2) by (cases e) auto
  then have "for_key f k (g (snd e)) = (if fst e = k then g (snd e) else [])"
    by (auto simp: filter_id_conv filter_empty_conv)
  moreover have "for_key f k (concat (map (\<lambda>e. g (snd e)) m)) = (case map_of m k of None \<Rightarrow> [] | Some v \<Rightarrow> g v)"
    using Cons \<open>awf m\<close> by auto
  ultimately show ?case using none by (cases e) auto
qed simp

lemma index_log_docs:
  assumes "(k, ics) \<in> set (index_log ds)" and "(i, d) \<in> set (ics_ChangedDocs ics)"
  shows "dc_Index d = k \<and> dc_DocID d = i"
proof -
  have "map_of (index_log ds) k = Some ics"
    using assms(1) index_log_awf[of ds] by (simp add: awf_lookup_iff)
  then have docs: "ics_ChangedDocs ics = doc_log (for_key dc_Index k ds)"
    using index_sets.log_map_Some[of ds k ics] by (simp add: index_describes_def)
  let ?es = "for_key dc_DocID i (for_key dc_Index k ds)"
  have "map_of (doc_log (for_key dc_Index k ds)) i = Some d"
    using assms(2) docs doc_changes.log_map_awf by (simp add: awf_lookup_iff)
  then have "?es \<noteq> []" "doc_describes ?es d"
    using doc_changes.log_map_Some[of "for_key dc_Index k ds" i d] by simp_all
  moreover have "hd ?es \<in> set ?es" using \<open>?es \<noteq> []\<close> by (rule hd_in_set)
  ultimately show ?thesis by (auto simp: doc_describes_def)
qed

lemma changes_for_batch_docs:
  assumes "batch_of ds b"
  shows "changes_for index i (batch_docs b) = (case batch_doc b index i of None \<Rightarrow> [] | Some d \<Rightarrow> [d])"
proof -
  have b: "bcs_Changes b = index_log ds" using assms by (simp add: batch_of_def)
  have "for_key dc_Index index (batch_docs b) =
      (case map_of (index_log ds) index of None \<Rightarrow> [] | Some ics \<Rightarrow> map snd (ics_ChangedDocs ics))"
    unfolding batch_docs_def b
    using for_key_concat_entries[of "index_log ds" "\<lambda>ics. map snd (ics_ChangedDocs ics)" dc_Index index]
      index_log_awf[of ds] index_log_docs[of _ _ ds] by fastforce
  then show ?thesis
  proof (cases "map_of (index_log ds) index")
    case (Some ics)
    then have m: "(index, ics) \<in> set (index_log ds)" by (rule map_of_SomeD)
    then have "awf (ics_ChangedDocs ics)" "\<forall>(k, v)\<in>set (ics_ChangedDocs ics). dc_DocID v = k"
      using index_log_awf[of ds] index_log_docs[OF m] by force+
    from for_key_entries[OF this] show ?thesis
      using \<open>for_key dc_Index index (batch_docs b) = _\<close> Some
      by (simp add: changes_for_def batch_doc_def b)
  qed (simp add: changes_for_def batch_doc_def b)
qed

lemma changes_for_filter: "changes_for index i (filter P ds) = filter P (changes_for index i ds)"
  by (simp add: changes_for_def conj_commute conj_left_commute)

lemma batch_doc_filter:
  assumes "batch_wf b" and "batch_of (filter P (batch_docs b)) b'"
  shows "batch_doc b' index i =
     (case batch_doc b index i of None \<Rightarrow> None | Some d \<Rightarrow> if P d then Some d else None)"
proof -
  obtain ds where "batch_of ds b" using assms(1) by (auto simp: batch_wf_def)
  note c = changes_for_batch_docs[OF this, of index i]
  from batch_doc_describes[OF assms(2), of index i] show ?thesis
    unfolding changes_for_filter c
    by (auto split: option.splits if_splits dest: doc_describes_single)
qed

end
