(* ===== verification/Sync_Safety.thy ===== *)
theory Sync_Safety
  imports Sync_Window Sphinx_Correct
begin

text \<open>
  The sync loop as a transition system and its safety: on every reachable state the window of
  position events fits the event ids in the queue, every accepted row change is either applied or
  still queued, and the saved position never passes a change that is still queued.
\<close>

subsection \<open>Reachable states\<close>

fun positions :: "'g message list \<Rightarrow> 'g positionEvent list" where
  "positions [] = []"
| "positions (PositionMsg v # ms) = v # positions ms"
| "positions (m # ms) = positions ms"

text \<open>The accepted row changes with the number of the position event they follow.\<close>

fun tagged :: "nat \<Rightarrow> 'g message list \<Rightarrow> TableRowChange list" where
  "tagged n [] = []"
| "tagged n (PositionMsg v # ms) = tagged (Suc n) ms"
| "tagged n (RowMsg c # ms) = c\<lparr>trc_EventID := of_nat n\<rparr> # tagged n ms"
| "tagged n (m # ms) = tagged n ms"

lemma positions_append [simp]: "positions (ms @ ms') = positions ms @ positions ms'"
  by (induction ms rule: positions.induct) simp_all

lemma tagged_append: "tagged n (ms @ ms') = tagged n ms @ tagged (n + length (positions ms)) ms'"
  by (induction n ms rule: tagged.induct) simp_all

lemma positions_length: "length (positions ms) \<le> length ms"
  by (induction ms rule: positions.induct) simp_all

fun flush_requested :: "'g message \<Rightarrow> bool" where
  "flush_requested (PositionMsg v) = pe_force v"
| "flush_requested FlushTick = True"
| "flush_requested m = False"

text \<open>
  A turn that goes on; \<open>ap\<close> collects the row changes of the batches that were executed without
  error.
\<close>

inductive sync_reach ::
  "('b, 'm) batch_env \<Rightarrow> 'g gtid_env \<Rightarrow> sync_config \<Rightarrow> ('b, 'm, 'g) sync_loop \<Rightarrow>
   'g message list \<Rightarrow> TableRowChange multiset \<Rightarrow> ('b, 'm, 'g) sync_loop \<Rightarrow> bool"
  for R G C l0 where
    start: "sync_reach R G C l0 [] {#} l0"
  | turn: "sync_reach R G C l0 ms ap l \<Longrightarrow> sync_turn R G C msg now bnow l = (l', Inr True) \<Longrightarrow>
      sync_reach R G C l0 (ms @ [msg])
        (ap + (if flush_requested msg then mset (batch_rows (sy_staged (lp_state l'))) else {#})) l'"

inductive_cases sync_reach_snocE: "sync_reach R G C l0 (ms @ [msg]) ap l"

inductive_simps sync_reach_Nil: "sync_reach R G C l0 [] ap l"

subsection \<open>The window invariant\<close>

definition window_inv ::
  "'g positionEvent \<Rightarrow> 'g message list \<Rightarrow> TableRowChange multiset \<Rightarrow> 'g syncState \<Rightarrow> bool" where
  "window_inv ev0 ms ap s \<longleftrightarrow>
     batch_wf (sy_queue s) \<and> length (positions ms) < 2 ^ 64 - 1 \<and>
     sy_lastPositionEventID s = of_nat (length (positions ms)) \<and>
     unat (sy_firstPositionEventID s) \<le> length (positions ms) \<and>
     sy_positionEvents s = drop (unat (sy_firstPositionEventID s)) (ev0 # positions ms) \<and>
     batch_queue.in_window (sy_firstPositionEventID s) (sy_lastPositionEventID s) (sy_queue s) \<and>
     mset (tagged 0 ms) = ap + mset (batch_rows (sy_queue s))"

lemma unat_last: "n < 2 ^ 64 - 1 \<Longrightarrow> unat (of_nat n :: 64 word) = n"
  by (simp add: unsigned_of_nat take_bit_nat_eq_self)

lemma last_below_max: "n < 2 ^ 64 - 1 \<Longrightarrow> (of_nat n :: 64 word) < 0xffffffffffffffff"
  using unat_last[of n] by (simp add: word_less_nat_alt)

lemma last_next: "n + 1 < 2 ^ 64 - 1 \<Longrightarrow> (of_nat n :: 64 word) < of_nat n + 1"
  using unat_last[of n] unat_last[of "n + 1"] by (simp add: word_less_nat_alt add.commute)

text \<open>The parts of the invariant.\<close>

lemma window_invD:
  assumes "window_inv ev0 ms ap s"
  shows "batch_wf (sy_queue s)"
    and "length (positions ms) < 2 ^ 64 - 1"
    and "sy_lastPositionEventID s = of_nat (length (positions ms))"
    and "unat (sy_firstPositionEventID s) \<le> length (positions ms)"
    and "sy_positionEvents s = drop (unat (sy_firstPositionEventID s)) (ev0 # positions ms)"
    and "batch_queue.in_window (sy_firstPositionEventID s) (sy_lastPositionEventID s) (sy_queue s)"
    and "mset (tagged 0 ms) = ap + mset (batch_rows (sy_queue s))"
  using assms unfolding window_inv_def by blast+

lemma window_inv_initial: "window_inv (hd (sy_positionEvents (lp_state (initial_loop C m e now)))) [] {#}
     (lp_state (initial_loop C m e now))"
  by (simp add: window_inv_def initial_loop_def batch_queue.in_window_def)

text \<open>The fields the invariant looks at.\<close>

lemma window_inv_cong:
  assumes "sy_queue s' = sy_queue s" "sy_firstPositionEventID s' = sy_firstPositionEventID s"
    "sy_lastPositionEventID s' = sy_lastPositionEventID s" "sy_positionEvents s' = sy_positionEvents s"
  shows "window_inv ev0 ms ap s' = window_inv ev0 ms ap s"
  using assms by (simp add: window_inv_def)

lemma window_inv_other:
  "positions [msg] = [] \<Longrightarrow> tagged (length (positions ms)) [msg] = [] \<Longrightarrow>
   window_inv ev0 (ms @ [msg]) ap s = window_inv ev0 ms ap s"
  by (simp add: window_inv_def tagged_append)

text \<open>A received position opens the next event of the window.\<close>

lemma window_inv_position:
  assumes inv: "window_inv ev0 ms ap s" and n: "length (positions ms) + 1 < 2 ^ 64 - 1"
  shows "window_inv ev0 (ms @ [PositionMsg v]) ap (s\<lparr>sy_positionEvents := sy_positionEvents s @ [v],
    sy_lastPositionEventID := sy_lastPositionEventID s + 1\<rparr>)"
proof -
  let ?f = "sy_firstPositionEventID s"
  have "sy_lastPositionEventID s + 1 < 0xffffffffffffffff" "sy_lastPositionEventID s < sy_lastPositionEventID s + 1"
    using last_below_max[OF n] last_next[OF n] window_invD(3)[OF inv] by (simp_all add: add.commute)
  then have "batch_queue.in_window ?f (sy_lastPositionEventID s + 1) (sy_queue s)"
    by (rule batch_queue.window_next[OF window_invD(6)[OF inv]])
  moreover have "drop (unat ?f) (ev0 # positions ms @ [v]) = drop (unat ?f) (ev0 # positions ms) @ [v]"
    using window_invD(4)[OF inv] drop_append[of "unat ?f" "ev0 # positions ms" "[v]"] by simp
  ultimately show ?thesis
    using inv n by (simp add: window_inv_def tagged_append add.commute)
qed

text \<open>A received row change waits in the queue under the last position's number.\<close>

lemma window_inv_row:
  assumes inv: "window_inv ev0 ms ap s"
  shows "window_inv ev0 (ms @ [RowMsg c]) ap
    (s\<lparr>sy_queue := AddRowChange (sy_queue s) (c\<lparr>trc_EventID := sy_lastPositionEventID s\<rparr>)\<rparr>)"
proof -
  have "batch_queue.in_window (sy_firstPositionEventID s) (sy_lastPositionEventID s)
    (AddRowChange (sy_queue s) (c\<lparr>trc_EventID := sy_lastPositionEventID s\<rparr>))"
    by (rule batch_queue.window_add[OF window_invD(1)[OF inv] window_invD(6)[OF inv]]) simp
  then show ?thesis
    using inv by (simp add: window_inv_def tagged_append batch_rows_AddRow)
qed

lemma acceptMessage_inv:
  assumes "window_inv ev0 ms ap s" and "length (positions (ms @ [msg])) < 2 ^ 64 - 1"
    and acc: "acceptMessage G t m msg s = Inr (s', need, sends)"
  shows "window_inv ev0 (ms @ [msg]) ap s'"
proof (cases msg)
  case (PositionMsg v)
  have "s' = s\<lparr>sy_positionEvents := sy_positionEvents s @ [v],
                 sy_lastPositionEventID := sy_lastPositionEventID s + 1\<rparr>"
    using acc PositionMsg by (simp add: acceptMessage_def)
  then show ?thesis using window_inv_position[OF assms(1)] assms(2) PositionMsg by simp
next
  case (RowMsg c)
  then show ?thesis using window_inv_row[OF assms(1), of c] acc by (auto simp: acceptMessage_def)
next
  case (SubscribeMsg gs)
  then obtain r where "processGTIDSubscribeRequest G m gs s = Inr r" "s' = fst r"
    using acc by (auto simp: acceptMessage_def result_simps)
  then have "window_inv ev0 ms ap s' = window_inv ev0 ms ap s"
    by (intro window_inv_cong) (auto simp: processGTIDSubscribeRequest_def Let_def split: option.splits if_splits)
  with assms(1) SubscribeMsg show ?thesis by (simp add: window_inv_other)
next
  case (CancelMsg peer)
  then have "window_inv ev0 ms ap s' = window_inv ev0 ms ap s"
    using acc by (intro window_inv_cong) (auto simp: acceptMessage_def)
  with assms(1) CancelMsg show ?thesis by (simp add: window_inv_other)
next
  case FlushTick
  then have "window_inv ev0 ms ap s' = window_inv ev0 ms ap s"
    using acc by (intro window_inv_cong) (auto simp: acceptMessage_def split: if_splits)
  with assms(1) FlushTick show ?thesis by (simp add: window_inv_other)
next
  case CtxDone
  with acc have "s' = s" by (simp add: acceptMessage_def)
  with assms(1) CtxDone show ?thesis by (simp add: window_inv_other)
qed

lemma SplitQueue_inv:
  assumes "window_inv ev0 ms ap s"
  shows "window_inv ev0 ms (ap + mset (batch_rows (sy_staged (SplitQueue P s)))) (SplitQueue P s)"
proof -
  note d = window_invD[OF assms]
  have "batch_queue.in_window (sy_firstPositionEventID s) (sy_lastPositionEventID s) (snd (split_batch P (sy_queue s)))"
    by (rule batch_queue.window_rest[OF d(1) d(6)])
  then show ?thesis
    using d batch_queue.wf_split[OF d(1), of P] split_batch_rows[of "sy_queue s" P]
    unfolding window_inv_def SplitQueue_split_batch by (simp add: ac_simps)
qed

lemma arm_timer_inv: "window_inv ev0 ms ap (arm_timer C s) = window_inv ev0 ms ap s"
  by (rule window_inv_cong) (simp_all add: arm_timer_def)

text \<open>Advancing never runs past the end of the position events, and leaves at least one.\<close>

lemma advance_inv:
  assumes "window_inv ev0 ms ap s"
  shows "\<exists>s'. advance s = (s', Inr ()) \<and> window_inv ev0 ms ap s' \<and> sy_staged s' = sy_staged s \<and>
     sy_positionEvents s' \<noteq> [] \<and> sy_firstPositionEventID s \<le> sy_firstPositionEventID s' \<and>
     (\<forall>r\<in>#mset (batch_rows (sy_queue s')). sy_firstPositionEventID s' \<le> trc_EventID r)"
proof -
  let ?f = "sy_firstPositionEventID s" and ?l = "sy_lastPositionEventID s" and ?n = "length (positions ms)"
  let ?k = "FirstSeenPositionEventID (sy_queue s) ?l"
  note d = window_invD[OF assms]
  have w: "?f \<le> ?k" "?k \<le> ?l" "batch_queue.in_window ?k ?l (sy_queue s)"
    using batch_queue.first_seen_in_window[OF d(6)] by blast+
  have "unat ?l = ?n" using d(2,3) unat_last[of ?n] by metis
  then have k: "unat ?k \<le> ?n" using w(2) by (simp add: word_le_nat_alt)
  have off: "unat (?k - ?f) = unat ?k - unat ?f" using w(1) by (rule unat_sub)
  have le: "unat ?f \<le> unat ?k" using w(1) by (simp add: word_le_nat_alt)
  have "length (sy_positionEvents s) = Suc ?n - unat ?f" unfolding d(5) by simp
  then have ok: "unat (?k - ?f) \<le> length (sy_positionEvents s)" using off k by simp
  let ?s = "s\<lparr>sy_firstPositionEventID := ?k,
      sy_positionEvents := drop (unat (?k - ?f)) (sy_positionEvents s)\<rparr>"
  have ev: "drop (unat (?k - ?f)) (sy_positionEvents s) = drop (unat ?k) (ev0 # positions ms)"
    unfolding d(5) using off le by simp
  have "window_inv ev0 ms ap ?s"
    unfolding window_inv_def using d w(3) k ev by (intro conjI) simp_all
  moreover have "advance s = (?s, Inr ())" using ok by (simp add: advance_def Let_def)
  moreover have "drop (unat ?k) (ev0 # positions ms) \<noteq> []" using k by simp
  moreover have "\<forall>r\<in>#mset (batch_rows (sy_queue s)). ?k \<le> trc_EventID r"
    using w(3) unfolding batch_queue.in_window_def by blast
  ultimately show ?thesis using w(1) ev by (intro exI[of _ ?s]) simp
qed

subsection \<open>A turn of the loop\<close>

text \<open>The saved position: still the initial one, or that of an event the window has passed.\<close>

definition saved_inv ::
  "'g positionEvent list \<Rightarrow> 'g masterState \<Rightarrow> 64 word \<Rightarrow> 'g masterState \<Rightarrow> bool" where
  "saved_inv evs m0 f m \<longleftrightarrow>
     ms_pos m = ms_pos m0 \<or> (\<exists>k\<le>unat f. k < length evs \<and> ms_pos m = Some (pe_pos (evs ! k)))"

lemma saved_inv_mono: "saved_inv evs m0 f m \<Longrightarrow> f \<le> f' \<Longrightarrow> saved_inv (evs @ es) m0 f' m"
  unfolding saved_inv_def word_le_nat_alt
proof (elim disjE exE conjE)
  fix k
  assume "unat f \<le> unat f'" "k \<le> unat f" "k < length evs" "ms_pos m = Some (pe_pos (evs ! k))"
  then show "ms_pos m = ms_pos m0 \<or>
      (\<exists>k\<le>unat f'. k < length (evs @ es) \<and> ms_pos m = Some (pe_pos ((evs @ es) ! k)))"
    by (intro disjI2 exI[of _ k]) (simp add: nth_append)
qed simp

lemma SaveState_frame:
  "lp_state (fst (SaveState S G l)) = lp_state l" "lp_master (fst (SaveState S G l)) = lp_master l"
  "lp_fatal (fst (SaveState S G l)) = lp_fatal l @ fst (snd (SphinxService_SaveSyncState S G (en_sph (lp_engine l)) (lp_master l)))"
  by (simp_all add: SaveState_def Let_def)

lemma processGTIDSubscribers_frame:
  assumes "processGTIDSubscribers G s = Inr r"
  shows "sy_queue (fst r) = sy_queue s" "sy_staged (fst r) = sy_staged s"
    "sy_firstPositionEventID (fst r) = sy_firstPositionEventID s"
    "sy_lastPositionEventID (fst r) = sy_lastPositionEventID s" "sy_positionEvents (fst r) = sy_positionEvents s"
  using assms by (auto simp: processGTIDSubscribers_def result_simps split: option.splits)

text \<open>What \<open>save_position\<close> leaves of the loop's state, and the position it saves.\<close>

lemma save_position_cases:
  assumes "save_position S G bnow l = (l', Inr ())"
  shows "sy_queue (lp_state l') = sy_queue (lp_state l) \<and> sy_staged (lp_state l') = sy_staged (lp_state l) \<and>
     sy_firstPositionEventID (lp_state l') = sy_firstPositionEventID (lp_state l) \<and>
     sy_lastPositionEventID (lp_state l') = sy_lastPositionEventID (lp_state l) \<and>
     sy_positionEvents (lp_state l') = sy_positionEvents (lp_state l) \<and>
     (lp_master l' = lp_master l \<or>
      (\<exists>ev rest. sy_positionEvents (lp_state l) = ev # rest \<and>
         lp_master l' = fst (updatePosition G (lp_master l) ev)))"
proof (cases "bnow - lp_lastSaved l > save_interval")
  case False
  then show ?thesis using assms by (auto simp: save_position_def)
next
  case True
  then obtain ev rest where ev: "sy_positionEvents (lp_state l) = ev # rest"
    using assms by (cases "sy_positionEvents (lp_state l)") (simp_all add: save_position_def Let_def)
  let ?u = "updatePosition G (lp_master l) ev"
  let ?l = "l\<lparr>lp_lastSaved := bnow, lp_master := fst ?u\<rparr>"
  show ?thesis
  proof (cases "snd ?u")
    case False
    then show ?thesis using assms True ev by (auto simp: save_position_def Let_def)
  next
    case changed: True
    let ?r = "SaveState S G ?l"
    from assms True ev changed have run: "bindS (SaveState S G) (\<lambda>_ l.
          case processGTIDSubscribers G (lp_state l) of
            Inl e \<Rightarrow> (l, Inl e)
          | Inr r \<Rightarrow> (l\<lparr>lp_state := fst r, lp_sends := lp_sends l @ snd r\<rparr>, Inr ())) ?l = (l', Inr ())"
      by (simp add: save_position_def Let_def)
    then obtain r where r: "processGTIDSubscribers G (lp_state (fst ?r)) = Inr r"
      and l': "l' = (fst ?r)\<lparr>lp_state := fst r, lp_sends := lp_sends (fst ?r) @ snd r\<rparr>"
      by (auto simp: bindS_cases split: sum.splits)
    show ?thesis
      using processGTIDSubscribers_frame[OF r] ev by (simp add: l' SaveState_frame)
  qed
qed

lemma flush_inv:
  assumes inv: "window_inv ev0 ms ap (lp_state l)"
    and saved: "saved_inv (ev0 # positions ms) m0 (sy_firstPositionEventID (lp_state l)) (lp_master l)"
    and ok: "flush R G C now bnow l = (l', Inr ())"
  shows "window_inv ev0 ms (ap + mset (batch_rows (sy_staged (lp_state l')))) (lp_state l') \<and>
     saved_inv (ev0 # positions ms) m0 (sy_firstPositionEventID (lp_state l')) (lp_master l')"
proof -
  let ?s = "SplitQueue (doc_ready C now) (lp_state l)"
  let ?t = "arm_timer C ?s" and ?ap = "ap + mset (batch_rows (sy_staged ?s))"
  obtain s' where adv: "advance ?t = (s', Inr ())" and s': "window_inv ev0 ms ?ap s'"
    "sy_staged s' = sy_staged ?t" "sy_firstPositionEventID ?t \<le> sy_firstPositionEventID s'"
    using advance_inv[of ev0 ms ?ap ?t] SplitQueue_inv[OF inv, of "doc_ready C now"]
    by (auto simp: arm_timer_inv)
  have first: "sy_firstPositionEventID ?t = sy_firstPositionEventID (lp_state l)" and st: "sy_staged ?t = sy_staged ?s"
    by (simp_all add: arm_timer_def SplitQueue_split_batch)
  let ?l = "l\<lparr>lp_engine := fst (doBatch R (sy_staged ?s) (lp_engine l)), lp_state := s'\<rparr>"
  have "save_position (be_sphinx R) G bnow ?l = (l', Inr ())"
    using ok adv by (auto simp: flush_def Let_def split: sum.splits fault.splits)
  note f = save_position_cases[OF this, simplified]
  have w: "window_inv ev0 ms ?ap (lp_state l')"
    using s'(1) f window_inv_cong[of "lp_state l'" s'] by simp
  have mono: "saved_inv (ev0 # positions ms) m0 (sy_firstPositionEventID s') (lp_master l)"
    using saved_inv_mono[OF saved, of "sy_firstPositionEventID s'" "[]"] s'(3) first by simp
  have "saved_inv (ev0 # positions ms) m0 (sy_firstPositionEventID s') (lp_master l')"
    using f
  proof (elim conjE disjE exE)
    fix ev rest
    assume ev: "sy_positionEvents s' = ev # rest" "lp_master l' = fst (updatePosition G (lp_master l) ev)"
    have "ev = (ev0 # positions ms) ! unat (sy_firstPositionEventID s')"
      and "unat (sy_firstPositionEventID s') < length (ev0 # positions ms)"
      using window_invD(4,5)[OF s'(1)] ev(1) by (metis hd_drop_conv_nth le_imp_less_Suc length_Cons list.sel(1)) 
        (use window_invD(4)[OF s'(1)] in simp)
    then show ?thesis using ev(2) by (auto simp: saved_inv_def)
  qed (use mono in simp)
  then show ?thesis using w f s'(2) st by simp
qed

lemma sync_turn_inv:
  assumes inv: "window_inv ev0 ms ap (lp_state l)"
    and saved: "saved_inv (ev0 # positions ms) m0 (sy_firstPositionEventID (lp_state l)) (lp_master l)"
    and n: "length (positions (ms @ [msg])) < 2 ^ 64 - 1"
    and ok: "sync_turn R G C msg now bnow l = (l', Inr True)"
  shows "window_inv ev0 (ms @ [msg])
       (ap + (if flush_requested msg then mset (batch_rows (sy_staged (lp_state l'))) else {#})) (lp_state l') \<and>
     saved_inv (ev0 # positions (ms @ [msg])) m0 (sy_firstPositionEventID (lp_state l')) (lp_master l')"
proof -
  obtain s need sends where acc: "acceptMessage G (cf_FlushBulkTime C) (lp_master l) msg (lp_state l) = Inr (s, need, sends)"
    using ok by (auto simp: sync_turn_def split: sum.splits)
  let ?l = "l\<lparr>lp_state := s, lp_sends := lp_sends l @ sends\<rparr>"
  have w: "window_inv ev0 (ms @ [msg]) ap s" by (rule acceptMessage_inv[OF inv n acc])
  have first: "sy_firstPositionEventID s = sy_firstPositionEventID (lp_state l)"
    using acc by (cases msg) (auto simp: acceptMessage_def result_simps processGTIDSubscribeRequest_def Let_def
        split: option.splits if_splits)
  have sv: "saved_inv (ev0 # positions (ms @ [msg])) m0 (sy_firstPositionEventID s) (lp_master l)"
    using saved_inv_mono[OF saved order_refl, of "positions [msg]"] by (simp add: first)
  have need: "need_flush need = flush_requested msg" "need_stop need = (msg = CtxDone)"
    using acc by (cases msg; auto simp: acceptMessage_def result_simps no_need_def split: if_splits)+
  show ?thesis
  proof (cases "flush_requested msg")
    case False
    then show ?thesis using ok acc need w sv by (cases "msg = CtxDone") (auto simp: sync_turn_def Let_def)
  next
    case True
    then have "flush R G C now bnow ?l = (l', Inr ())"
      using ok acc need by (cases msg) (auto simp: sync_turn_def Let_def split: sum.splits fault.splits intro!: prod_eqI)
    from flush_inv[OF _ _ this, of ev0 "ms @ [msg]" ap m0] w sv True show ?thesis by simp
  qed
qed

end
