(* ===== verification/Consistency.thy ===== *)
theory Consistency
  imports Batch_Store Replication Sync_Safety
begin

text \<open>
  From the tables in MySQL to the documents in the backends. Row events change the tables, go through the rules and the
  sync loop into the queue, and successful flushes bring the documents up to date. The invariant says of every
  document that it is what the tables made of it before its queued changes; so a document without queued
  changes is as MySQL has it.
\<close>

subsection \<open>The changes that are queued for a document\<close>

definition entry_changes :: "BatchedChangeSet \<Rightarrow> string \<Rightarrow> 64 word \<Rightarrow> TableRowChange list" where
  "entry_changes q index d = (case batch_doc q index d of None \<Rightarrow> [] | Some dc \<Rightarrow> dc_Changes dc)"

lemma entry_changes_batch_of:
  "batch_of ds q \<Longrightarrow> entry_changes q index d = concat (map dc_Changes (changes_for index d ds))"
  using batch_doc_describes[of ds q index d]
  by (auto simp: entry_changes_def doc_describes_def split: option.splits)

lemma entry_changes_AddRow:
  assumes "batch_wf q"
  shows "entry_changes (AddRowChange q c) index d = entry_changes q index d @ doc_changes index d [c]"
proof -
  obtain ds where ds: "batch_of ds q" using assms by (auto simp: batch_wf_def)
  have "batch_of (ds @ [row_document c]) (AddRowChange q c)"
    unfolding AddRowChange_def by (rule batch_of_Add[OF ds])
  from entry_changes_batch_of[OF this] entry_changes_batch_of[OF ds] show ?thesis
    by (simp add: changes_for_def row_document_def)
qed

lemma entry_changes_AddRows:
  "batch_wf q \<Longrightarrow> batch_wf (foldl AddRowChange q cs) \<and>
     entry_changes (foldl AddRowChange q cs) index d = entry_changes q index d @ doc_changes index d cs"
  by (induction cs arbitrary: q) (simp_all add: entry_changes_AddRow)

lemma split_entries:
  assumes "batch_wf q"
  shows "batch_doc (fst (split_batch P q)) index i =
       (case batch_doc q index i of None \<Rightarrow> None | Some d \<Rightarrow> if P d then Some d else None)"
    and "batch_doc (snd (split_batch P q)) index i =
       (case batch_doc q index i of None \<Rightarrow> None | Some d \<Rightarrow> if P d then None else Some d)"
  using split_batch_parts[of P q] batch_doc_filter[OF assms, of P _ index i]
    batch_doc_filter[OF assms, of "\<lambda>d. \<not> P d" _ index i]
  by (auto split: option.splits)

text \<open>The index change sets of a queue.\<close>

lemma batch_wf_sets:
  assumes "batch_wf q"
  shows "\<forall>e\<in>set (bcs_Changes q). ics_Index (snd e) = fst e \<and> awf (ics_ChangedDocs (snd e))"
    and "awf (bcs_Changes q)"
proof -
  obtain ds where q: "bcs_Changes q = index_log ds" using assms by (auto simp: batch_wf_def batch_of_def)
  show awf: "awf (bcs_Changes q)" using index_log_awf[of ds] by (simp add: q)
  show "\<forall>e\<in>set (bcs_Changes q). ics_Index (snd e) = fst e \<and> awf (ics_ChangedDocs (snd e))"
  proof
    fix e assume e: "e \<in> set (bcs_Changes q)"
    then have "map_of (index_log ds) (fst e) = Some (snd e)" using awf by (simp add: q awf_lookup_iff[symmetric])
    then have "for_key dc_Index (fst e) ds \<noteq> [] \<and> index_describes (for_key dc_Index (fst e) ds) (snd e)"
      using index_sets.log_map_Some[of ds "fst e" "snd e"] by simp
    moreover have "for_key dc_Index (fst e) ds \<noteq> [] \<Longrightarrow> dc_Index (hd (for_key dc_Index (fst e) ds)) = fst e"
      using hd_in_set by fastforce
    moreover have "awf (ics_ChangedDocs (snd e))" using index_log_awf[of ds] e by (auto simp: q)
    ultimately show "ics_Index (snd e) = fst e \<and> awf (ics_ChangedDocs (snd e))" by (simp add: index_describes_def)
  qed
qed

lemma batch_sets_distinct: "batch_wf q \<Longrightarrow> distinct (map ics_Index (map snd (bcs_Changes q)))"
proof -
  assume "batch_wf q"
  then have "map ics_Index (map snd (bcs_Changes q)) = akeys (bcs_Changes q)"
    using batch_wf_sets(1) by (simp add: akeys_def)
  with batch_wf_sets(2)[OF \<open>batch_wf q\<close>] show ?thesis by (simp add: awf_def)
qed

lemma batch_doc_member:
  assumes "batch_wf q"
  shows "batch_doc q index d = Some dc \<longleftrightarrow>
     (\<exists>ics\<in>snd ` set (bcs_Changes q). ics_Index ics = index \<and> map_of (ics_ChangedDocs ics) d = Some dc)"
proof -
  have "map_of (bcs_Changes q) index = Some ics \<longleftrightarrow> ics \<in> snd ` set (bcs_Changes q) \<and> ics_Index ics = index" for ics
  proof
    assume "map_of (bcs_Changes q) index = Some ics"
    then have "(index, ics) \<in> set (bcs_Changes q)" by (rule map_of_SomeD)
    with batch_wf_sets(1)[OF assms] show "ics \<in> snd ` set (bcs_Changes q) \<and> ics_Index ics = index" by force
  next
    assume "ics \<in> snd ` set (bcs_Changes q) \<and> ics_Index ics = index"
    with batch_wf_sets(1)[OF assms] have "(index, ics) \<in> set (bcs_Changes q)" by force
    then show "map_of (bcs_Changes q) index = Some ics"
      using batch_wf_sets(2)[OF assms] by (simp add: awf_lookup_iff)
  qed
  note key = this
  have "batch_doc q index d = Some dc \<longleftrightarrow>
      (\<exists>ics. map_of (bcs_Changes q) index = Some ics \<and> map_of (ics_ChangedDocs ics) d = Some dc)"
    by (simp add: batch_doc_def split: option.split)
  also have "\<dots> \<longleftrightarrow> (\<exists>ics\<in>snd ` set (bcs_Changes q). ics_Index ics = index \<and> map_of (ics_ChangedDocs ics) d = Some dc)"
    unfolding key by blast
  finally show ?thesis .
qed

subsection \<open>Documents that follow the tables\<close>

text \<open>
  What an index query makes of the tables depends on the values its columns are mapped to: two states of the server in
  which the rows of a document feed an attribute with the same values give that field of the document the same
  content, and if all of them do, the document is in both or in none.
\<close>

definition determined ::
  "go_env \<Rightarrow> schema \<Rightarrow> IngestRule list \<Rightarrow> ('m \<Rightarrow> string \<Rightarrow> table_rows) \<Rightarrow>
   (string \<Rightarrow> (string \<Rightarrow> table_rows) \<Rightarrow> 64 word \<Rightarrow> (string \<Rightarrow> string option) option) \<Rightarrow> string \<Rightarrow> bool" where
  "determined E S rs tables view index \<longleftrightarrow>
     (\<forall>m m' d. full_tables S (tables m) \<and> full_tables S (tables m') \<longrightarrow>
        (\<forall>x y f. view index (tables m) d = Some x \<and> view index (tables m') d = Some y \<and>
           same_values E S rs index d f (tables m) (tables m') \<longrightarrow> x f = y f) \<and>
        ((\<forall>f. same_values E S rs index d f (tables m) (tables m')) \<longrightarrow>
           (view index (tables m) d = None) = (view index (tables m') d = None)))"

lemma determined_same:
  assumes "determined E S rs tables view index" and "full_tables S (tables m)" and "full_tables S (tables m')"
    and "\<forall>f. same_values E S rs index d f (tables m) (tables m')"
  shows "view index (tables m) d = view index (tables m') d"
proof (cases "view index (tables m) d")
  case None
  with assms show ?thesis unfolding determined_def by metis
next
  case (Some x)
  then obtain y where "view index (tables m') d = Some y" using assms unfolding determined_def by (metis option.exhaust)
  with Some assms have "\<forall>f. x f = y f" unfolding determined_def by metis
  then show ?thesis using Some \<open>view index (tables m') d = Some y\<close> by auto
qed

text \<open>
  The stored document \<open>x\<close> is what the index query made of an earlier state of the server, and the changes that lead
  from there to the present tables are queued.
\<close>

definition doc_tracked ::
  "go_env \<Rightarrow> schema \<Rightarrow> IngestRule list \<Rightarrow> ('m \<Rightarrow> string \<Rightarrow> table_rows) \<Rightarrow>
   (string \<Rightarrow> (string \<Rightarrow> table_rows) \<Rightarrow> 64 word \<Rightarrow> (string \<Rightarrow> string option) option) \<Rightarrow> string \<Rightarrow>
   BatchedChangeSet \<Rightarrow> (string \<Rightarrow> table_rows) \<Rightarrow> 64 word \<Rightarrow> (string \<Rightarrow> string option) option \<Rightarrow> bool" where
  "doc_tracked E S rs tables view index q T d x \<longleftrightarrow>
     (\<exists>m. full_tables S (tables m) \<and> x = view index (tables m) d \<and>
        row_history (index_columns S rs index) (index_map rs index) (index_view E S rs index d (tables m))
          (entry_changes q index d) \<and>
        rows_after (index_view E S rs index d (tables m)) (entry_changes q index d) = index_view E S rs index d T)"

lemma doc_tracked_current:
  assumes "full_tables S (tables m)" and "entry_changes q index d = []"
  shows "doc_tracked E S rs tables view index q (tables m) d (view index (tables m) d)"
  using assms by (auto simp: doc_tracked_def rows_after_def)

lemma doc_tracked_unreported:
  assumes "plain_index S rs index" and "full_tables S T" and "doc_tracked E S rs tables view index q T d x"
    and "ChangedAttrs E (entry_changes q index d) = Inr attrs"
  obtains m where "full_tables S (tables m)" and "x = view index (tables m) d"
    and "\<forall>f. f \<notin> attrs \<longrightarrow> same_values E S rs index d f (tables m) T"
proof -
  obtain m where m: "full_tables S (tables m)" "x = view index (tables m) d"
    "row_history (index_columns S rs index) (index_map rs index) (index_view E S rs index d (tables m))
       (entry_changes q index d)"
    "rows_after (index_view E S rs index d (tables m)) (entry_changes q index d) = index_view E S rs index d T"
    using assms(3) unfolding doc_tracked_def by blast
  from that[OF m(1,2)] history_values[OF assms(1) m(1) assms(2) m(3,4) assms(4)] show thesis by blast
qed

text \<open>A document whose queued changes net out to nothing is already up to date.\<close>

lemma doc_tracked_unchanged:
  assumes "plain_index S rs index" and "full_tables S (tables m)"
    and "determined E S rs tables view index" and "doc_tracked E S rs tables view index q (tables m) d x"
    and "ChangedAttrs E (entry_changes q index d) = Inr {}"
  shows "x = view index (tables m) d"
proof -
  obtain m0 where m0: "full_tables S (tables m0)" "x = view index (tables m0) d"
    "\<forall>f. f \<notin> {} \<longrightarrow> same_values E S rs index d f (tables m0) (tables m)"
    by (rule doc_tracked_unreported[OF assms(1,2,4,5)])
  then have "\<forall>f. same_values E S rs index d f (tables m0) (tables m)" by simp
  from determined_same[OF assms(3) m0(1) assms(2) this] m0(2) show ?thesis by simp
qed

lemma doc_tracked_event:
  assumes "plain_index S rs index" and "readable S rs index e" and "batch_wf q"
    and "doc_tracked E S rs tables view index q T d x"
    and "snd (ApplyRuleSet E clock rs e) = (cs, None)" and "replay_event E T e = Some T'"
    and "map untagged new = map untagged cs"
  shows "doc_tracked E S rs tables view index (foldl AddRowChange q new) T' d x"
proof -
  let ?cf = "index_columns S rs index" and ?cm = "index_map rs index"
  obtain m where m: "full_tables S (tables m)" "x = view index (tables m) d"
    "row_history ?cf ?cm (index_view E S rs index d (tables m)) (entry_changes q index d)"
    "rows_after (index_view E S rs index d (tables m)) (entry_changes q index d) = index_view E S rs index d T"
    using assms(4) unfolding doc_tracked_def by blast
  have same: "map untagged (doc_changes index d new) = map untagged (doc_changes index d cs)"
    using assms(7) by (simp only: untagged_doc_changes[symmetric])
  note h = event_history[OF assms(1,2) ApplyRuleSet_ok[OF assms(5)] assms(6), of d]
  let ?V = "index_view E S rs index d T"
  have "row_history ?cf ?cm ?V (map untagged (doc_changes index d new)) \<and>
      rows_after ?V (map untagged (doc_changes index d new)) = index_view E S rs index d T'"
    unfolding same untagged_history by (rule h)
  then have "row_history ?cf ?cm ?V (doc_changes index d new)"
    and "rows_after ?V (doc_changes index d new) = index_view E S rs index d T'"
    unfolding untagged_history by (rule conjunct1, rule conjunct2)
  moreover have "entry_changes (foldl AddRowChange q new) index d = entry_changes q index d @ doc_changes index d new"
    using entry_changes_AddRows[OF assms(3)] by blast
  ultimately show ?thesis
    unfolding doc_tracked_def using m
    by (intro exI[of _ m]) (simp only: row_history_append rows_after_append simp_thms)
qed

end
