(* ===== verification/Loop_Consistency.thy ===== *)
theory Loop_Consistency
  imports Consistency
begin

text \<open>
  The sync loop keeps the documents in the backends consistent with MySQL: what its flushes do to tracked documents, the
  system of the server, the loop and the backends, and its invariant.
\<close>

subsection \<open>Saving the position leaves the documents alone\<close>

text \<open>The saved state is kept outside of the indexes.\<close>

definition saves_elsewhere :: "'b sph_env \<Rightarrow> ('b \<Rightarrow> index_store) \<Rightarrow> bool" where
  "saves_elsewhere S docs \<longleftrightarrow> (\<forall>p gtid flavor b. docs (fst (se_execute S (sync_state_stmt p gtid flavor) b)) = docs b)"

lemma execute_keeps_docs:
  assumes "executes_documented S docs idField" and "\<forall>b. docs (fst (se_execute S stmt b)) = docs b"
  shows "conn_docs docs (fst (execute S stmt c)) = conn_docs docs c"
proof -
  have close: "docs (fst (se_close S b)) = docs b" for b using assms(1) by (simp add: executes_documented_def)
  have "conn_docs docs (fst (retry S pause stmt c)) = conn_docs docs c" for pause c
    using retry_loop_docs[OF assms(1)] assms(2) close
    by (simp add: retry_def Let_def bindS_cases resend_def split: option.split sum.split)
  then show ?thesis
    using assms(2) by (simp add: execute_def Let_def split: sum.split fault.split)
qed

definition same_docs :: "('b \<Rightarrow> index_store) \<Rightarrow> 'b SphConn list option \<Rightarrow> 'b SphConn list option \<Rightarrow> bool" where
  "same_docs docs = rel_option (list_all2 (\<lambda>c c'. conn_docs docs c' = conn_docs docs c))"

lemma same_docs_refl: "same_docs docs x x"
  by (cases x) (auto simp: same_docs_def intro: list.rel_refl_strong)

lemma SaveState_docs:
  assumes "executes_documented S docs idField" and "saves_elsewhere S docs"
  shows "same_docs docs (en_sph (lp_engine l)) (en_sph (lp_engine (fst (SaveState S G l))))"
    and "en_mysql (lp_engine (fst (SaveState S G l))) = en_mysql (lp_engine l)"
    and "lp_state (fst (SaveState S G l)) = lp_state l"
proof -
  have "conn_docs docs (fst (savePosition S G p c)) = conn_docs docs c" for p c
    using execute_keeps_docs[OF assms(1)] assms(2)
    by (auto simp: savePosition_def returnS_def saves_elsewhere_def split: option.split)
  then show "same_docs docs (en_sph (lp_engine l)) (en_sph (lp_engine (fst (SaveState S G l))))"
    by (auto simp: SaveState_def SphinxService_SaveSyncState_def SaveSyncState_def request_all_def Let_def
        same_docs_def list_all2_map2 split: option.split intro: list.rel_refl_strong)
qed (simp_all add: SaveState_def Let_def)

lemma processGTIDSubscribers_queue:
  "processGTIDSubscribers G s = Inr r \<Longrightarrow> sy_queue (fst r) = sy_queue s"
  by (auto simp: processGTIDSubscribers_def result_simps split: option.splits)

lemma save_position_docs:
  assumes "executes_documented S docs idField" and "saves_elsewhere S docs"
  shows "same_docs docs (en_sph (lp_engine l)) (en_sph (lp_engine (fst (save_position S G bnow l)))) \<and>
     en_mysql (lp_engine (fst (save_position S G bnow l))) = en_mysql (lp_engine l) \<and>
     sy_queue (lp_state (fst (save_position S G bnow l))) = sy_queue (lp_state l)"
proof (cases "bnow - lp_lastSaved l > save_interval")
  case False
  then show ?thesis by (simp add: save_position_def same_docs_refl)
next
  case True
  show ?thesis
  proof (cases "sy_positionEvents (lp_state l)")
    case Nil
    with True show ?thesis by (simp add: save_position_def same_docs_refl)
  next
    case (Cons ev evs)
    let ?u = "updatePosition G (lp_master l) ev"
    let ?l = "l\<lparr>lp_lastSaved := bnow, lp_master := fst ?u\<rparr>"
    show ?thesis
    proof (cases "snd ?u")
      case False
      with True Cons show ?thesis by (simp add: save_position_def Let_def same_docs_refl)
    next
      case upd: True
      let ?save = "bindS (SaveState S G) (\<lambda>_ l. case processGTIDSubscribers G (lp_state l) of
          Inl e \<Rightarrow> (l, Inl e)
        | Inr r \<Rightarrow> (l\<lparr>lp_state := fst r, lp_sends := lp_sends l @ snd r\<rparr>, Inr ())) ?l"
      have run: "save_position S G bnow l = ?save" using True Cons upd by (simp add: save_position_def Let_def)
      show ?thesis
        unfolding run using SaveState_docs[OF assms, where l = ?l and G = G]
        by (auto simp: bindS_cases split: sum.split dest: processGTIDSubscribers_queue)
    qed
  qed
qed

subsection \<open>What a successful flush has done\<close>

lemma flush_stored:
  assumes "executes_documented (be_sphinx R) docs idField" and "saves_elsewhere (be_sphinx R) docs"
    and sr: "sr = split_batch (doc_ready C now) (sy_queue (lp_state l))"
    and b: "snd (doBatch R (fst sr) (lp_engine l)) = Inr ()"
  shows "same_docs docs (en_sph (fst (doBatch R (fst sr) (lp_engine l))))
      (en_sph (lp_engine (fst (flush R G C now bnow l)))) \<and>
    en_mysql (lp_engine (fst (flush R G C now bnow l))) = en_mysql (fst (doBatch R (fst sr) (lp_engine l))) \<and>
    sy_queue (lp_state (fst (flush R G C now bnow l))) = snd sr"
proof -
  let ?s = "SplitQueue (doc_ready C now) (lp_state l)"
  let ?b = "doBatch R (fst sr) (lp_engine l)" and ?a = "advance (arm_timer C ?s)"
  let ?l = "l\<lparr>lp_engine := fst ?b, lp_state := fst ?a\<rparr>"
  have s: "sy_staged ?s = fst sr" "sy_queue ?s = snd sr" by (simp_all add: SplitQueue_split_batch sr)
  have queue: "sy_queue (fst ?a) = snd sr" using s(2) by (simp add: advance_def arm_timer_def Let_def)
  show ?thesis
  proof (cases "snd ?a")
    case (Inl f)
    then have "fst (flush R G C now bnow l) = ?l" using s b by (simp add: flush_def Let_def)
    then show ?thesis using queue by (simp add: same_docs_refl)
  next
    case (Inr u)
    then have run: "flush R G C now bnow l = save_position (be_sphinx R) G bnow ?l"
      using s b by (simp add: flush_def Let_def)
    show ?thesis using save_position_docs[OF assms(1,2), where l = ?l and G = G and bnow = bnow, folded run] queue by simp
  qed
qed

lemma flush_success:
  assumes "executes_documented (be_sphinx R) docs idField" and "saves_elsewhere (be_sphinx R) docs"
    and "snd (flush R G C now bnow l) = Inr ()"
    and "sr = split_batch (doc_ready C now) (sy_queue (lp_state l))"
  shows "snd (doBatch R (fst sr) (lp_engine l)) = Inr ()"
    and "same_docs docs (en_sph (fst (doBatch R (fst sr) (lp_engine l))))
      (en_sph (lp_engine (fst (flush R G C now bnow l))))"
    and "en_mysql (lp_engine (fst (flush R G C now bnow l))) = en_mysql (fst (doBatch R (fst sr) (lp_engine l)))"
    and "sy_queue (lp_state (fst (flush R G C now bnow l))) = snd sr"
proof -
  have "sy_staged (SplitQueue (doc_ready C now) (lp_state l)) = fst sr" by (simp add: SplitQueue_split_batch assms(4))
  then show b: "snd (doBatch R (fst sr) (lp_engine l)) = Inr ()"
    using assms(3) by (auto simp: flush_def Let_def split: sum.splits fault.splits)
  note stored = flush_stored[OF assms(1,2,4) b, of G bnow]
  from stored show "same_docs docs (en_sph (fst (doBatch R (fst sr) (lp_engine l))))
      (en_sph (lp_engine (fst (flush R G C now bnow l))))" by blast
  from stored show "en_mysql (lp_engine (fst (flush R G C now bnow l))) = en_mysql (fst (doBatch R (fst sr) (lp_engine l)))"
    by blast
  from stored show "sy_queue (lp_state (fst (flush R G C now bnow l))) = snd sr" by blast
qed

subsection \<open>Tracked documents and a successful batch\<close>

lemma attrs_of_doc:
  assumes "ChangedAttrsByDocID E ics = Inr A" and "awf (ics_ChangedDocs ics)"
  shows "map_of (ics_ChangedDocs ics) i = Some dc \<Longrightarrow>
      ChangedAttrs E (dc_Changes dc) = Inr (the (map_of (bca_Attrs A) i)) \<and>
      (i \<in> set (bca_ChangedDocIDs A) \<longleftrightarrow> ChangedAttrs E (dc_Changes dc) \<noteq> Inr {})"
    and "i \<in> set (bca_ChangedDocIDs A) \<Longrightarrow> map_of (ics_ChangedDocs ics) i \<noteq> None"
proof -
  let ?docs = "ics_ChangedDocs ics"
  have sorted: "attrs_sorted E ?docs A"
    using ChangedAttrsByDocID_fold[OF assms(2)] assms(1) by (simp add: ChangedAttrsByDocID_def)
  then have ids: "bca_ChangedDocIDs A = map fst (filter (\<lambda>e. ChangedAttrs E (dc_Changes (snd e)) \<noteq> Inr {}) ?docs)"
    and eq: "map (\<lambda>e. (fst e, Inr (snd e))) (bca_Attrs A) = map (\<lambda>e. (fst e, ChangedAttrs E (dc_Changes (snd e)))) ?docs"
    by (simp_all add: attrs_sorted_def)
  show "map_of ?docs i \<noteq> None" if changed: "i \<in> set (bca_ChangedDocIDs A)"
  proof -
    obtain dc' where "(i, dc') \<in> set ?docs" using changed unfolding ids by auto
    from weak_map_of_SomeI[OF this] show ?thesis by auto
  qed
  assume i: "map_of ?docs i = Some dc"
  have "map fst (bca_Attrs A) = map fst ?docs" using arg_cong[OF eq, of "map fst"] by (simp add: comp_def)
  then have dist: "distinct (map fst (bca_Attrs A))" using assms(2) by (simp add: awf_def akeys_def)
  have mem: "(i, dc) \<in> set ?docs" by (rule map_of_SomeD[OF i])
  then have "(i, ChangedAttrs E (dc_Changes dc)) \<in> set (map (\<lambda>e. (fst e, Inr (snd e))) (bca_Attrs A))"
    unfolding eq by force
  then obtain a where "(i, a) \<in> set (bca_Attrs A)" "ChangedAttrs E (dc_Changes dc) = Inr a" by auto
  moreover from this(1) have "map_of (bca_Attrs A) i = Some a" using dist by simp
  moreover have "i \<in> set (bca_ChangedDocIDs A) \<longleftrightarrow> ChangedAttrs E (dc_Changes dc) \<noteq> Inr {}"
  proof
    assume "i \<in> set (bca_ChangedDocIDs A)"
    then obtain dc' where "(i, dc') \<in> set ?docs" "ChangedAttrs E (dc_Changes dc') \<noteq> Inr {}" by (auto simp: ids)
    with i assms(2) show "ChangedAttrs E (dc_Changes dc) \<noteq> Inr {}" by (simp add: awf_lookup_iff)
  qed (use mem ids in force)
  ultimately show "ChangedAttrs E (dc_Changes dc) = Inr (the (map_of (bca_Attrs A) i)) \<and>
      (i \<in> set (bca_ChangedDocIDs A) \<longleftrightarrow> ChangedAttrs E (dc_Changes dc) \<noteq> Inr {})" by simp
qed

text \<open>All documents of all indexes of one backend are tracked.\<close>

definition store_tracked ::
  "('b, 'm) batch_env \<Rightarrow> schema \<Rightarrow> IngestRule list \<Rightarrow> ('m \<Rightarrow> string \<Rightarrow> table_rows) \<Rightarrow>
   (string \<Rightarrow> (string \<Rightarrow> table_rows) \<Rightarrow> 64 word \<Rightarrow> (string \<Rightarrow> string option) option) \<Rightarrow>
   BatchedChangeSet \<Rightarrow> (string \<Rightarrow> table_rows) \<Rightarrow> index_store \<Rightarrow> bool" where
  "store_tracked R S rs tables view q T st \<longleftrightarrow>
     (\<forall>index ds d. map_of (be_DataSource R) index = Some ds \<longrightarrow>
        doc_tracked (be_go R) S rs tables view index q T d (stored_doc index (sc_Parts ds) st d))"

text \<open>
  The documents that a batch only updates, and that are in the tables, are in the index. The program does not ensure this
  (\<open>attribute_only_document_missing\<close>).
\<close>

definition updates_present ::
  "('b, 'm) batch_env \<Rightarrow> (string \<Rightarrow> 't \<Rightarrow> 64 word \<Rightarrow> (string \<Rightarrow> string option) option) \<Rightarrow> 't \<Rightarrow>
   BatchedChangeSet \<Rightarrow> index_store \<Rightarrow> bool" where
  "updates_present R view T batch st \<longleftrightarrow>
     (\<forall>ics\<in>snd ` set (bcs_Changes batch). \<forall>ds A i.
        map_of (be_DataSource R) (ics_Index ics) = Some ds \<and> ChangedAttrsByDocID (be_go R) ics = Inr A \<and>
        i \<in> set (bca_ChangedDocIDs A) \<and> the (map_of (bca_Attrs A) i) \<subseteq> scd_attrFields (sc_details ds) \<and>
        view (ics_Index ics) T i \<noteq> None \<longrightarrow> stored_doc (ics_Index ics) (sc_Parts ds) st i \<noteq> None)"

text \<open>What the development assumes of the configured indexes.\<close>

definition indexes_follow ::
  "('b, 'm) batch_env \<Rightarrow> schema \<Rightarrow> IngestRule list \<Rightarrow> ('m \<Rightarrow> string \<Rightarrow> table_rows) \<Rightarrow>
   (string \<Rightarrow> (string \<Rightarrow> table_rows) \<Rightarrow> 64 word \<Rightarrow> (string \<Rightarrow> string option) option) \<Rightarrow> bool" where
  "indexes_follow R S rs tables view \<longleftrightarrow>
     (\<forall>index ds. map_of (be_DataSource R) index = Some ds \<longrightarrow>
        plain_index S rs index \<and> determined (be_go R) S rs tables view index)"

lemma staged_entry:
  assumes "batch_wf q" and "ics \<in> snd ` set (bcs_Changes (fst (split_batch P q)))"
    and "map_of (ics_ChangedDocs ics) d = Some dc"
  shows "batch_doc q (ics_Index ics) d = Some dc" and "entry_changes q (ics_Index ics) d = dc_Changes dc"
    and "entry_changes (snd (split_batch P q)) (ics_Index ics) d = []"
proof -
  have wf: "batch_wf (fst (split_batch P q))" using batch_queue.wf_split[OF assms(1), of P] by simp
  have "batch_doc (fst (split_batch P q)) (ics_Index ics) d = Some dc"
    using assms(2,3) batch_doc_member[OF wf] by blast
  then have "batch_doc q (ics_Index ics) d = Some dc \<and> P dc"
    using split_entries(1)[OF assms(1), of P "ics_Index ics" d] by (auto split: option.splits if_splits)
  then show "batch_doc q (ics_Index ics) d = Some dc" and "entry_changes q (ics_Index ics) d = dc_Changes dc"
    and "entry_changes (snd (split_batch P q)) (ics_Index ics) d = []"
    using split_entries(2)[OF assms(1), of P "ics_Index ics" d] by (auto simp: entry_changes_def)
qed

lemma tracked_updates_fit:
  assumes follow: "indexes_follow R S rs tables view" and full: "full_tables S (tables m)" and wf: "batch_wf q"
    and tracked: "store_tracked R S rs tables view q (tables m) st"
    and present: "updates_present R view (tables m) (fst (split_batch P q)) st"
    and ics: "ics \<in> snd ` set (bcs_Changes (fst (split_batch P q)))"
  shows "updates_fit R view (tables m) ics st"
  unfolding updates_fit_def
proof (intro allI impI, elim conjE)
  fix ds A i new
  assume ds: "map_of (be_DataSource R) (ics_Index ics) = Some ds" and A: "ChangedAttrsByDocID (be_go R) ics = Inr A"
    and i: "i \<in> set (bca_ChangedDocIDs A)" and attr: "the (map_of (bca_Attrs A) i) \<subseteq> scd_attrFields (sc_details ds)"
    and new: "view (ics_Index ics) (tables m) i = Some new"
  let ?x = "stored_doc (ics_Index ics) (sc_Parts ds) st i" and ?attrs = "the (map_of (bca_Attrs A) i)"
  have wf': "batch_wf (fst (split_batch P q))" using batch_queue.wf_split[OF wf, of P] by simp
  have awf: "awf (ics_ChangedDocs ics)" using batch_wf_sets(1)[OF wf'] ics by auto
  obtain dc where dc: "map_of (ics_ChangedDocs ics) i = Some dc" using attrs_of_doc(2)[OF A awf i] by blast
  have idx: "plain_index S rs (ics_Index ics)" and det: "determined (be_go R) S rs tables view (ics_Index ics)"
    using follow ds by (auto simp: indexes_follow_def)
  have "doc_tracked (be_go R) S rs tables view (ics_Index ics) q (tables m) i ?x"
    using tracked ds by (simp add: store_tracked_def)
  moreover have "ChangedAttrs (be_go R) (entry_changes q (ics_Index ics) i) = Inr ?attrs"
    using attrs_of_doc(1)[OF A awf dc] staged_entry(2)[OF wf ics dc] by simp
  ultimately obtain m0 where m0: "full_tables S (tables m0)" "?x = view (ics_Index ics) (tables m0) i"
    "\<forall>f. f \<notin> ?attrs \<longrightarrow> same_values (be_go R) S rs (ics_Index ics) i f (tables m0) (tables m)"
    by (rule doc_tracked_unreported[OF idx full])
  have "?x \<noteq> None" using present ics ds A i attr new unfolding updates_present_def by blast
  then obtain doc where doc: "?x = Some doc" by blast
  have "\<forall>f. f \<notin> ?attrs \<longrightarrow> doc f = new f"
    using det m0 full doc new unfolding determined_def by metis
  with doc show "\<exists>doc. ?x = Some doc \<and> (\<forall>f. f \<notin> ?attrs \<longrightarrow> doc f = new f)" by blast
qed


text \<open>A document of the staged batch is refreshed if its staged changes change an attribute, and is no
longer waiting in the accumulated batch.\<close>

lemma staged_doc:
  assumes wf: "batch_wf q"
    and ok: "\<forall>ics\<in>snd ` set (bcs_Changes (fst (split_batch P q))). \<exists>A. ChangedAttrsByDocID (be_go R) ics = Inr A"
    and refreshed: "all_refreshed R view ts (map snd (bcs_Changes (fst (split_batch P q)))) st st'"
    and ds: "map_of (be_DataSource R) index = Some ds"
    and doc: "batch_doc (fst (split_batch P q)) index d = Some dc"
  shows "\<exists>A. ChangedAttrs (be_go R) (entry_changes q index d) = Inr A \<and>
    entry_changes (snd (split_batch P q)) index d = [] \<and>
    stored_doc index (sc_Parts ds) st' d = (if A = {} then stored_doc index (sc_Parts ds) st d else view index ts d)"
proof -
  have wf': "batch_wf (fst (split_batch P q))" using batch_queue.wf_split[OF wf, of P] by simp
  from doc obtain ics where ics: "ics \<in> snd ` set (bcs_Changes (fst (split_batch P q)))" "ics_Index ics = index"
    "map_of (ics_ChangedDocs ics) d = Some dc" using batch_doc_member[OF wf'] by blast
  obtain B where B: "ChangedAttrsByDocID (be_go R) ics = Inr B" using ok ics(1) by blast
  have awf: "awf (ics_ChangedDocs ics)" using batch_wf_sets(1)[OF wf'] ics(1) by auto
  note entry = staged_entry[OF wf ics(1,3), unfolded ics(2)]
  have "refreshed R view ts ics st st'" using refreshed ics(1) by (auto simp: all_refreshed_def)
  then have "stored_doc index (sc_Parts ds) st' d = (if d \<in> set (bca_ChangedDocIDs B) then view index ts d
    else stored_doc index (sc_Parts ds) st d)" using ds B ics(2) by (auto simp: refreshed_def)
  then show ?thesis using attrs_of_doc(1)[OF B awf ics(3)] entry by auto
qed

text \<open>A document that the staged batch does not hold keeps its stored value.\<close>

lemma unstaged_doc:
  assumes wf: "batch_wf q"
    and ok: "\<forall>ics\<in>snd ` set (bcs_Changes (fst (split_batch P q))). \<exists>A. ChangedAttrsByDocID (be_go R) ics = Inr A"
    and apart: "parts_apart (be_DataSource R)"
    and refreshed: "all_refreshed R view ts (map snd (bcs_Changes (fst (split_batch P q)))) st st'"
    and ds: "map_of (be_DataSource R) index = Some ds"
    and None: "batch_doc (fst (split_batch P q)) index d = None"
  shows "stored_doc index (sc_Parts ds) st' d = stored_doc index (sc_Parts ds) st d"
proof (cases "\<exists>ics\<in>snd ` set (bcs_Changes (fst (split_batch P q))). ics_Index ics = index")
  case True
  let ?L = "snd ` set (bcs_Changes (fst (split_batch P q)))"
  have wf': "batch_wf (fst (split_batch P q))" using batch_queue.wf_split[OF wf, of P] by simp
  from True obtain ics where ics: "ics \<in> ?L" "ics_Index ics = index" by blast
  obtain A where A: "ChangedAttrsByDocID (be_go R) ics = Inr A" using ok ics(1) by blast
  have awf: "awf (ics_ChangedDocs ics)" using batch_wf_sets(1)[OF wf'] ics(1) by auto
  have "map_of (ics_ChangedDocs ics) d = None"
    using None ics batch_doc_member[OF wf', of index d] by (cases "map_of (ics_ChangedDocs ics) d") auto
  then have "d \<notin> set (bca_ChangedDocIDs A)" using attrs_of_doc(2)[OF A awf] by blast
  moreover have "refreshed R view ts ics st st'" using refreshed ics(1) by (auto simp: all_refreshed_def)
  ultimately show ?thesis using ds A ics(2) by (auto simp: refreshed_def)
next
  case False
  let ?L = "snd ` set (bcs_Changes (fst (split_batch P q)))"
  have parts: "sc_Parts ds \<noteq> 0" using apart ds by (auto simp: parts_apart_def)
  have "part_names index (sc_Parts ds) \<inter> source_names R (ics_Index ics) = {}" if "ics \<in> ?L" for ics
    using False that by (intro source_names_apart[OF apart _ ds]) auto
  then have "part_names index (sc_Parts ds) \<inter> (\<Union>ics\<in>?L. source_names R (ics_Index ics)) = {}"
    unfolding Int_UN_distrib by simp
  with refreshed show ?thesis by (intro same_outside_stored[OF _ parts]) (auto simp: all_refreshed_def)
qed

text \<open>One document, staged or not, after the batch.\<close>

lemma doc_tracked_after:
  assumes follow: "indexes_follow R S rs tables view" and full: "full_tables S (tables m)" and wf: "batch_wf q"
    and ok: "\<forall>ics\<in>snd ` set (bcs_Changes (fst (split_batch P q))). \<exists>A. ChangedAttrsByDocID (be_go R) ics = Inr A"
    and apart: "parts_apart (be_DataSource R)"
    and refreshed: "all_refreshed R view (tables m) (map snd (bcs_Changes (fst (split_batch P q)))) st st'"
    and tracked: "doc_tracked (be_go R) S rs tables view index q (tables m) d (stored_doc index (sc_Parts ds) st d)"
    and ds: "map_of (be_DataSource R) index = Some ds"
  shows "doc_tracked (be_go R) S rs tables view index (snd (split_batch P q)) (tables m) d
    (stored_doc index (sc_Parts ds) st' d)"
proof (cases "batch_doc (fst (split_batch P q)) index d")
  case (Some dc)
  have idx: "plain_index S rs index" and det: "determined (be_go R) S rs tables view index"
    using follow ds by (auto simp: indexes_follow_def)
  from staged_doc[OF wf ok refreshed ds Some] obtain A where
    attrs: "ChangedAttrs (be_go R) (entry_changes q index d) = Inr A"
    and left: "entry_changes (snd (split_batch P q)) index d = []"
    and new: "stored_doc index (sc_Parts ds) st' d = (if A = {} then stored_doc index (sc_Parts ds) st d
      else view index (tables m) d)" by blast
  have "stored_doc index (sc_Parts ds) st' d = view index (tables m) d"
    using doc_tracked_unchanged[OF idx full det tracked] attrs new by (cases "A = {}") auto
  then show ?thesis using doc_tracked_current[where tables = tables and m = m, OF full left] by simp
next
  case None
  have "entry_changes (snd (split_batch P q)) index d = entry_changes q index d"
    using None split_entries[OF wf, of P index d] by (auto simp: entry_changes_def split: option.splits if_splits)
  then show ?thesis using tracked unstaged_doc[OF wf ok apart refreshed ds None] by (simp add: doc_tracked_def)
qed

text \<open>A batch that succeeds has run change detection on all its indexes.\<close>

lemma batch_detects:
  "snd (eachS (doIndexChangeSet R) L e) = Inr () \<Longrightarrow> \<forall>ics\<in>set L. \<exists>A. ChangedAttrsByDocID (be_go R) ics = Inr A"
proof (induction L arbitrary: e)
  case (Cons ics L)
  then have ok: "snd (doIndexChangeSet R ics e) = Inr ()"
    and rest: "snd (eachS (doIndexChangeSet R) L (fst (doIndexChangeSet R ics e))) = Inr ()"
    by (auto simp: bindS_cases split: sum.splits)
  have "\<exists>A. ChangedAttrsByDocID (be_go R) ics = Inr A" using ok by (cases rule: doIndexChangeSet_success) auto
  with Cons.IH[OF rest] show ?case by simp
qed simp

lemma batch_tracked:
  assumes laws: "serves_view R tables view idField" "parts_apart (be_DataSource R)"
      "executes_documented (be_sphinx R) docs idField" "indexes_follow R S rs tables view"
    and full: "full_tables S (tables (en_mysql e))" and wf: "batch_wf q"
    and ok: "snd (doBatch R (fst (split_batch P q)) e) = Inr ()" and conns: "en_sph e = Some conns"
    and tracked: "\<forall>c\<in>set conns. store_tracked R S rs tables view q (tables (en_mysql e)) (conn_docs docs c)"
    and present: "\<forall>c\<in>set conns. updates_present R view (tables (en_mysql e)) (fst (split_batch P q)) (conn_docs docs c)"
  shows "tables (en_mysql (fst (doBatch R (fst (split_batch P q)) e))) = tables (en_mysql e) \<and>
     (\<exists>conns'. en_sph (fst (doBatch R (fst (split_batch P q)) e)) = Some conns' \<and>
        (\<forall>c'\<in>set conns'. store_tracked R S rs tables view (snd (split_batch P q)) (tables (en_mysql e)) (conn_docs docs c')))"
proof -
  let ?staged = "fst (split_batch P q)" and ?T = "tables (en_mysql e)"
  have wf': "batch_wf ?staged" using batch_queue.wf_split[OF wf, of P] by simp
  have fit: "\<forall>c\<in>set conns. \<forall>ics\<in>snd ` set (bcs_Changes ?staged). updates_fit R view ?T ics (conn_docs docs c)"
    using tracked_updates_fit[OF laws(4) full wf] tracked present by blast
  have "\<forall>ics\<in>snd ` set (bcs_Changes ?staged). awf (ics_ChangedDocs ics)" using batch_wf_sets(1)[OF wf'] by auto
  from batch_refreshed[OF laws(1-3) ok this batch_sets_distinct[OF wf'] conns fit]
  obtain conns' where conns': "tables (en_mysql (fst (doBatch R ?staged e))) = ?T"
    "en_sph (fst (doBatch R ?staged e)) = Some conns'"
    "list_all2 (\<lambda>c c'. all_refreshed R view ?T (map snd (bcs_Changes ?staged)) (conn_docs docs c) (conn_docs docs c'))
       conns conns'" by blast
  have "doBatch R ?staged e = eachS (doIndexChangeSet R) (map snd (bcs_Changes ?staged)) e" by (auto simp: doBatch_def)
  then have detects: "\<forall>ics\<in>snd ` set (bcs_Changes ?staged). \<exists>A. ChangedAttrsByDocID (be_go R) ics = Inr A"
    using batch_detects[of R "map snd (bcs_Changes ?staged)" e] ok by simp
  have "store_tracked R S rs tables view (snd (split_batch P q)) ?T (conn_docs docs c')" if c': "c' \<in> set conns'" for c'
  proof -
    obtain c where c: "c \<in> set conns"
      "all_refreshed R view ?T (map snd (bcs_Changes ?staged)) (conn_docs docs c) (conn_docs docs c')"
      using list_all2_member[OF conns'(3) c'] by blast
    have "store_tracked R S rs tables view q ?T (conn_docs docs c)" using tracked c(1) by blast
    then show ?thesis
      using doc_tracked_after[OF laws(4) full wf detects laws(2) c(2)] by (simp add: store_tracked_def)
  qed
  with conns' show ?thesis by blast
qed

end
