(* ===== verification/Consistent_Index.thy ===== *)
theory Consistent_Index
  imports Loop_Consistency
begin

text \<open>
  The whole way from MySQL to the backends as one transition system, and the property that the program exists for: a
  document without queued changes is in every backend as the tables make it.
\<close>

subsection \<open>The system\<close>

text \<open>
  The server, the loop and the backends are the parts of \<open>l\<close>. A row event changes the tables and its changes go through
  the loop; any other message is a turn of the loop, which may flush. The loop is up to date with the
  server whenever it flushes: \<open>fetch_ahead_goes_stale\<close> shows why this is needed.
\<close>

inductive system_reach ::
  "('b, 'm) batch_env \<Rightarrow> 'g gtid_env \<Rightarrow> sync_config \<Rightarrow> schema \<Rightarrow> IngestRule list \<Rightarrow>
   ('m \<Rightarrow> string \<Rightarrow> table_rows) \<Rightarrow>
   (string \<Rightarrow> (string \<Rightarrow> table_rows) \<Rightarrow> 64 word \<Rightarrow> (string \<Rightarrow> string option) option) \<Rightarrow>
   ('b \<Rightarrow> index_store) \<Rightarrow> ('b, 'm, 'g) sync_loop \<Rightarrow> ('b, 'm, 'g) sync_loop \<Rightarrow> bool"
  for R G C S rs tables view docs l0 where
    start: "system_reach R G C S rs tables view docs l0 l0"
  | row_event: "system_reach R G C S rs tables view docs l0 l \<Longrightarrow>
      replay_event (be_go R) (tables (en_mysql (lp_engine l))) e = Some (tables m') \<Longrightarrow>
      event_fits S e \<Longrightarrow> (\<forall>index ds. map_of (be_DataSource R) index = Some ds \<longrightarrow> readable S rs index e) \<Longrightarrow>
      snd (ApplyRuleSet (be_go R) clock rs e) = (cs, None) \<Longrightarrow>
      SyncLoop R G C (map (\<lambda>c. (RowMsg c, now, bnow)) cs) (l\<lparr>lp_engine := (lp_engine l)\<lparr>en_mysql := m'\<rparr>\<rparr>)
        = (l', Inr True) \<Longrightarrow>
      system_reach R G C S rs tables view docs l0 l'"
  | other_turn: "system_reach R G C S rs tables view docs l0 l \<Longrightarrow> (\<forall>c. msg \<noteq> RowMsg c) \<Longrightarrow>
      (flush_requested msg \<longrightarrow> (\<forall>conns. en_sph (lp_engine l) = Some conns \<longrightarrow> (\<forall>c\<in>set conns.
         updates_present R view (tables (en_mysql (lp_engine l)))
           (fst (split_batch (doc_ready C now) (sy_queue (lp_state l)))) (docs (conn_backend c))))) \<Longrightarrow>
      sync_turn R G C msg now bnow l = (l', Inr True) \<Longrightarrow>
      system_reach R G C S rs tables view docs l0 l'"

subsection \<open>The invariant\<close>

definition system_inv ::
  "('b, 'm) batch_env \<Rightarrow> schema \<Rightarrow> IngestRule list \<Rightarrow> ('m \<Rightarrow> string \<Rightarrow> table_rows) \<Rightarrow>
   (string \<Rightarrow> (string \<Rightarrow> table_rows) \<Rightarrow> 64 word \<Rightarrow> (string \<Rightarrow> string option) option) \<Rightarrow>
   ('b \<Rightarrow> index_store) \<Rightarrow> ('b, 'm, 'g) sync_loop \<Rightarrow> bool" where
  "system_inv R S rs tables view docs l \<longleftrightarrow>
     batch_wf (sy_queue (lp_state l)) \<and> full_tables S (tables (en_mysql (lp_engine l))) \<and>
     (\<exists>conns. en_sph (lp_engine l) = Some conns \<and> (\<forall>c\<in>set conns.
        store_tracked R S rs tables view (sy_queue (lp_state l)) (tables (en_mysql (lp_engine l))) (conn_docs docs c)))"

lemma row_turns:
  "SyncLoop R G C (map (\<lambda>c. (RowMsg c, now, bnow)) cs) l = (l', Inr True) \<Longrightarrow>
   lp_engine l' = lp_engine l \<and> sy_queue (lp_state l') =
     foldl AddRowChange (sy_queue (lp_state l))
       (map (\<lambda>c. c\<lparr>trc_EventID := sy_lastPositionEventID (lp_state l)\<rparr>) cs)"
proof (induction cs arbitrary: l)
  case (Cons c cs)
  let ?s = "lp_state l"
  let ?l = "l\<lparr>lp_state := ?s\<lparr>sy_queue := AddRowChange (sy_queue ?s) (c\<lparr>trc_EventID := sy_lastPositionEventID ?s\<rparr>)\<rparr>\<rparr>"
  have "sync_turn R G C (RowMsg c) now bnow l = (?l, Inr True)"
    by (simp add: sync_turn_def acceptMessage_def no_need_def)
  then have "SyncLoop R G C (map (\<lambda>c. (RowMsg c, now, bnow)) cs) ?l = (l', Inr True)" using Cons.prems by simp
  from Cons.IH[OF this] show ?case by simp
qed simp

lemma acceptMessage_queue:
  assumes "acceptMessage G t m msg s = Inr (s', need, sends)" and "\<forall>c. msg \<noteq> RowMsg c"
  shows "sy_queue s' = sy_queue s" and "need_flush need \<longleftrightarrow> flush_requested msg"
  using assms
  by (cases msg; auto simp: acceptMessage_def no_need_def result_simps processGTIDSubscribeRequest_def Let_def
      split: option.splits if_splits)+

lemma row_event_inv:
  assumes follow: "indexes_follow R S rs tables view" and inv: "system_inv R S rs tables view docs l"
    and e: "replay_event (be_go R) (tables (en_mysql (lp_engine l))) e = Some (tables m')" "event_fits S e"
      "\<forall>index ds. map_of (be_DataSource R) index = Some ds \<longrightarrow> readable S rs index e"
      "snd (ApplyRuleSet (be_go R) clock rs e) = (cs, None)"
    and run: "SyncLoop R G C (map (\<lambda>c. (RowMsg c, now, bnow)) cs) (l\<lparr>lp_engine := (lp_engine l)\<lparr>en_mysql := m'\<rparr>\<rparr>)
      = (l', Inr True)"
  shows "system_inv R S rs tables view docs l'"
proof -
  let ?q = "sy_queue (lp_state l)" and ?T = "tables (en_mysql (lp_engine l))"
  let ?new = "map (\<lambda>c. c\<lparr>trc_EventID := sy_lastPositionEventID (lp_state l)\<rparr>) cs"
  have l': "lp_engine l' = (lp_engine l)\<lparr>en_mysql := m'\<rparr>" "sy_queue (lp_state l') = foldl AddRowChange ?q ?new"
    using row_turns[OF run] by simp_all
  obtain conns where wf: "batch_wf ?q" and full: "full_tables S ?T" and conns: "en_sph (lp_engine l) = Some conns"
    and tracked: "\<forall>c\<in>set conns. store_tracked R S rs tables view ?q ?T (conn_docs docs c)"
    using inv by (auto simp: system_inv_def)
  have "full_tables S (tables m')"
    using replay_full[of "be_go R" ?T "[e]" "tables m'" S] e(1,2) full by simp
  moreover have "batch_wf (foldl AddRowChange ?q ?new)" using entry_changes_AddRows[OF wf] by blast
  moreover have "store_tracked R S rs tables view (foldl AddRowChange ?q ?new) (tables m') (conn_docs docs c)"
    if c: "c \<in> set conns" for c
    unfolding store_tracked_def
  proof (intro allI impI)
    fix index ds d
    assume ds: "map_of (be_DataSource R) index = Some ds"
    have idx: "plain_index S rs index" using follow ds by (auto simp: indexes_follow_def)
    have "doc_tracked (be_go R) S rs tables view index ?q ?T d (stored_doc index (sc_Parts ds) (conn_docs docs c) d)"
      using tracked c ds by (simp add: store_tracked_def)
    from doc_tracked_event[OF idx _ wf this e(4) e(1), of ?new] e(3) ds
    show "doc_tracked (be_go R) S rs tables view index (foldl AddRowChange ?q ?new) (tables m') d
        (stored_doc index (sc_Parts ds) (conn_docs docs c) d)" by simp
  qed
  ultimately show ?thesis using conns by (simp add: system_inv_def l')
qed

lemma other_turn_inv:
  assumes laws: "serves_view R tables view idField" "parts_apart (be_DataSource R)"
      "executes_documented (be_sphinx R) docs idField" "indexes_follow R S rs tables view"
      "saves_elsewhere (be_sphinx R) docs"
    and inv: "system_inv R S rs tables view docs l" and msg: "\<forall>c. msg \<noteq> RowMsg c"
    and present: "flush_requested msg \<longrightarrow> (\<forall>conns. en_sph (lp_engine l) = Some conns \<longrightarrow> (\<forall>c\<in>set conns.
         updates_present R view (tables (en_mysql (lp_engine l)))
           (fst (split_batch (doc_ready C now) (sy_queue (lp_state l)))) (conn_docs docs c)))"
    and run: "sync_turn R G C msg now bnow l = (l', Inr True)"
  shows "system_inv R S rs tables view docs l'"
proof -
  obtain s need sends where acc: "acceptMessage G (cf_FlushBulkTime C) (lp_master l) msg (lp_state l) = Inr (s, need, sends)"
    using run by (auto simp: sync_turn_def split: sum.splits)
  note queue = acceptMessage_queue[OF acc msg]
  let ?l = "l\<lparr>lp_state := s, lp_sends := lp_sends l @ sends\<rparr>" and ?q = "sy_queue (lp_state l)"
  have go: "\<not> need_stop need" using run acc by (auto simp: sync_turn_def Let_def split: if_splits)
  obtain conns where wf: "batch_wf ?q" and full: "full_tables S (tables (en_mysql (lp_engine l)))"
    and conns: "en_sph (lp_engine l) = Some conns"
    and tracked: "\<forall>c\<in>set conns. store_tracked R S rs tables view ?q (tables (en_mysql (lp_engine l))) (conn_docs docs c)"
    using inv by (auto simp: system_inv_def)
  show ?thesis
  proof (cases "flush_requested msg")
    case False
    then have "l' = ?l" using run acc go queue(2) by (simp add: sync_turn_def Let_def)
    then show ?thesis using inv queue(1) by (simp add: system_inv_def)
  next
    case True
    let ?f = "flush R G C now bnow ?l" and ?sr = "split_batch (doc_ready C now) ?q"
    have l': "l' = fst ?f" and ok: "snd ?f = Inr ()"
      using run acc go queue(2) True by (auto simp: sync_turn_def Let_def split: sum.splits fault.splits)
    have sr: "?sr = split_batch (doc_ready C now) (sy_queue (lp_state ?l))" using queue(1) by simp
    note flushed = flush_success[OF laws(3,5) ok sr, simplified]
    have "\<forall>c\<in>set conns. updates_present R view (tables (en_mysql (lp_engine l))) (fst ?sr) (conn_docs docs c)"
      using present True conns by blast
    from batch_tracked[OF laws(1-4) full wf flushed(1) conns tracked this]
    obtain c2 where c2: "tables (en_mysql (fst (doBatch R (fst ?sr) (lp_engine l)))) = tables (en_mysql (lp_engine l))"
      "en_sph (fst (doBatch R (fst ?sr) (lp_engine l))) = Some c2"
      "\<forall>c'\<in>set c2. store_tracked R S rs tables view (snd ?sr) (tables (en_mysql (lp_engine l))) (conn_docs docs c')" by blast
    obtain c3 where c3: "en_sph (lp_engine l') = Some c3" "list_all2 (\<lambda>c c'. conn_docs docs c' = conn_docs docs c) c2 c3"
      using flushed(2) c2(2) unfolding l' same_docs_def by (auto simp: option_rel_Some1)
    have "\<forall>c'\<in>set c3. store_tracked R S rs tables view (snd ?sr) (tables (en_mysql (lp_engine l))) (conn_docs docs c')"
      using list_all2_member[OF c3(2)] c2(3) by metis
    moreover have "batch_wf (snd ?sr)" using batch_queue.wf_split[OF wf, of "doc_ready C now"] by simp
    ultimately show ?thesis
      using full c3(1) flushed(3,4) c2(1) by (simp add: system_inv_def l')
  qed
qed

lemma system_reach_inv:
  assumes "system_reach R G C S rs tables view docs l0 l"
    and "serves_view R tables view idField" "parts_apart (be_DataSource R)"
      "executes_documented (be_sphinx R) docs idField" "indexes_follow R S rs tables view"
      "saves_elsewhere (be_sphinx R) docs"
    and "system_inv R S rs tables view docs l0"
  shows "system_inv R S rs tables view docs l"
  using assms(1)
proof (induction rule: system_reach.induct)
  case start
  show ?case by (rule assms(7))
next
  case (row_event l e m' clock cs now bnow l')
  from row_event_inv[OF assms(5) row_event.IH row_event.hyps(2-6)] show ?case .
next
  case (other_turn l msg now bnow l')
  from other_turn_inv[OF assms(2-6) other_turn.IH other_turn.hyps(2-4)] show ?case .
qed


lemma system_inv_start:
  assumes "full_tables S (tables (en_mysql e0))" and "en_sph e0 = Some conns0"
    and "\<forall>c\<in>set conns0. \<forall>index ds d. map_of (be_DataSource R) index = Some ds \<longrightarrow>
           stored_doc index (sc_Parts ds) (conn_docs docs c) d = view index (tables (en_mysql e0)) d"
  shows "system_inv R S rs tables view docs (initial_loop C m0 e0 t0)"
proof -
  let ?q = "NewBatchedChangeSet ''queue''"
  have "store_tracked R S rs tables view ?q (tables (en_mysql e0)) (conn_docs docs c)" if "c \<in> set conns0" for c
    unfolding store_tracked_def
  proof (intro allI impI)
    fix index ds d
    assume "map_of (be_DataSource R) index = Some ds"
    with assms(3) that have "stored_doc index (sc_Parts ds) (conn_docs docs c) d = view index (tables (en_mysql e0)) d" by blast
    moreover have "doc_tracked (be_go R) S rs tables view index ?q (tables (en_mysql e0)) d
        (view index (tables (en_mysql e0)) d)"
      using assms(1) by (rule doc_tracked_current) (simp add: entry_changes_def batch_doc_def NewBatchedChangeSet_def)
    ultimately show "doc_tracked (be_go R) S rs tables view index ?q (tables (en_mysql e0)) d
        (stored_doc index (sc_Parts ds) (conn_docs docs c) d)" by simp
  qed
  then show ?thesis using assms(1,2) by (simp add: system_inv_def initial_loop_def)
qed

lemma system_inv_settled:
  assumes "indexes_follow R S rs tables view" and "system_inv R S rs tables view docs l"
    and ds: "map_of (be_DataSource R) index = Some ds" and "batch_doc (sy_queue (lp_state l)) index d = None"
    and "en_sph (lp_engine l) = Some conns" and "c \<in> set conns"
  shows "stored_doc index (sc_Parts ds) (conn_docs docs c) d = view index (tables (en_mysql (lp_engine l))) d"
proof -
  have "plain_index S rs index" "determined (be_go R) S rs tables view index"
    using assms(1) ds by (auto simp: indexes_follow_def)
  moreover have "full_tables S (tables (en_mysql (lp_engine l)))"
    using assms(2) by (simp add: system_inv_def)
  moreover have "doc_tracked (be_go R) S rs tables view index (sy_queue (lp_state l)) (tables (en_mysql (lp_engine l))) d
      (stored_doc index (sc_Parts ds) (conn_docs docs c) d)"
    using assms(2,5,6) ds by (auto simp: system_inv_def store_tracked_def)
  moreover have "ChangedAttrs (be_go R) (entry_changes (sy_queue (lp_state l)) index d) = Inr {}"
    using assms(4) by (simp add: entry_changes_def ChangedAttrs_Nil)
  ultimately show ?thesis using doc_tracked_unchanged[where tables = tables] by blast
qed

subsection \<open>Samples\<close>

text \<open>
  One table with one row, of document 5, before and after its name changes; the server's state says which. The index
  has the name as an attribute.
\<close>

abbreviation sample_key :: PrimaryKey where
  "sample_key \<equiv> PrimaryKey 1 (GInt32 1 # replicate 15 GNil)"

definition sample_name :: "bool \<Rightarrow> string" where
  "sample_name m = (if m then ''y'' else ''x'')"

definition sample_tables :: "bool \<Rightarrow> string \<Rightarrow> table_rows" where
  "sample_tables m = (\<lambda>_ _. None)(''db.t'' := [sample_key \<mapsto> [GInt32 1, GInt32 5, GString (sample_name m)]])"

definition name_doc :: "string \<Rightarrow> string \<Rightarrow> string option" where
  "name_doc v = [''id'' \<mapsto> ''5'', ''field1'' \<mapsto> QuoteString v]"

definition sample_view ::
  "string \<Rightarrow> (string \<Rightarrow> table_rows) \<Rightarrow> 64 word \<Rightarrow> (string \<Rightarrow> string option) option" where
  "sample_view index T d =
     (case T ''db.t'' sample_key of
        None \<Rightarrow> None
      | Some row \<Rightarrow> (case row ! 2 of GString v \<Rightarrow> if d = 5 then Some (name_doc v) else None | _ \<Rightarrow> None))"

definition name_result :: "bool \<Rightarrow> mysql_result" where
  "name_result m = doc_result\<lparr>res_Fields := [''id'', ''field1''], res_FieldNames := [(''id'', 0), (''field1'', 1)],
     res_GetString := (\<lambda>_ _. (sample_name m, None))\<rparr>"

definition name_source :: SourceConfig where
  "name_source = sample_source\<lparr>sc_details := (sc_details sample_source)\<lparr>scd_attrFields := {''field1''},
     scd_fieldTypes := [(''id'', DocID), (''field1'', AttrString)]\<rparr>\<rparr>"

definition name_env :: "(index_store, bool) batch_env" where
  "name_env = \<lparr>be_sphinx = doc_backend_env, be_mysql = (\<lambda>_ m. (m, Inr (name_result m))),
     be_go = plain_env, be_fmt_v = (\<lambda>_. []), be_DataSource = [(''i'', name_source)]\<rparr>"

definition name_engine :: "(index_store, bool) engine" where
  "name_engine = \<lparr>en_stat = en_stat sample_engine,
     en_sph = Some [sample_conn (\<lambda>_. [5 \<mapsto> name_doc ''x''])], en_mysql = False\<rparr>"

definition name_config :: sync_config where
  "name_config = \<lparr>cf_FlushBulkTime = 1, cf_MinTimeAfterLastEvent = 10, cf_MaxTimeAfterFirstEvent = 100\<rparr>"

definition name_master :: "string masterState" where
  "name_master = (newMasterState True ''mysql'')\<lparr>ms_gtid := Some ''g0''\<rparr>"

definition name_start :: "(index_store, bool, string) sync_loop" where
  "name_start = initial_loop name_config name_master name_engine 0"

definition name_changes :: "TableRowChange list" where
  "name_changes = fst (snd (ApplyRuleSet plain_env (\<lambda>_ _. 0) [sample_rule] sample_update))"

definition name_queued :: "(index_store, bool, string) sync_loop" where
  "name_queued = fst (SyncLoop name_env text_gtid name_config (map (\<lambda>c. (RowMsg c, 0, 0)) name_changes)
     (name_start\<lparr>lp_engine := (lp_engine name_start)\<lparr>en_mysql := True\<rparr>\<rparr>))"

definition name_flushed :: "(index_store, bool, string) sync_loop" where
  "name_flushed = fst (sync_turn name_env text_gtid name_config FlushTick 1000 0 name_queued)"

lemma name_accepted: "snd (ApplyRuleSet plain_env (\<lambda>_ _. 0) [sample_rule] sample_update) = (name_changes, None)"
proof -
  have "snd (snd (ApplyRuleSet plain_env (\<lambda>_ _. 0) [sample_rule] sample_update)) = None" by code_simp
  then show ?thesis by (simp add: name_changes_def prod_eq_iff)
qed

lemma name_runs:
  "SyncLoop name_env text_gtid name_config (map (\<lambda>c. (RowMsg c, 0, 0)) name_changes)
     (name_start\<lparr>lp_engine := (lp_engine name_start)\<lparr>en_mysql := True\<rparr>\<rparr>) = (name_queued, Inr True)"
  "sync_turn name_env text_gtid name_config FlushTick 1000 0 name_queued = (name_flushed, Inr True)"
proof -
  have "snd (SyncLoop name_env text_gtid name_config (map (\<lambda>c. (RowMsg c, 0, 0)) name_changes)
     (name_start\<lparr>lp_engine := (lp_engine name_start)\<lparr>en_mysql := True\<rparr>\<rparr>)) = Inr True" by code_simp
  then show "SyncLoop name_env text_gtid name_config (map (\<lambda>c. (RowMsg c, 0, 0)) name_changes)
     (name_start\<lparr>lp_engine := (lp_engine name_start)\<lparr>en_mysql := True\<rparr>\<rparr>) = (name_queued, Inr True)"
    by (simp add: name_queued_def prod_eq_iff)
  have "snd (sync_turn name_env text_gtid name_config FlushTick 1000 0 name_queued) = Inr True" by code_simp
  then show "sync_turn name_env text_gtid name_config FlushTick 1000 0 name_queued = (name_flushed, Inr True)"
    by (simp add: name_flushed_def prod_eq_iff)
qed

lemma name_key: "newPrimaryKeyFromRow plain_env [0] [GInt32 1, GInt32 5, GString v] = Inr sample_key"
  by (simp add: newPrimaryKeyFromRow_def) code_simp

lemma name_replay: "replay_event plain_env (sample_tables False) sample_update = Some (sample_tables True)"
proof -
  have ops: "event_row_ops sample_update = [(Some [GInt32 1, GInt32 5, GString ''x''], Some [GInt32 1, GInt32 5, GString ''y''])]"
    "realPKColumns sample_update = [0]" "ev_Table sample_update = ''db.t''" by (code_simp, code_simp, code_simp)
  show ?thesis
    by (simp add: replay_event_def ops op_step_def name_key sample_tables_def sample_name_def fun_eq_iff)
qed

lemma name_serves: "serves_view name_env sample_tables sample_view ''id''"
proof -
  have named: "names_columns (name_result m)" "id_field name_source ''id''" "readable_source ''i'' name_source (name_result m)"
    for m by (cases m; code_simp)+
  have fetch: "fetchIndexData plain_env (\<lambda>_. []) (name_result m) name_source =
    Inr \<lparr>idx_fields = [''id'', ''field1''], idx_docs = [(5, [''5'', QuoteString (sample_name m)])]\<rparr>" for m
    by (cases m; code_simp)
  show ?thesis
    unfolding serves_view_def
    by (auto simp: name_env_def named fetch fetched_doc_def sample_view_def sample_tables_def name_doc_def
        split: if_splits) (simp add: name_result_def)
qed

lemma name_values:
  "attr_values plain_env sample_rule (sch_Columns sample_schema ''db.t'') (id_column sample_schema sample_rule) 5 ''field1''
     (sample_tables m ''db.t'') = {[GString (sample_name m)]}"
proof -
  let ?cols = "sch_Columns sample_schema ''db.t''" and ?row = "[GInt32 1, GInt32 5, GString (sample_name m)]"
  have tuple: "source_tuple sample_rule ?cols ''field1'' ?row = [GString (sample_name m)]"
    by (simp add: source_tuple_def mapped_attrs_def sample_rule_def sample_schema_def sample_event_def)
  have row: "row_ids plain_env (id_column sample_schema sample_rule) ?row = 5" by code_simp
  have rows: "ran (sample_tables m ''db.t'') = {?row}" by (simp add: sample_tables_def)
  show ?thesis unfolding attr_values_def rows using tuple row by auto
qed

lemma name_determined: "determined plain_env sample_schema [sample_rule] sample_tables sample_view ''i''"
proof -
  have rule: "rule_for [sample_rule] ''i'' ''db.t'' = Some sample_rule" by (simp add: rule_for_def sample_rule_def)
  have eq: "m = m'" if "same_values plain_env sample_schema [sample_rule] ''i'' 5 ''field1'' (sample_tables m) (sample_tables m')"
    for m m'
  proof -
    have "attr_values plain_env sample_rule (sch_Columns sample_schema ''db.t'') (id_column sample_schema sample_rule) 5
        ''field1'' (sample_tables m ''db.t'') =
      attr_values plain_env sample_rule (sch_Columns sample_schema ''db.t'') (id_column sample_schema sample_rule) 5
        ''field1'' (sample_tables m' ''db.t'')"
      using that rule unfolding same_values_def by blast
    then have "sample_name m = sample_name m'" unfolding name_values by simp
    then show ?thesis by (auto simp: sample_name_def split: if_splits)
  qed
  have seen: "sample_view ''i'' (sample_tables m) d = (if d = 5 then Some (name_doc (sample_name m)) else None)" for m d
    by (simp add: sample_view_def sample_tables_def)
  have other: "f = ''field1'' \<or> name_doc v f = name_doc w f" for f v w by (simp add: name_doc_def)
  show ?thesis
    unfolding determined_def seen
  proof (intro allI impI conjI)
    fix m m' d x y f
    assume asm: "(if d = 5 then Some (name_doc (sample_name m)) else None) = Some x \<and>
      (if d = 5 then Some (name_doc (sample_name m')) else None) = Some y \<and>
      same_values plain_env sample_schema [sample_rule] ''i'' d f (sample_tables m) (sample_tables m')"
    show "x f = y f"
    proof (cases "d = 5")
      case True
      have "x = name_doc (sample_name m)" "y = name_doc (sample_name m')" using asm True by simp_all
      moreover have "f = ''field1'' \<Longrightarrow> m = m'" by (rule eq) (use asm True in simp)
      ultimately show ?thesis using other[of f "sample_name m" "sample_name m'"] by blast
    qed (use asm in simp)
  qed simp
qed

lemma name_follow: "indexes_follow name_env sample_schema [sample_rule] sample_tables sample_view"
  using name_determined sample_plain_index by (auto simp: indexes_follow_def name_env_def split: if_splits)

lemma name_apart: "parts_apart (be_DataSource name_env)"
  by (auto simp: parts_apart_def name_env_def name_source_def sample_source_def split: if_splits)

lemma read_list_blank: "read_list (CHR '' '' # s) = ([[]], CHR '' '' # s)"
  by (subst read_list.simps) (simp add: Let_def)

lemma read_list_id:
  "read_list (CHR ''i'' # CHR ''d'' # CHR '','' # CHR '' '' # s) = ([''id'', []], CHR '' '' # s)"
  by (subst read_list.simps) (simp add: Let_def read_list_blank)

lemma name_saves: "saves_elsewhere doc_backend_env (\<lambda>b. b)"
proof -
  have "read_statement (sync_state_stmt p gtid flavor) = None" for p gtid flavor
    by (simp add: sync_state_stmt_def read_statement_def read_replace_def upto_char_def read_list_id bindO_def)
  then show ?thesis by (simp add: saves_elsewhere_def doc_backend_env_def exec_text_def)
qed

lemma name_present: "updates_present name_env sample_view T batch (\<lambda>_. [5 \<mapsto> x])"
  by (auto simp: updates_present_def name_env_def sample_view_def stored_doc_def
      split: if_splits option.splits gval.splits)

lemma name_reach_queued:
  "system_reach name_env text_gtid name_config sample_schema [sample_rule] sample_tables sample_view (\<lambda>b. b)
     name_start name_queued"
proof (rule system_reach.row_event[OF system_reach.start _ _ _ _ name_runs(1)])
  show "replay_event (be_go name_env) (sample_tables (en_mysql (lp_engine name_start))) sample_update = Some (sample_tables True)"
    using name_replay by (simp add: name_env_def name_start_def initial_loop_def name_engine_def)
  show "snd (ApplyRuleSet (be_go name_env) (\<lambda>_ _. 0) [sample_rule] sample_update) = (name_changes, None)"
    using name_accepted by (simp add: name_env_def)
  show "event_fits sample_schema sample_update" using sample_readable by (simp add: readable_def)
  show "\<forall>index ds. map_of (be_DataSource name_env) index = Some ds \<longrightarrow> readable sample_schema [sample_rule] index sample_update"
    using sample_readable by (simp add: name_env_def)
qed

lemma name_reach:
  "system_reach name_env text_gtid name_config sample_schema [sample_rule] sample_tables sample_view (\<lambda>b. b)
     name_start name_flushed"
proof (rule system_reach.other_turn[OF name_reach_queued _ _ name_runs(2)])
  show "flush_requested FlushTick \<longrightarrow> (\<forall>conns. en_sph (lp_engine name_queued) = Some conns \<longrightarrow> (\<forall>c\<in>set conns.
         updates_present name_env sample_view (sample_tables (en_mysql (lp_engine name_queued)))
           (fst (split_batch (doc_ready name_config 1000) (sy_queue (lp_state name_queued)))) (conn_backend c)))"
      using row_turns[OF name_runs(1)] name_present
      by (simp add: name_start_def initial_loop_def name_engine_def sample_conn_def)
qed simp

subsection \<open>The property\<close>

text \<open>
  C1. A document without queued changes is in every backend as the tables make it, after any run of the system from a
  start at which the backends agree with the tables. The run mixes row events, positions, flushes that retry and
  reconnect, saves of the position, and any number of configured indexes and backends.
\<close>

theorem index_follows_mysql:
  assumes "system_reach R G C S rs tables view docs (initial_loop C m0 e0 t0) l"
    and "serves_view R tables view idField" and "parts_apart (be_DataSource R)"
    and "executes_documented (be_sphinx R) docs idField" and "saves_elsewhere (be_sphinx R) docs"
    and "indexes_follow R S rs tables view"
    and "full_tables S (tables (en_mysql e0))" and "en_sph e0 = Some conns0"
    and "\<forall>c\<in>set conns0. \<forall>index ds d. map_of (be_DataSource R) index = Some ds \<longrightarrow>
           stored_doc index (sc_Parts ds) (conn_docs docs c) d = view index (tables (en_mysql e0)) d"
    and "map_of (be_DataSource R) index = Some ds" and "batch_doc (sy_queue (lp_state l)) index d = None"
    and "en_sph (lp_engine l) = Some conns" and "c \<in> set conns"
  shows "stored_doc index (sc_Parts ds) (conn_docs docs c) d = view index (tables (en_mysql (lp_engine l))) d"
proof -
  have "system_inv R S rs tables view docs (initial_loop C m0 e0 t0)" using assms(7-9) by (rule system_inv_start)
  from system_reach_inv[OF assms(1-4,6,5) this] have inv: "system_inv R S rs tables view docs l" .
  then show ?thesis by (rule system_inv_settled[OF assms(6) _ assms(10-13)])
qed

lemma name_initial:
  "\<forall>c\<in>set [sample_conn (\<lambda>_. [5 \<mapsto> name_doc ''x''])]. \<forall>index ds d. map_of (be_DataSource name_env) index = Some ds \<longrightarrow>
     stored_doc index (sc_Parts ds) (conn_backend c) d = sample_view index (sample_tables (en_mysql name_engine)) d"
  by (simp add: stored_doc_def sample_conn_def sample_view_def sample_tables_def name_engine_def sample_name_def)

lemma name_full: "full_tables sample_schema (sample_tables m)"
  by (simp add: sample_tables_def full_tables_def sample_schema_def sample_event_def)

lemma name_unqueued: "batch_doc (sy_queue (lp_state name_flushed)) ''i'' 5 = None"
  by code_simp

lemma name_row: "en_mysql (lp_engine name_flushed) = True"
  by code_simp

lemma name_connected: "\<exists>c. en_sph (lp_engine name_flushed) = Some [c]"
proof -
  have "map_option length (en_sph (lp_engine name_flushed)) = Some 1" by code_simp
  then show ?thesis by (auto simp: length_Suc_conv)
qed

theorem index_follows_mysql_witness:
  "stored_doc ''i'' 2 (conn_backend (hd (the (en_sph (lp_engine name_flushed))))) 5 = Some (name_doc ''y'')"
proof -
  obtain c where c: "en_sph (lp_engine name_flushed) = Some [c]" using name_connected by blast
  have ds: "map_of (be_DataSource name_env) ''i'' = Some name_source" by (simp add: name_env_def)
  have "stored_doc ''i'' (sc_Parts name_source) (conn_backend c) 5 =
      sample_view ''i'' (sample_tables (en_mysql (lp_engine name_flushed))) 5"
    by (rule index_follows_mysql[OF name_reach[unfolded name_start_def] name_serves name_apart _ _ name_follow name_full _ name_initial ds
        name_unqueued c])
      (use doc_backend_documented name_saves in \<open>simp_all add: name_env_def name_engine_def\<close>)
  then show ?thesis using c by (simp add: name_row sample_view_def sample_tables_def sample_name_def name_source_def sample_source_def)
qed

end
