(* ===== verification/Stale_Index.thy ===== *)
theory Stale_Index
  imports Consistent_Index
begin

text \<open>
  Why the loop has to be up to date with the server when it flushes. A batch says which documents to fetch, and the fetch
  reads the server as it is by then, possibly ahead of the events that the loop has seen.
\<close>

subsection \<open>Batches in which nothing changes\<close>

lemma idle_documents:
  "\<forall>e\<in>set docs. ChangedAttrs E (dc_Changes (snd e)) = Inr {} \<Longrightarrow>
   \<exists>A. foldR (add_doc_attrs E) s docs = Inr A \<and> bca_ChangedDocIDs A = bca_ChangedDocIDs s"
proof (induction docs arbitrary: s)
  case (Cons a docs)
  let ?s = "s\<lparr>bca_Attrs := aput (fst a) {} (bca_Attrs s), bca_UnchangedDocIDs := bca_UnchangedDocIDs s @ [fst a]\<rparr>"
  have "add_doc_attrs E s a = Inr ?s" using Cons.prems by (simp add: add_doc_attrs_def result_simps Let_def)
  moreover obtain A where "foldR (add_doc_attrs E) ?s docs = Inr A" "bca_ChangedDocIDs A = bca_ChangedDocIDs ?s"
    using Cons.IH[of ?s] Cons.prems by auto
  ultimately show ?case by (simp add: result_simps)
qed simp

lemma idle_change_set:
  assumes "\<forall>e\<in>set (ics_ChangedDocs ics). ChangedAttrs (be_go R) (dc_Changes (snd e)) = Inr {}"
    and "map_of (be_DataSource R) (ics_Index ics) \<noteq> None"
  shows "doIndexChangeSet R ics e = (e, Inr ())"
proof -
  obtain A where "ChangedAttrsByDocID (be_go R) ics = Inr A" "bca_ChangedDocIDs A = []"
    using idle_documents[OF assms(1)] by (fastforce simp: ChangedAttrsByDocID_def)
  then show ?thesis using assms(2) by (auto simp: doIndexChangeSet_def bindS_def returnS_def)
qed

lemma idle_batch:
  assumes wf: "batch_wf q" and idle: "\<forall>index d. ChangedAttrs (be_go R) (entry_changes q index d) = Inr {}"
    and sources: "\<forall>ics\<in>snd ` set (bcs_Changes q). map_of (be_DataSource R) (ics_Index ics) \<noteq> None"
  shows "doBatch R q e = (e, Inr ())"
proof -
  have step: "doIndexChangeSet R ics e = (e, Inr ())" if ics: "ics \<in> snd ` set (bcs_Changes q)" for ics e
  proof (rule idle_change_set)
    show "\<forall>x\<in>set (ics_ChangedDocs ics). ChangedAttrs (be_go R) (dc_Changes (snd x)) = Inr {}"
    proof
      fix x assume x: "x \<in> set (ics_ChangedDocs ics)"
      have "awf (ics_ChangedDocs ics)" using batch_wf_sets(1)[OF wf] ics by auto
      then have "map_of (ics_ChangedDocs ics) (fst x) = Some (snd x)" using x awf_lookup_iff[of "ics_ChangedDocs ics"] by (metis prod.collapse)
      then have "batch_doc q (ics_Index ics) (fst x) = Some (snd x)" using ics batch_doc_member[OF wf] by blast
      then show "ChangedAttrs (be_go R) (dc_Changes (snd x)) = Inr {}"
        using idle[rule_format, of "ics_Index ics" "fst x"] by (simp add: entry_changes_def)
    qed
  qed (use sources ics in blast)
  have "eachS (doIndexChangeSet R) (map snd xs) e = (e, Inr ())" if "set xs \<subseteq> set (bcs_Changes q)" for xs
    using that by (induction xs) (auto simp: returnS_def bindS_def step)
  then show ?thesis by (simp add: doBatch_def returnS_def)
qed

text \<open>The indexes of a queue are those of its row changes.\<close>

lemma queued_indexes:
  "set (akeys (bcs_Changes (foldl AddRowChange q cs))) = set (akeys (bcs_Changes q)) \<union> trc_Index ` set cs"
  by (induction cs arbitrary: q)
    (auto simp: AddRowChange_def row_document_def AddDocumentChange_def Let_def aput_keys split: option.splits)

lemma queued_idle:
  assumes "\<And>index d. ChangedAttrs (be_go R) (doc_changes index d cs) = Inr {}"
    and "\<forall>c\<in>set cs. map_of (be_DataSource R) (trc_Index c) \<noteq> None"
  shows "doBatch R (foldl AddRowChange (NewBatchedChangeSet label) cs) e = (e, Inr ())"
proof -
  let ?q = "NewBatchedChangeSet label"
  have new: "entry_changes ?q index d = []" for index d
    by (simp add: entry_changes_def batch_doc_def NewBatchedChangeSet_def)
  have q: "batch_wf (foldl AddRowChange ?q cs)"
    "entry_changes (foldl AddRowChange ?q cs) index d = doc_changes index d cs" for index d
    using entry_changes_AddRows[OF batch_wf_New, of label cs index d] new by simp_all
  have "ics_Index (snd x) \<in> trc_Index ` set cs" if "x \<in> set (bcs_Changes (foldl AddRowChange ?q cs))" for x
  proof -
    have "fst x \<in> set (akeys (bcs_Changes (foldl AddRowChange ?q cs)))" using that by (simp add: akeys_def)
    then have "fst x \<in> trc_Index ` set cs" unfolding queued_indexes by (simp add: akeys_def NewBatchedChangeSet_def)
    then show ?thesis using that batch_wf_sets(1)[OF q(1)] by simp
  qed
  then have "\<forall>ics\<in>snd ` set (bcs_Changes (foldl AddRowChange ?q cs)). map_of (be_DataSource R) (ics_Index ics) \<noteq> None"
    using assms(2) by fastforce
  then show ?thesis using assms(1) by (intro idle_batch q(1)) (simp_all add: q(2))
qed

lemma undone_events:
  assumes "plain_index S rs index" and "\<forall>e\<in>set es. readable S rs index e"
    and "send_events E clock rs es = Some cs" and "\<forall>c\<in>set cs. keyed c" and "replay_events E T es = Some T"
  shows "ChangedAttrs E (doc_changes index d cs) = Inr {}"
  using events_history[OF assms(1-3,5), of d] assms(4) by (intro ChangedAttrs_idle) auto

text \<open>A batch that succeeds leaves what it fetched of the documents that it reports.\<close>

lemma batch_stores:
  assumes laws: "serves_view R tables view idField" "parts_apart (be_DataSource R)"
      "executes_documented (be_sphinx R) docs idField"
    and wf: "batch_wf q" and ok: "doBatch R q e = (e', Inr ())" and conns: "en_sph e = Some conns"
    and fit: "\<forall>c\<in>set conns. \<forall>ics\<in>snd ` set (bcs_Changes q). updates_fit R view (tables (en_mysql e)) ics (conn_docs docs c)"
    and ds: "map_of (be_DataSource R) index = Some ds"
    and changed: "ChangedAttrs (be_go R) (entry_changes q index d) \<noteq> Inr {}"
  shows "\<exists>conns'. en_sph e' = Some conns' \<and> length conns' = length conns \<and> (\<forall>c\<in>set conns'.
     stored_doc index (sc_Parts ds) (conn_docs docs c) d = view index (tables (en_mysql e)) d)"
proof -
  let ?T = "tables (en_mysql e)"
  have awf: "\<forall>ics\<in>snd ` set (bcs_Changes q). awf (ics_ChangedDocs ics)" using batch_wf_sets(1)[OF wf] by auto
  have "snd (doBatch R q e) = Inr ()" using ok by simp
  from batch_refreshed[OF laws this awf batch_sets_distinct[OF wf] conns fit] ok
  obtain conns' where conns': "en_sph e' = Some conns'"
    "list_all2 (\<lambda>c c'. all_refreshed R view ?T (map snd (bcs_Changes q)) (conn_docs docs c) (conn_docs docs c'))
       conns conns'" by auto
  obtain dc where "batch_doc q index d = Some dc" "ChangedAttrs (be_go R) (dc_Changes dc) \<noteq> Inr {}"
    using changed by (cases "batch_doc q index d") (auto simp: entry_changes_def ChangedAttrs_Nil)
  then obtain ics where ics: "ics \<in> snd ` set (bcs_Changes q)" "ics_Index ics = index"
      "map_of (ics_ChangedDocs ics) d = Some dc" and dc: "ChangedAttrs (be_go R) (dc_Changes dc) \<noteq> Inr {}"
    using batch_doc_member[OF wf] by blast
  have "snd (eachS (doIndexChangeSet R) (map snd (bcs_Changes q)) e) = Inr ()"
    using ok by (cases "bcs_Changes q = []") (simp_all add: doBatch_def)
  from batch_detects[OF this] ics(1) obtain A where A: "ChangedAttrsByDocID (be_go R) ics = Inr A" by auto
  have awf': "awf (ics_ChangedDocs ics)" using awf ics(1) by blast
  have "d \<in> set (bca_ChangedDocIDs A)" using attrs_of_doc(1)[OF A awf' ics(3)] dc by simp
  then have "stored_doc index (sc_Parts ds) (conn_docs docs c') d = view index ?T d" if "c' \<in> set conns'" for c'
    using list_all2_member[OF conns'(2) that] ics ds A by (fastforce simp: all_refreshed_def refreshed_def)
  then show ?thesis using conns' list_all2_lengthD by metis
qed

subsection \<open>Fetching ahead\<close>

text \<open>
  C3. A document that was fetched ahead of the events stays wrong. The server is at \<open>tables (en_mysql e)\<close> when a batch that
  reports the document is flushed; the events up to then describe \<open>tables m\<close>. When the next events lead from \<open>tables m\<close>
  through that state and back, change detection nets them out, the batch does nothing, and every backend keeps what was
  fetched, whatever the tables now hold.
\<close>

theorem fetch_ahead_goes_stale:
  assumes "serves_view R tables view idField" and "parts_apart (be_DataSource R)"
    and "executes_documented (be_sphinx R) docs idField"
    and "batch_wf q" and "doBatch R q e = (e', Inr ())" and "en_sph e = Some conns"
    and "\<forall>c\<in>set conns. \<forall>ics\<in>snd ` set (bcs_Changes q). updates_fit R view (tables (en_mysql e)) ics (conn_docs docs c)"
    and "map_of (be_DataSource R) index = Some ds" and "ChangedAttrs (be_go R) (entry_changes q index d) \<noteq> Inr {}"
    and "\<forall>index. map_of (be_DataSource R) index \<noteq> None \<longrightarrow> plain_index S rs index \<and> (\<forall>ev\<in>set es. readable S rs index ev)"
    and "send_events (be_go R) clock rs es = Some cs"
    and "\<forall>c\<in>set cs. keyed c \<and> map_of (be_DataSource R) (trc_Index c) \<noteq> None"
    and "replay_events (be_go R) (tables m) es = Some (tables m)"
  shows "doBatch R (foldl AddRowChange (NewBatchedChangeSet label) cs) (e'\<lparr>en_mysql := m\<rparr>) = (e'\<lparr>en_mysql := m\<rparr>, Inr ()) \<and>
     (\<exists>conns'. en_sph e' = Some conns' \<and> length conns' = length conns \<and> (\<forall>c\<in>set conns'.
        stored_doc index (sc_Parts ds) (conn_docs docs c) d = view index (tables (en_mysql e)) d))"
proof
  have "ChangedAttrs (be_go R) (doc_changes i k cs) = Inr {}" for i k
  proof (cases "map_of (be_DataSource R) i")
    case None
    then have "doc_changes i k cs = []" using assms(12) by (auto simp: filter_empty_conv)
    then show ?thesis by (simp add: ChangedAttrs_Nil)
  next
    case (Some x)
    then show ?thesis using undone_events[OF _ _ assms(11) _ assms(13)] assms(10,12) by blast
  qed
  then show "doBatch R (foldl AddRowChange (NewBatchedChangeSet label) cs) (e'\<lparr>en_mysql := m\<rparr>) =
      (e'\<lparr>en_mysql := m\<rparr>, Inr ())"
    using assms(12) by (intro queued_idle) auto
next
  show "\<exists>conns'. en_sph e' = Some conns' \<and> length conns' = length conns \<and> (\<forall>c\<in>set conns'.
      stored_doc index (sc_Parts ds) (conn_docs docs c) d = view index (tables (en_mysql e)) d)"
    using batch_stores[OF assms(1-3) assms(4) _ assms(6,7,8,9)] assms(5) by simp
qed

text \<open>
  The name changes from y to x, then twice more: to y and back. The first change is flushed when the server has the second.
\<close>

abbreviation reverse_update :: rows_event where
  "reverse_update \<equiv> sample_update\<lparr>ev_Rows := [[GInt32 1, GInt32 5, GString ''y''], [GInt32 1, GInt32 5, GString ''x'']]\<rparr>"

definition back_changes :: "TableRowChange list" where
  "back_changes = fst (snd (ApplyRuleSet plain_env (\<lambda>_ _. 0) [sample_rule] reverse_update))"

definition ahead_queue :: BatchedChangeSet where
  "ahead_queue = foldl AddRowChange (NewBatchedChangeSet ''staged'') back_changes"

abbreviation ahead_conn :: "index_store SphConn" where
  "ahead_conn \<equiv> sample_conn (\<lambda>_. [5 \<mapsto> name_doc ''y''])"

definition ahead_engine :: "(index_store, bool) engine" where
  "ahead_engine = name_engine\<lparr>en_sph := Some [ahead_conn], en_mysql := True\<rparr>"

definition stale_engine :: "(index_store, bool) engine" where
  "stale_engine = fst (doBatch name_env ahead_queue ahead_engine)"

definition round_trip :: "TableRowChange list" where
  "round_trip = the (send_events plain_env (\<lambda>_ _ _. 0) [sample_rule] [sample_update, reverse_update])"

lemma ahead_flushed: "doBatch name_env ahead_queue ahead_engine = (stale_engine, Inr ())"
proof -
  have "snd (doBatch name_env ahead_queue ahead_engine) = Inr ()" by code_simp
  then show ?thesis by (simp add: stale_engine_def prod_eq_iff)
qed

lemma round_trip_sent:
  "send_events plain_env (\<lambda>_ _ _. 0) [sample_rule] [sample_update, reverse_update] = Some round_trip"
proof -
  have "send_events plain_env (\<lambda>_ _ _. 0) [sample_rule] [sample_update, reverse_update] \<noteq> None" by code_simp
  then show ?thesis by (simp add: round_trip_def)
qed

lemma round_trip_keyed: "\<forall>c\<in>set round_trip. keyed c \<and> map_of (be_DataSource name_env) (trc_Index c) \<noteq> None"
  by code_simp

lemma ahead_reported: "ChangedAttrs plain_env (entry_changes ahead_queue ''i'' 5) = Inr {''field1''}"
  by code_simp

lemma ahead_back: "replay_events plain_env (sample_tables False) [sample_update, reverse_update] = Some (sample_tables False)"
proof -
  have ops: "event_row_ops reverse_update = [(Some [GInt32 1, GInt32 5, GString ''y''], Some [GInt32 1, GInt32 5, GString ''x''])]"
    "realPKColumns reverse_update = [0]" "ev_Table reverse_update = ''db.t''" by (code_simp, code_simp, code_simp)
  have "replay_event plain_env (sample_tables True) reverse_update = Some (sample_tables False)"
    by (simp add: replay_event_def ops op_step_def name_key sample_tables_def sample_name_def fun_eq_iff)
  with name_replay show ?thesis by simp
qed

lemma readable_same_rows: "readable S rs index e \<Longrightarrow> set us = set (ev_Rows e) \<Longrightarrow> readable S rs index (e\<lparr>ev_Rows := us\<rparr>)"
  by (simp add: readable_def event_fits_def)

lemma ahead_readable:
  "\<forall>index. map_of (be_DataSource name_env) index \<noteq> None \<longrightarrow> plain_index sample_schema [sample_rule] index \<and>
     (\<forall>ev\<in>set [sample_update, reverse_update]. readable sample_schema [sample_rule] index ev)"
proof -
  have "readable sample_schema [sample_rule] ''i'' reverse_update"
    by (rule readable_same_rows[OF sample_readable]) (auto simp: sample_update_def)
  then show ?thesis using sample_plain_index sample_readable by (simp add: name_env_def)
qed

lemma ahead_fits:
  "\<forall>c\<in>set [ahead_conn]. \<forall>ics\<in>I.
     updates_fit name_env sample_view (sample_tables (en_mysql ahead_engine)) ics (conn_backend c)"
  by (auto simp: updates_fit_def name_env_def sample_view_def sample_tables_def sample_name_def stored_doc_def
      ahead_engine_def sample_conn_def split: if_splits)

theorem fetch_ahead_goes_stale_witness:
  "doBatch name_env (foldl AddRowChange (NewBatchedChangeSet ''staged'') round_trip) (stale_engine\<lparr>en_mysql := False\<rparr>)
     = (stale_engine\<lparr>en_mysql := False\<rparr>, Inr ()) \<and>
   (\<exists>c. en_sph stale_engine = Some [c] \<and> stored_doc ''i'' 2 (conn_backend c) 5 = Some (name_doc ''y'')) \<and>
   sample_view ''i'' (sample_tables False) 5 = Some (name_doc ''x'') \<and> name_doc ''x'' \<noteq> name_doc ''y''"
proof -
  have wf: "batch_wf ahead_queue" using entry_changes_AddRows[OF batch_wf_New] by (simp add: ahead_queue_def)
  have conns: "en_sph ahead_engine = Some [ahead_conn]" "en_mysql ahead_engine = True"
    by (simp_all add: ahead_engine_def)
  have ds: "map_of (be_DataSource name_env) ''i'' = Some name_source" by (simp add: name_env_def)
  have env: "be_go name_env = plain_env" "be_sphinx name_env = doc_backend_env" by (simp_all add: name_env_def)
  have changed: "ChangedAttrs (be_go name_env) (entry_changes ahead_queue ''i'' 5) \<noteq> Inr {}"
    using ahead_reported by (simp add: env)
  note stale = fetch_ahead_goes_stale[OF name_serves name_apart doc_backend_documented[folded env] wf ahead_flushed
      conns(1) ahead_fits ds changed ahead_readable round_trip_sent[folded env] round_trip_keyed ahead_back[folded env]]
  have "name_doc ''x'' \<noteq> name_doc ''y''"
  proof
    assume "name_doc ''x'' = name_doc ''y''"
    then have "name_doc ''x'' ''field1'' = name_doc ''y'' ''field1''" by simp
    then show False by (simp add: name_doc_def QuoteString_def)
  qed
  with stale[of "''staged''"] show ?thesis
    by (auto simp: conns length_Suc_conv sample_view_def sample_tables_def sample_name_def name_source_def sample_source_def)
qed

end
