(* ===== verification/Batch_Success.thy ===== *)
theory Batch_Success
  imports Batch_Store
begin

text \<open>
  When a batch succeeds: if the MySQL server answers the queries of the indexes and the backends answer the statements that they
  can execute, no call of a batch fails, whatever the size of the batch.
\<close>

subsection \<open>Servers that answer\<close>

text \<open>A backend answers every statement that it can execute.\<close>

definition answers_statements :: "'b sph_env \<Rightarrow> ('b \<Rightarrow> index_store) \<Rightarrow> string \<Rightarrow> bool" where
  "answers_statements S docs idField \<longleftrightarrow>
     (\<forall>stmt b. exec_text idField stmt (docs b) \<noteq> None \<longrightarrow> (\<exists>r. snd (se_execute S stmt b) = Inr r))"

text \<open>The MySQL server answers the query of an index, for any ids, with rows that the field formats accept.\<close>

definition answers_queries :: "('b, 'm) batch_env \<Rightarrow> bool" where
  "answers_queries R \<longleftrightarrow>
     (\<forall>index ds ids m. map_of (be_DataSource R) index = Some ds \<and> ids \<noteq> [] \<longrightarrow>
        (\<exists>query m' result data. buildSelectQuery (scd_queryTpl (sc_details ds)) ids = Inr query \<and>
           be_mysql R query m = (m', Inr result) \<and> fetchIndexData (be_go R) (be_fmt_v R) result ds = Inr data))"

lemma execute_answered:
  assumes "executes_documented S docs idField" and "answers_statements S docs idField"
    and "exec_text idField stmt (conn_docs docs c) = Some st'"
  shows "\<exists>r. snd (execute S stmt c) = Inr r" and "conn_docs docs (fst (execute S stmt c)) = st'"
proof -
  obtain r where "snd (se_execute S stmt (conn_backend c)) = Inr r"
    using assms(2,3) by (auto simp: answers_statements_def)
  then show ok: "\<exists>r. snd (execute S stmt c) = Inr r" by (simp add: execute_def Let_def)
  then show "conn_docs docs (fst (execute S stmt c)) = st'" using execute_docs[OF assms(1,3)] by blast
qed

subsection \<open>Calls that complete\<close>

text \<open>There are backends, and the statements can be executed on every one of them, one after the other.\<close>

definition executable :: "('b \<Rightarrow> index_store) \<Rightarrow> string \<Rightarrow> string list \<Rightarrow> 'b SphConn list \<Rightarrow> bool" where
  "executable docs idField stmts conns \<longleftrightarrow>
     conns \<noteq> [] \<and> (\<forall>c\<in>set conns. exec_texts idField stmts (conn_docs docs c) \<noteq> None)"

definition completes ::
  "('b, 'm) batch_env \<Rightarrow> ('b \<Rightarrow> index_store) \<Rightarrow> string \<Rightarrow> string list \<Rightarrow> (('b, 'm) engine, unit) call \<Rightarrow> bool" where
  "completes R docs idField stmts m \<longleftrightarrow>
     (\<forall>e conns. executes_documented (be_sphinx R) docs idField \<and> answers_statements (be_sphinx R) docs idField \<and>
        en_sph e = Some conns \<and> executable docs idField stmts conns \<longrightarrow>
        snd (m e) = Inr () \<and>
        (\<exists>conns'. en_sph (fst (m e)) = Some conns' \<and> backends_made docs idField stmts conns conns'))"

lemma completesI:
  assumes "\<And>e conns. executes_documented (be_sphinx R) docs idField \<Longrightarrow>
     answers_statements (be_sphinx R) docs idField \<Longrightarrow> en_sph e = Some conns \<Longrightarrow> executable docs idField stmts conns \<Longrightarrow>
     snd (m e) = Inr () \<and>
     (\<exists>conns'. en_sph (fst (m e)) = Some conns' \<and> backends_made docs idField stmts conns conns')"
  shows "completes R docs idField stmts m"
  using assms unfolding completes_def by blast

lemma completesE:
  assumes "completes R docs idField stmts m" and "executes_documented (be_sphinx R) docs idField"
    and "answers_statements (be_sphinx R) docs idField" and "en_sph e = Some conns"
    and "executable docs idField stmts conns"
  obtains conns' where "snd (m e) = Inr ()" and "en_sph (fst (m e)) = Some conns'"
    and "backends_made docs idField stmts conns conns'"
  using assms unfolding completes_def by blast

lemma executable_append:
  assumes "executable docs idField (xs @ ys) conns" and "backends_made docs idField xs conns conns'"
  shows "executable docs idField xs conns" and "executable docs idField ys conns'"
proof -
  show xs: "executable docs idField xs conns"
    using assms(1) by (auto simp: executable_def exec_texts_append bindO_def split: option.splits)
  show "executable docs idField ys conns'"
    unfolding executable_def
  proof (intro conjI ballI)
    show "conns' \<noteq> []" using assms by (auto simp: executable_def backends_made_def)
    fix c' assume c': "c' \<in> set conns'"
    obtain c where c: "c \<in> set conns"
      "\<forall>st'. exec_texts idField xs (conn_docs docs c) = Some st' \<longrightarrow> conn_docs docs c' = st'"
      using list_all2_member[OF assms(2)[unfolded backends_made_def] c'] by blast
    obtain st' where "exec_texts idField xs (conn_docs docs c) = Some st'" using xs c(1) by (auto simp: executable_def)
    moreover have "exec_texts idField (xs @ ys) (conn_docs docs c) \<noteq> None"
      using assms(1) c(1) by (simp add: executable_def)
    ultimately show "exec_texts idField ys (conn_docs docs c') \<noteq> None"
      using c(2) by (simp add: exec_texts_append bindO_def)
  qed
qed

lemma completes_bind:
  fixes R :: "('b, 'm) batch_env"
  assumes "completes R docs idField xs m" and "completes R docs idField ys m'"
  shows "completes R docs idField (xs @ ys) (bindS m (\<lambda>_. m'))"
proof (rule completesI)
  fix e :: "('b, 'm) engine" and conns
  assume laws: "executes_documented (be_sphinx R) docs idField" "answers_statements (be_sphinx R) docs idField"
    and e: "en_sph e = Some conns" and exec: "executable docs idField (xs @ ys) conns"
  have "executable docs idField xs conns"
    using exec by (auto simp: executable_def exec_texts_append bindO_def split: option.splits)
  then obtain c2 where m: "snd (m e) = Inr ()" "en_sph (fst (m e)) = Some c2" "backends_made docs idField xs conns c2"
    using completesE[OF assms(1) laws e] by blast
  obtain c3 where m': "snd (m' (fst (m e))) = Inr ()" "en_sph (fst (m' (fst (m e)))) = Some c3"
    "backends_made docs idField ys c2 c3"
    using completesE[OF assms(2) laws m(2) executable_append(2)[OF exec m(3)]] by blast
  show "snd (bindS m (\<lambda>_. m') e) = Inr () \<and>
      (\<exists>conns'. en_sph (fst (bindS m (\<lambda>_. m') e)) = Some conns' \<and> backends_made docs idField (xs @ ys) conns conns')"
    using m m' backends_made_append[OF m(3) m'(3)] by (auto simp: bindS_Inr)
qed

lemma count_results_ok:
  "\<forall>r\<in>set rs. \<exists>x. r = Inr x \<Longrightarrow> snd (count_results S i cs rs n) = Inr ()"
  by (induction S i cs rs n rule: count_results.induct) auto

lemma completes_run_query:
  fixes R :: "('b, 'm) batch_env"
  shows "completes R docs idField [stmt] (run_query R get upd stmt)"
proof (rule completesI)
  fix e :: "('b, 'm) engine" and conns
  assume laws: "executes_documented (be_sphinx R) docs idField" "answers_statements (be_sphinx R) docs idField"
    and e: "en_sph e = Some conns" and exec: "executable docs idField [stmt] conns"
  have "\<exists>r. snd (execute (be_sphinx R) stmt c) = Inr r" if "c \<in> set conns" for c
    using exec that execute_answered(1)[OF laws] by (auto simp: executable_def bindO_def split: option.splits)
  then have "snd (run_query R get upd stmt e) = Inr ()"
    using e
    by (auto simp: run_query_def SphinxService_Query_def ExecuteInParallel_def request_all_def Let_def
        intro!: count_results_ok)
  with makesE[OF makes_run_query laws(1) e this] show "snd (run_query R get upd stmt e) = Inr () \<and>
      (\<exists>conns'. en_sph (fst (run_query R get upd stmt e)) = Some conns' \<and>
         backends_made docs idField [stmt] conns conns')" by blast
qed

lemma exec_text_empty: "exec_text idField [] st = None"
  by (simp add: exec_text_def read_statement_def bindO_def)

interpretation completing: statement_calls R "completes R docs idField"
  for R :: "('b, 'm) batch_env" and docs :: "'b \<Rightarrow> index_store" and idField
proof unfold_locales
  show "completes R docs idField [] (returnS (Inr ()))"
    by (rule completesI) (simp add: returnS_def backends_made_Nil)
  show "completes R docs idField [] (add_stat f)" for f
    by (rule completesI) (simp add: add_stat_def backends_made_Nil)
  show "completes R docs idField [[]] (returnS (Inl e))" for e
  proof (rule completesI)
    fix e' :: "('b, 'm) engine" and conns
    assume "executable docs idField [[]] conns"
    then have False by (cases conns) (simp_all add: executable_def bindO_def exec_text_empty, auto)
    then show "snd (returnS (Inl e) e') = Inr () \<and> (\<exists>conns'. en_sph (fst (returnS (Inl e) e')) = Some conns' \<and>
        backends_made docs idField [[]] conns conns')" ..
  qed
qed (intro completes_bind completes_run_query; assumption)+

subsection \<open>Batches that succeed\<close>

lemma index_succeeds:
  assumes "map_of (be_DataSource R) (ics_Index ics) = Some ds"
    and "ChangedAttrsByDocID (be_go R) ics = Inr A" and "bca_ChangedDocIDs A \<noteq> []"
    and "buildSelectQuery (scd_queryTpl (sc_details ds)) (bca_ChangedDocIDs A) = Inr query"
    and "be_mysql R query (en_mysql e) = (my, Inr result)"
    and "fetchIndexData (be_go R) (be_fmt_v R) result ds = Inr data"
    and "awf (ics_ChangedDocs ics)" and "sc_Parts ds \<noteq> 0"
    and "names_columns result" and "id_field ds idField" and "idField \<in> set (res_Fields result)"
    and "readable_source (ics_Index ics) ds result"
    and "executes_documented (be_sphinx R) docs idField" and "answers_statements (be_sphinx R) docs idField"
    and "en_sph e = Some conns" and "conns \<noteq> []"
    and "\<forall>c\<in>set conns. stored_agrees (ics_Index ics) ds A data (conn_docs docs c)"
  shows "snd (doIndexChangeSet R ics e) = Inr ()"
proof -
  let ?qs = "map (part_plan (ics_Index ics) A data ds (bca_ChangedDocIDs A)) [0..<unat (sc_Parts ds)]"
  obtain e0 where e0: "sent R [] e e0" "doIndexChangeSet R ics e = eachS (executeQuerySet R) ?qs e0"
    using doIndexChangeSet_run[OF assms(1-8)] by blast
  have conns: "en_sph e0 = Some conns" using e0(1) assms(15) by (simp add: sent_def)
  have plan: "concat (map query_plan ?qs) = index_plan (ics_Index ics) A data ds" by (simp add: index_plan_def comp_def)
  have "executable docs idField (concat (map query_plan ?qs)) conns"
    unfolding plan executable_def using assms(16,17) exec_index_plan[OF assms(2,7,6,8,9-12)] by fastforce
  then show ?thesis
    using completesE[OF completing.holds_query_sets assms(13,14) conns] e0(2) by metis
qed

text \<open>Change detection succeeds on a whole index when it does on its documents.\<close>

lemma detected_documents:
  "\<forall>x\<in>set docs. \<exists>a. ChangedAttrs E (dc_Changes (snd x)) = Inr a \<Longrightarrow> \<exists>A. foldR (add_doc_attrs E) s docs = Inr A"
  by (rule foldR_total) (fastforce simp: add_doc_attrs_def result_simps Let_def)

definition detectable :: "go_env \<Rightarrow> IndexChangeSet \<Rightarrow> bool" where
  "detectable E ics \<longleftrightarrow> (\<forall>x\<in>set (ics_ChangedDocs ics). \<exists>a. ChangedAttrs E (dc_Changes (snd x)) = Inr a)"

lemma detectable_attrs: "detectable E ics \<Longrightarrow> \<exists>A. ChangedAttrsByDocID E ics = Inr A"
  unfolding detectable_def ChangedAttrsByDocID_def by (rule detected_documents)

lemma change_set_succeeds:
  assumes laws: "serves_view R tables view idField" "parts_apart (be_DataSource R)"
      "executes_documented (be_sphinx R) docs idField" "answers_statements (be_sphinx R) docs idField" "answers_queries R"
    and detect: "detectable (be_go R) ics" and awf: "awf (ics_ChangedDocs ics)"
    and source: "map_of (be_DataSource R) (ics_Index ics) \<noteq> None"
    and conns: "en_sph e = Some conns" "conns \<noteq> []"
    and fit: "\<forall>c\<in>set conns. updates_fit R view (tables (en_mysql e)) ics (conn_docs docs c)"
  shows "snd (doIndexChangeSet R ics e) = Inr ()"
proof -
  obtain ds where ds: "map_of (be_DataSource R) (ics_Index ics) = Some ds" using source by blast
  obtain A where A: "ChangedAttrsByDocID (be_go R) ics = Inr A" using detectable_attrs[OF detect] by blast
  show ?thesis
  proof (cases "bca_ChangedDocIDs A = []")
    case True
    then show ?thesis using ds A by (simp add: doIndexChangeSet_def bindS_cases returnS_def)
  next
    case False
    obtain query my result data where answer: "buildSelectQuery (scd_queryTpl (sc_details ds)) (bca_ChangedDocIDs A) = Inr query"
      "be_mysql R query (en_mysql e) = (my, Inr result)" "fetchIndexData (be_go R) (be_fmt_v R) result ds = Inr data"
      using laws(5) ds False unfolding answers_queries_def by metis
    from laws(1) ds answer(1,2) have served: "names_columns result" "id_field ds idField"
      "idField \<in> set (res_Fields result)" "readable_source (ics_Index ics) ds result"
      "\<forall>i\<in>set (bca_ChangedDocIDs A). fetched_doc data i = view (ics_Index ics) (tables (en_mysql e)) i"
      using answer(3) unfolding serves_view_def by blast+
    have parts: "sc_Parts ds \<noteq> 0" using laws(2) ds by (auto simp: parts_apart_def)
    have "scd_attrFields (sc_details ds) \<subseteq> set (idx_fields data)"
      using served(4) fetchIndexData_lengths[OF answer(3)] by (simp add: readable_source_def)
    then have "\<forall>c\<in>set conns. stored_agrees (ics_Index ics) ds A data (conn_docs docs c)"
      using fit updates_fit_agrees[of R view _ ics, OF _ ds A served(5)] by blast
    then show ?thesis by (rule index_succeeds[OF ds A False answer awf parts served(1-4) laws(3,4) conns])
  qed
qed

lemma index_sets_succeed:
  assumes laws: "serves_view R tables view idField" "parts_apart (be_DataSource R)"
      "executes_documented (be_sphinx R) docs idField" "answers_statements (be_sphinx R) docs idField" "answers_queries R"
    and sets: "\<forall>ics\<in>set L. detectable (be_go R) ics \<and> awf (ics_ChangedDocs ics) \<and>
      map_of (be_DataSource R) (ics_Index ics) \<noteq> None"
    and dist: "distinct (map ics_Index L)" and conns: "en_sph e = Some conns" "conns \<noteq> []"
    and fit: "\<forall>c\<in>set conns. \<forall>ics\<in>set L. updates_fit R view (tables (en_mysql e)) ics (conn_docs docs c)"
  shows "snd (eachS (doIndexChangeSet R) L e) = Inr ()"
  using sets dist conns fit
proof (induction L arbitrary: e conns)
  case Nil
  then show ?case by (simp add: returnS_def)
next
  case (Cons ics L)
  let ?e = "fst (doIndexChangeSet R ics e)" and ?T = "tables (en_mysql e)"
  have here: "\<forall>c\<in>set conns. updates_fit R view ?T ics (conn_docs docs c)"
    and later: "\<forall>c\<in>set conns. \<forall>i\<in>set L. updates_fit R view ?T i (conn_docs docs c)"
    and awf: "awf (ics_ChangedDocs ics)" and fresh: "ics_Index ics \<notin> ics_Index ` set L"
    using Cons.prems(1,2,5) by simp_all
  have ok: "snd (doIndexChangeSet R ics e) = Inr ()"
    using change_set_succeeds[OF laws _ awf _ Cons.prems(3,4) here] Cons.prems(1) by simp
  from index_refreshed[OF laws(1-3) ok awf Cons.prems(3) here]
  obtain c1 where c1: "tables (en_mysql ?e) = ?T" "en_sph ?e = Some c1"
    "list_all2 (\<lambda>c c'. refreshed R view ?T ics (conn_docs docs c) (conn_docs docs c') \<and>
      same_outside (source_names R (ics_Index ics)) (conn_docs docs c) (conn_docs docs c')) conns c1" by blast
  have "c1 \<noteq> []" using c1(3) Cons.prems(4) by auto
  with Cons.IH[OF _ _ c1(2)] Cons.prems(1,2) later_updates_fit[OF laws(2) fresh later c1(3)] c1(1)
  have "snd (eachS (doIndexChangeSet R) L ?e) = Inr ()" by simp
  then show ?case using ok by (simp add: bindS_cases)
qed

lemma batch_succeeds:
  assumes "serves_view R tables view idField" "parts_apart (be_DataSource R)"
      "executes_documented (be_sphinx R) docs idField" "answers_statements (be_sphinx R) docs idField" "answers_queries R"
    and "\<forall>ics\<in>snd ` set (bcs_Changes batch). detectable (be_go R) ics \<and> awf (ics_ChangedDocs ics) \<and>
      map_of (be_DataSource R) (ics_Index ics) \<noteq> None"
    and "distinct (map ics_Index (map snd (bcs_Changes batch)))" and "en_sph e = Some conns" and "conns \<noteq> []"
    and "\<forall>c\<in>set conns. \<forall>ics\<in>snd ` set (bcs_Changes batch). updates_fit R view (tables (en_mysql e)) ics (conn_docs docs c)"
  shows "snd (doBatch R batch e) = Inr ()"
proof -
  have "doBatch R batch e = eachS (doIndexChangeSet R) (map snd (bcs_Changes batch)) e" by (auto simp: doBatch_def)
  then show ?thesis using index_sets_succeed[OF assms(1-5) _ assms(7-9)] assms(6,10) by simp
qed

end
