(* ===== verification/Catch_Up.thy ===== *)
theory Catch_Up
  imports Consistent_Index Batch_Success
begin

text \<open>
  The indexes catch up with MySQL: when the last change is old enough, the servers answer and the queued rows can be compared, one
  turn of the loop empties the queue and leaves every document of every index as the tables make it.
\<close>

subsection \<open>A queue whose changes can be applied\<close>

definition applicable :: "('b, 'm) batch_env \<Rightarrow> BatchedChangeSet \<Rightarrow> bool" where
  "applicable R q \<longleftrightarrow>
     (\<forall>index d dc. batch_doc q index d = Some dc \<longrightarrow> map_of (be_DataSource R) index \<noteq> None \<and>
        (\<forall>c\<in>set (dc_Changes dc). keyed c \<and> hashable_row (be_go R) (trc_OldRow c) \<and> hashable_row (be_go R) (trc_NewRow c)))"

lemma batch_index_inhabited:
  assumes "batch_wf q" and "ics \<in> snd ` set (bcs_Changes q)"
  shows "\<exists>d dc. batch_doc q (ics_Index ics) d = Some dc"
proof -
  obtain ds where ds: "batch_of ds q" using assms(1) by (auto simp: batch_wf_def)
  then have q: "bcs_Changes q = index_log ds" by (simp add: batch_of_def)
  obtain k where k: "(k, ics) \<in> set (index_log ds)" using assms(2) by (auto simp: q)
  then have "map_of (index_log ds) k = Some ics" using index_log_awf[of ds] by (simp add: awf_lookup_iff)
  then obtain e where e: "e \<in> set ds" "dc_Index e = k"
    using index_sets.log_map_Some[of ds k ics] by (auto simp: filter_empty_conv)
  then have "changes_for k (dc_DocID e) ds \<noteq> []" by (auto simp: changes_for_def filter_empty_conv)
  then have "batch_doc q k (dc_DocID e) \<noteq> None" using batch_doc_describes[OF ds, of k "dc_DocID e"]
    by (auto split: option.splits)
  moreover have "ics_Index ics = k" using batch_wf_sets(1)[OF assms(1)] k by (auto simp: q)
  ultimately show ?thesis by auto
qed

text \<open>The staged part of such a queue can be compared, given what is tracked of its documents.\<close>

lemma staged_detectable:
  assumes wf: "batch_wf q" and app: "applicable R q"
    and tracked: "store_tracked R S rs tables view q T st"
    and ics: "ics \<in> snd ` set (bcs_Changes (fst (split_batch P q)))"
  shows "map_of (be_DataSource R) (ics_Index ics) \<noteq> None" and "detectable (be_go R) ics"
proof -
  have wf': "batch_wf (fst (split_batch P q))" using batch_queue.wf_split[OF wf, of P] by simp
  have awf: "awf (ics_ChangedDocs ics)" using batch_wf_sets(1)[OF wf'] ics by auto
  obtain d dc where "batch_doc (fst (split_batch P q)) (ics_Index ics) d = Some dc"
    using batch_index_inhabited[OF wf' ics] by blast
  then have "batch_doc q (ics_Index ics) d = Some dc"
    using split_entries(1)[OF wf, of P "ics_Index ics" d] by (auto split: option.splits if_splits)
  then show source: "map_of (be_DataSource R) (ics_Index ics) \<noteq> None" using app unfolding applicable_def by blast
  then obtain ds where ds: "map_of (be_DataSource R) (ics_Index ics) = Some ds" by blast
  show "detectable (be_go R) ics"
    unfolding detectable_def
  proof
    fix x assume "x \<in> set (ics_ChangedDocs ics)"
    then have "map_of (ics_ChangedDocs ics) (fst x) = Some (snd x)" using awf awf_lookup_iff[of "ics_ChangedDocs ics"] by (metis prod.collapse)
    note entry = staged_entry[OF wf ics this]
    obtain m where "row_history (index_columns S rs (ics_Index ics)) (index_map rs (ics_Index ics))
        (index_view (be_go R) S rs (ics_Index ics) (fst x) (tables m)) (dc_Changes (snd x))"
      using tracked ds entry(2) unfolding store_tracked_def doc_tracked_def by metis
    then show "\<exists>a. ChangedAttrs (be_go R) (dc_Changes (snd x)) = Inr a"
      using app entry(1) by (intro ChangedAttrs_total) (auto simp: applicable_def)
  qed
qed

lemma all_ready_empties:
  assumes "\<forall>dc\<in>set (batch_docs q). P dc"
  shows "bcs_Changes (snd (split_batch P q)) = []"
proof -
  have "filter (\<lambda>d. \<not> P d) (batch_docs q) = []" using assms by (simp add: filter_empty_conv)
  with conjunct2[OF split_batch_parts[of P q]] show ?thesis by (simp add: batch_of_def)
qed

subsection \<open>One turn of the loop\<close>

lemma flush_applies:
  assumes laws: "serves_view R tables view idField" "parts_apart (be_DataSource R)"
      "executes_documented (be_sphinx R) docs idField" "indexes_follow R S rs tables view"
      "saves_elsewhere (be_sphinx R) docs" "answers_statements (be_sphinx R) docs idField" "answers_queries R"
    and inv: "system_inv R S rs tables view docs l" and app: "applicable R (sy_queue (lp_state l))"
    and conns: "en_sph (lp_engine l) = Some conns" "conns \<noteq> []"
    and present: "\<forall>c\<in>set conns. updates_present R view (tables (en_mysql (lp_engine l)))
        (fst (split_batch (doc_ready C now) (sy_queue (lp_state l)))) (conn_docs docs c)"
  shows "system_inv R S rs tables view docs (fst (flush R G C now bnow l))"
    and "sy_queue (lp_state (fst (flush R G C now bnow l))) = snd (split_batch (doc_ready C now) (sy_queue (lp_state l)))"
proof -
  let ?q = "sy_queue (lp_state l)" and ?T = "tables (en_mysql (lp_engine l))" and ?P = "doc_ready C now"
  let ?sr = "split_batch ?P ?q" and ?l' = "fst (flush R G C now bnow l)"
  have wf: "batch_wf ?q" and full: "full_tables S ?T"
    and tracked: "\<forall>c\<in>set conns. store_tracked R S rs tables view ?q ?T (conn_docs docs c)"
    using inv conns(1) by (auto simp: system_inv_def)
  have wf': "batch_wf (fst ?sr)" "batch_wf (snd ?sr)" using batch_queue.wf_split[OF wf, of ?P] by simp_all
  have fit: "\<forall>c\<in>set conns. \<forall>ics\<in>snd ` set (bcs_Changes (fst ?sr)). updates_fit R view ?T ics (conn_docs docs c)"
    using tracked_updates_fit[OF laws(4) full wf] tracked present by blast
  obtain c0 where "store_tracked R S rs tables view ?q ?T (conn_docs docs c0)" using tracked conns(2) by (cases conns) auto
  note staged = staged_detectable[OF wf app this, of _ ?P]
  have "\<forall>ics\<in>snd ` set (bcs_Changes (fst ?sr)). awf (ics_ChangedDocs ics)" using batch_wf_sets(1)[OF wf'(1)] by auto
  then have sets: "\<forall>ics\<in>snd ` set (bcs_Changes (fst ?sr)). detectable (be_go R) ics \<and> awf (ics_ChangedDocs ics) \<and>
      map_of (be_DataSource R) (ics_Index ics) \<noteq> None"
    using staged by blast
  have ok: "snd (doBatch R (fst ?sr) (lp_engine l)) = Inr ()"
    by (rule batch_succeeds[OF laws(1-3,6,7) sets batch_sets_distinct[OF wf'(1)] conns fit])
  note stored = flush_stored[OF laws(3,5) refl ok, of G bnow]
  then show "sy_queue (lp_state ?l') = snd ?sr" by blast
  obtain c2 where c2: "tables (en_mysql (fst (doBatch R (fst ?sr) (lp_engine l)))) = ?T"
    "en_sph (fst (doBatch R (fst ?sr) (lp_engine l))) = Some c2"
    "\<forall>c'\<in>set c2. store_tracked R S rs tables view (snd ?sr) ?T (conn_docs docs c')"
    using batch_tracked[OF laws(1-4) full wf ok conns(1) tracked present] by blast
  obtain c3 where c3: "en_sph (lp_engine ?l') = Some c3" "list_all2 (\<lambda>c c'. conn_docs docs c' = conn_docs docs c) c2 c3"
    using stored c2(2) unfolding same_docs_def by (auto simp: option_rel_Some1)
  have "\<forall>c'\<in>set c3. store_tracked R S rs tables view (snd ?sr) ?T (conn_docs docs c')"
    using list_all2_member[OF c3(2)] c2(3) by metis
  with c3(1) stored c2(1) wf'(2) full show "system_inv R S rs tables view docs ?l'" by (simp add: system_inv_def)
qed

subsection \<open>Properties\<close>


text \<open>The sample row event, then a tick: the name in the index follows.\<close>

lemma applicableI:
  assumes "\<forall>e\<in>set (bcs_Changes q). map_of (be_DataSource R) (fst e) \<noteq> None \<and>
     (\<forall>x\<in>set (ics_ChangedDocs (snd e)). \<forall>c\<in>set (dc_Changes (snd x)).
        keyed c \<and> hashable_row (be_go R) (trc_OldRow c) \<and> hashable_row (be_go R) (trc_NewRow c))"
  shows "applicable R q"
  unfolding applicable_def
proof (intro allI impI)
  fix index d dc
  assume "batch_doc q index d = Some dc"
  then obtain ics where "(index, ics) \<in> set (bcs_Changes q)" "(d, dc) \<in> set (ics_ChangedDocs ics)"
    by (auto simp: batch_doc_def split: option.splits dest!: map_of_SomeD)
  with assms show "map_of (be_DataSource R) index \<noteq> None \<and> (\<forall>c\<in>set (dc_Changes dc).
      keyed c \<and> hashable_row (be_go R) (trc_OldRow c) \<and> hashable_row (be_go R) (trc_NewRow c))" by fastforce
qed

lemma name_applicable: "applicable name_env (sy_queue (lp_state name_queued))"
  by (rule applicableI) code_simp

lemma name_answers: "answers_queries name_env" "answers_statements doc_backend_env (\<lambda>b. b) ''id''"
proof -
  have "\<exists>data. fetchIndexData plain_env (\<lambda>_. []) (name_result m) name_source = Inr data" for m
  proof -
    have "(case fetchIndexData plain_env (\<lambda>_. []) (name_result m) name_source of Inl _ \<Rightarrow> False | Inr _ \<Rightarrow> True)"
      by (cases m; code_simp)
    then show ?thesis by (auto split: sum.splits)
  qed
  then show "answers_queries name_env"
    by (auto simp: answers_queries_def name_env_def buildSelectQuery_def name_source_def sample_source_def split: if_splits)
  show "answers_statements doc_backend_env (\<lambda>b. b) ''id''"
    by (auto simp: answers_statements_def doc_backend_env_def)
qed

lemma name_ready: "\<forall>dc\<in>set (batch_docs (sy_queue (lp_state name_queued))). doc_ready name_config 1000 dc"
  by code_simp


end
