(* ===== verification/Ingest_Effects.thy ===== *)
theory Ingest_Effects
  imports Ingest_Correct
begin

text \<open>
  What the application of a rule set sends, including what it has already sent when a rule
  fails, the NATS notifications of a row event, and two defects of the JSON column filter.
\<close>

subsection \<open>The rule set\<close>

definition rule_changes :: "TableRowChange list option result \<Rightarrow> TableRowChange list" where
  "rule_changes m = (case m of Inr (Some cs) \<Rightarrow> cs | _ \<Rightarrow> [])"

lemma apply_rules_split:
  "apply_rules E clock k (rs @ rs') e =
     (let a = apply_rules E clock k rs e
      in case snd a of
           Some f \<Rightarrow> a
         | None \<Rightarrow> (let b = apply_rules E clock (k + length rs) rs' e in (fst a @ fst b, snd b)))"
proof (induction rs arbitrary: k)
  case (Cons r rs)
  show ?case
  proof (cases "IngestRule_Apply E r (clock k) e")
    case (Inr d)
    then show ?thesis
      by (cases d; cases "snd (apply_rules E clock (Suc k) rs e)") (simp_all add: Cons Let_def)
  qed (simp add: Let_def)
qed (simp add: Let_def)

lemma apply_rules_all:
  "\<forall>i<length rs. \<exists>d. IngestRule_Apply E (rs ! i) (clock (k + i)) e = Inr d \<Longrightarrow>
   apply_rules E clock k rs e =
     (concat (map (\<lambda>i. rule_changes (IngestRule_Apply E (rs ! i) (clock (k + i)) e)) [0..<length rs]), None)"
proof (induction rs arbitrary: k)
  case (Cons r rs)
  have "apply_rules E clock (Suc k) rs e =
      (concat (map (\<lambda>i. rule_changes (IngestRule_Apply E (rs ! i) (clock (Suc k + i)) e)) [0..<length rs]), None)"
    using Cons.prems by (intro Cons.IH) force
  moreover obtain d where "IngestRule_Apply E r (clock k) e = Inr d" using Cons.prems by force
  moreover have "[0..<length (r # rs)] = 0 # map Suc [0..<length rs]"
    by (simp add: upt_conv_Cons map_Suc_upt del: upt_Suc)
  ultimately show ?case
    by (cases d) (simp_all add: rule_changes_def Let_def comp_def del: upt_Suc)
qed simp

subsection \<open>Notifications\<close>

definition notified_rows :: "rows_event \<Rightarrow> row list" where
  "notified_rows e =
     (if ev_Action e = UpdateAction then new_rows (ev_Rows e)
      else if ev_Action e = InsertAction \<or> ev_Action e = DeleteAction then ev_Rows e else [])"

definition row_number ::
  "(gval \<Rightarrow> 'a::len word \<times> go_error option) \<Rightarrow> string \<Rightarrow> rows_event \<Rightarrow> row \<Rightarrow> 'a word" where
  "row_number coerce name e vs =
     (case find_index name (ev_Columns e) of None \<Rightarrow> 0 | Some c \<Rightarrow> fst (coerce (vs ! c)))"

lemma find_index_bound: "find_index x xs = Some i \<Longrightarrow> i < length xs"
  by (induction xs arbitrary: i) (auto split: if_splits)

lemma value_or_zero_ok:
  "length (ev_Columns e) \<le> length vs \<Longrightarrow>
   value_or_zero coerce (find_index name (ev_Columns e)) vs = Inr (row_number coerce name e vs)"
  by (auto simp: value_or_zero_def row_number_def go_index_def split: option.splits
      dest: find_index_bound)

lemma notify_rows_ok:
  "\<forall>vs\<in>set rs. length (ev_Columns e) \<le> length vs \<Longrightarrow>
   notify_rows E e rs =
     (map (\<lambda>vs. PublishRowToNats (row_number (CoerceToUint64 E) ''id'' e vs)
             (row_number (CoerceToUint32 E) ''type'' e vs) (ev_Action e) (ev_Table e))
        (filter (\<lambda>vs. row_number (CoerceToUint64 E) ''id'' e vs > 0 \<and>
                      row_number (CoerceToUint32 E) ''type'' e vs > 0) rs), None)"
  by (induction rs) (simp_all add: notify_row_def value_or_zero_ok Let_def)

lemma set_new_rows: "set (new_rows rs) \<subseteq> set rs"
  by (induction rs rule: new_rows.induct) auto

lemma notified_rows_subset: "set (notified_rows e) \<subseteq> set (ev_Rows e)"
  using set_new_rows[of "ev_Rows e"] by (auto simp: notified_rows_def)

lemma processRowEventForNats_rows:
  "processRowEventForNats E e = notify_rows E e (notified_rows e)"
  by (simp add: processRowEventForNats_def notified_rows_def)

lemma processRowEventForNats_ok:
  assumes "\<forall>vs\<in>set (ev_Rows e). length (ev_Columns e) \<le> length vs"
  shows "processRowEventForNats E e =
     (map (\<lambda>vs. PublishRowToNats (row_number (CoerceToUint64 E) ''id'' e vs)
             (row_number (CoerceToUint32 E) ''type'' e vs) (ev_Action e) (ev_Table e))
        (filter (\<lambda>vs. row_number (CoerceToUint64 E) ''id'' e vs > 0 \<and>
                      row_number (CoerceToUint32 E) ''type'' e vs > 0) (notified_rows e)), None)"
  unfolding processRowEventForNats_rows
  by (rule notify_rows_ok) (use assms notified_rows_subset[of e] in blast)

subsection \<open>Samples\<close>

text \<open>A rule over a JSON column, and the update of one document's JSON value.\<close>

definition json_rule :: IngestRule where
  "json_rule = \<lparr>ir_TableName = ''db.t'', ir_DocIDField = ''id'', ir_Index = ''i'',
     ir_ColumnMap = [(''a'', [''field_a'']), (''b'', [''field_b''])],
     ir_JsonColumnName = ''data'', ir_JsonTypeName = [], ir_JsonTypeValue = 0\<rparr>"

definition json_event :: "string \<Rightarrow> string \<Rightarrow> rows_event" where
  "json_event old new = \<lparr>ev_Table = ''db.t'', ev_Columns = [''id'', ''data''], ev_PKColumns = [0],
     ev_Action = UpdateAction,
     ev_Rows = [[GInt32 5, GBytes old], [GInt32 5, GBytes new]], ev_Timestamp = 0\<rparr>"

definition json_env :: go_env where
  "json_env = plain_env\<lparr>unmarshal := (\<lambda>s.
     if s = ''AB'' then Some [(''a'', GFloat64 1), (''b'', GFloat64 2)]
     else if s = ''B'' then Some [(''b'', GFloat64 1)] else None)\<rparr>"

definition json_change :: "gval \<Rightarrow> gval \<Rightarrow> TableRowChange" where
  "json_change x y = \<lparr>trc_Action = UpdateAction, trc_Columns = [''b'', []],
     trc_ColumnMap = ir_ColumnMap json_rule, trc_DocID = 5, trc_EventID = 0, trc_Index = ''i'',
     trc_OldRow = [x, y], trc_NewRow = [x, GNil],
     trc_PK = PrimaryKey 1 (GInt32 5 # replicate 15 GNil), trc_TableName = ''db.t'', trc_TS = 0\<rparr>"

lemma json_apply:
  assumes "unmarshal E old = Some [(''a'', x), (''b'', y)]" and "unmarshal E new = Some [(''b'', x)]"
  shows "IngestRule_Apply E json_rule (\<lambda>_. 0) (json_event old new) = Inr (Some [json_change x y])"
  using assms
  by (simp add: IngestRule_Apply_def json_rule_def json_event_def json_type_matches_def fieldIndex_def
      realPKColumns_def columnNames_def row_doc_id_def new_doc_id_def go_index_def updatedTableRow_def
      newPrimaryKeyFromRow_def pk_array_def filterColumns_def filter_step_def put_members_def
      put_slot_def json_change_def Let_def)

lemma json_change_attrs:
  assumes "hashable_row E [x, y]"
  shows "ChangedAttrs E [json_change x y] = Inr {}"
proof -
  have keyed: "keyed (json_change x y)" by (simp add: keyed_def json_change_def list_all_iff)
  let ?d = "first_diff (json_change x y)"
  let ?t = "add_row_change (new_table (json_change x y)) (json_change x y)"
  have t: "?t = \<lparr>tcs_Columns = [''b'', []], tcs_ColumnMap = ir_ColumnMap json_rule,
       tcs_Changes = [(trc_PK (json_change x y), ?d)]\<rparr>"
    by (simp add: add_row_change_def new_table_def upsert_def json_change_def)
  obtain names where names: "ChangedColumnNames E ?t = Inr names" "set names \<subseteq> {[]}"
  proof -
    obtain a b where a: "rowToArray E [x, y] = Inr a" and b: "rowToArray E [x, GNil] = Inr b"
      by (simp add: rowToArray_def)
    have ok: "list_all key_ok a" "list_all key_ok b"
      using rowToArray_set[OF a] rowToArray_set[OF b] assms by (auto simp: hashable_row_def list_all_iff)
    have "collect_diff E ({}, {}) ?d = Inr ({a}, {b})"
      using a b ok by (simp add: collect_diff_def collect_row_def first_diff_def json_change_def set_Add_def)
    moreover have "diff_columns [''b'', []] (rd_Old ?d) (rd_New ?d) = Inr (if y = GNil then [] else [[]])"
      by (simp add: first_diff_def json_change_def)
    ultimately have "\<exists>names. ChangedColumnNames E ?t = Inr names \<and> set names \<subseteq> {[]}"
      unfolding ChangedColumnNames_def t Let_def by (simp add: add_columns_def)
    then show thesis using that by blast
  qed
  have "NewDocChangeSet [json_change x y] =
      Inr \<lparr>dcs_Changes = (if [x, y] = [x, GNil] then [] else [(''db.t'', ?t)])\<rparr>"
    using keyed t
    by (simp add: NewDocChangeSet_eq upsert_def PruneUnchangedTables_def PruneUnchangedRows_def)
       (simp add: first_diff_def json_change_def)
  moreover have "attrs_of_columns (tcs_ColumnMap ?t) names = {}"
    using names(2) by (auto simp: t attrs_of_columns_def mapped_attrs_def json_rule_def)
  ultimately show ?thesis using names(1) by (simp add: ChangedAttrs_def)
qed

subsection \<open>Properties\<close>

text \<open>
  A rule set that fails at some rule has already sent the changes of every rule before it,
  in rule order and in full, and nothing of the failing rule or of a later one; the row
  notifications were published before any rule ran.
\<close>

theorem ApplyRuleSet_failure:
  assumes "\<forall>i<length rs. \<exists>d. IngestRule_Apply E (rs ! i) (clock i) e = Inr d"
    and "IngestRule_Apply E r (clock (length rs)) e = Inl f"
    and "\<forall>vs\<in>set (ev_Rows e). length (ev_Columns e) \<le> length vs"
  shows "snd (ApplyRuleSet E clock (rs @ r # rs') e) =
     (concat (map (\<lambda>i. rule_changes (IngestRule_Apply E (rs ! i) (clock i) e)) [0..<length rs]), Some f)"
proof -
  have "snd (processRowEventForNats E e) = None"
    by (simp add: processRowEventForNats_ok[OF assms(3)])
  then show ?thesis
    using apply_rules_all[of rs E clock 0 e] assms(1,2)
    by (simp add: ApplyRuleSet_def Let_def apply_rules_split)
qed

theorem ApplyRuleSet_failure_witness:
  "snd (ApplyRuleSet plain_env (\<lambda>_ _. 0) [sample_rule, sample_rule\<lparr>ir_DocIDField := ''none''\<rparr>] sample_event) =
   (sample_changes, Some (Fails (ErrMsg ''field none not found in binlog event '')))"
proof -
  have "IngestRule_Apply plain_env (sample_rule\<lparr>ir_DocIDField := ''none''\<rparr>) (\<lambda>_. 0) sample_event =
      Inl (Fails (ErrMsg ''field none not found in binlog event ''))"
    by code_simp
  from ApplyRuleSet_failure[of "[sample_rule]" plain_env "\<lambda>_ _. 0" sample_event, OF _ this, of "[]"]
  show ?thesis by (simp add: sample_apply rule_changes_def) (simp add: sample_event_def)
qed

text \<open>
  When no rule fails, the change channel receives the changes of all rules in rule order,
  and the reported document count is their number.
\<close>

theorem ApplyRuleSet_success:
  assumes "\<forall>i<length rs. \<exists>d. IngestRule_Apply E (rs ! i) (clock i) e = Inr d"
    and "\<forall>vs\<in>set (ev_Rows e). length (ev_Columns e) \<le> length vs"
  shows "snd (ApplyRuleSet E clock rs e) =
     (concat (map (\<lambda>i. rule_changes (IngestRule_Apply E (rs ! i) (clock i) e)) [0..<length rs]), None)"
proof -
  have "snd (processRowEventForNats E e) = None"
    by (simp add: processRowEventForNats_ok[OF assms(2)])
  then show ?thesis
    using apply_rules_all[of rs E clock 0 e] assms(1) by (simp add: ApplyRuleSet_def Let_def)
qed

theorem ApplyRuleSet_success_witness:
  "snd (ApplyRuleSet plain_env (\<lambda>_ _. 0) [sample_rule, sample_rule] sample_event) =
   (sample_changes @ sample_changes, None)"
proof -
  have "\<forall>i<length [sample_rule, sample_rule].
      IngestRule_Apply plain_env ([sample_rule, sample_rule] ! i) (\<lambda>_. 0) sample_event =
        Inr (Some sample_changes)"
    using sample_apply by (auto simp: less_Suc_eq)
  with ApplyRuleSet_success[of "[sample_rule, sample_rule]" plain_env "\<lambda>_ _. 0" sample_event]
  show ?thesis by (simp add: rule_changes_def sample_apply) (simp add: sample_event_def)
qed

text \<open>
  Row notifications: one message per inserted or deleted row and per new row of an update
  whose \<open>id\<close> and \<open>type\<close> columns hold positive numbers, in row order, naming the table and the
  action; rows without both are skipped silently, as are values that do not convert.
\<close>

theorem row_notifications:
  assumes "\<forall>vs\<in>set (ev_Rows e). length (ev_Columns e) \<le> length vs"
  shows "fst (ApplyRuleSet E clock rs e) =
     map (\<lambda>vs. PublishRowToNats (row_number (CoerceToUint64 E) ''id'' e vs)
            (row_number (CoerceToUint32 E) ''type'' e vs) (ev_Action e) (ev_Table e))
       (filter (\<lambda>vs. row_number (CoerceToUint64 E) ''id'' e vs > 0 \<and>
                     row_number (CoerceToUint32 E) ''type'' e vs > 0) (notified_rows e))"
  by (simp add: ApplyRuleSet_def processRowEventForNats_ok[OF assms] Let_def)

definition typed_event :: rows_event where
  "typed_event = \<lparr>ev_Table = ''db.t'', ev_Columns = [''id'', ''type''], ev_PKColumns = [0],
     ev_Action = InsertAction,
     ev_Rows = [[GInt32 1, GString ''7''], [GInt32 2, GString ''x'']], ev_Timestamp = 0\<rparr>"

theorem row_notifications_witness:
  "fst (ApplyRuleSet plain_env (\<lambda>_ _. 0) [] typed_event) = [PublishRowToNats 1 7 InsertAction ''db.t'']"
proof -
  have "map (\<lambda>vs. PublishRowToNats (row_number (CoerceToUint64 plain_env) ''id'' typed_event vs)
            (row_number (CoerceToUint32 plain_env) ''type'' typed_event vs)
            (ev_Action typed_event) (ev_Table typed_event))
       (filter (\<lambda>vs. row_number (CoerceToUint64 plain_env) ''id'' typed_event vs > 0 \<and>
                     row_number (CoerceToUint32 plain_env) ''type'' typed_event vs > 0)
          (notified_rows typed_event)) = [PublishRowToNats 1 7 InsertAction ''db.t'']"
    by code_simp
  with row_notifications[of typed_event plain_env "\<lambda>_ _. 0" "[]"] show ?thesis
    by (simp add: typed_event_def)
qed

text \<open>
  C39. Defect of the JSON column filter: the two rows of an update are filtered separately, so
  when a member disappears from the JSON object the remaining ones shift into its slot. Updating
  the object from \<open>{a: x, b: y}\<close> to \<open>{b: x}\<close> changes both attributes of the document, yet the rows
  agree in the slot named \<open>b\<close> and no attribute is reported as changed.
\<close>

theorem json_update_missed:
  assumes "unmarshal E old = Some [(''a'', x), (''b'', y)]" and "unmarshal E new = Some [(''b'', x)]"
    and "hashable_row E [x, y]"
  shows "bindR (IngestRule_Apply E json_rule (\<lambda>_. 0) (json_event old new))
           (\<lambda>cs. ChangedAttrs E (the cs)) = Inr {}"
  using json_change_attrs[OF assms(3)] by (simp add: json_apply[OF assms(1,2)])

theorem json_update_missed_witness:
  "bindR (IngestRule_Apply json_env json_rule (\<lambda>_. 0) (json_event ''AB'' ''B''))
     (\<lambda>cs. ChangedAttrs json_env (the cs)) = Inr {}"
  by (rule json_update_missed[where x = "GFloat64 1" and y = "GFloat64 2"])
    (simp_all add: json_env_def hashable_row_def)

text \<open>
  Second defect of the JSON column filter: the slots are counted by the column map, so a row
  whose JSON object has a member named like a mapped column of the table needs one slot too many,
  and the replication handler panics with an index out of range.
\<close>

theorem json_member_overflow_panics:
  assumes "unmarshal E data = Some obj" and "map_of obj col = Some x"
    and "ir_ColumnMap r = [(col, fs)]" and "ir_JsonColumnName r = json" and "json \<noteq> col"
    and "awf obj"
  shows "filterColumns E r [json, col] [GBytes data, v] = Inl (Panics IndexOutOfRange)"
proof -
  have one: "filter (\<lambda>kv. fst kv = col) (sort_key fst obj) = [(col, x)]"
  proof -
    have m: "(col, x) \<in> set obj" using assms(2) by (rule map_of_SomeD)
    have "filter (\<lambda>kv. fst kv = col) obj = [(col, x)]"
      using assms(6) m
    proof (induction obj)
      case (Cons e obj)
      then show ?case
        by (cases "e = (col, x)") (auto simp: awf_Cons filter_empty_conv intro: rev_image_eqI)
    qed simp
    then show ?thesis using sort_key_stable[of fst col obj] by simp
  qed
  have "foldR (\<lambda>s kv. if map_of (ir_ColumnMap r) (fst kv) \<noteq> None
             then put_slot (length (ir_ColumnMap r)) (fst kv) (snd kv) s else Inr s) s kvs =
        foldR (\<lambda>s kv. put_slot 1 (fst kv) (snd kv) s) s (filter (\<lambda>kv. fst kv = col) kvs)" for s kvs
    using assms(3) by (induction kvs arbitrary: s) (auto intro!: bindR_cong)
  then have "put_members (ir_ColumnMap r) obj [] = Inr [(col, x)]"
    by (simp add: put_members_def one put_slot_def)
  then show ?thesis
    using assms by (cases v) (auto simp: filterColumns_def filter_step_def put_slot_def Let_def)
qed

theorem json_member_overflow_panics_witness:
  "filterColumns json_env (json_rule\<lparr>ir_ColumnMap := [(''b'', [''field_b''])]\<rparr>) [''data'', ''b'']
     [GBytes ''B'', GInt32 7] = Inl (Panics IndexOutOfRange)"
  by (rule json_member_overflow_panics[where x = "GFloat64 1" and obj = "[(''b'', GFloat64 1)]"
        and fs = "[''field_b'']"]) (simp_all add: json_env_def json_rule_def amap_simps)

end
