(* ===== verification/Connections.thy ===== *)
theory Connections
  imports Master Sphinx_Correct
begin

text \<open>
  Opening, serving and closing the connections to the backends (\<open>ConnectMany\<close>, \<open>startExecLoop\<close>,
  \<open>Close\<close> of \<open>src/sphinx/sphinx.go\<close>), the service that owns them (\<open>src/river/sphinx_service.go\<close>)
  and the checks over all indexes that use it (\<open>river.go\<close>). Every connection has a goroutine that
  serves one request at a time until its request channel is closed.
\<close>

subsection \<open>The goroutine of a connection\<close>

datatype 'g conn_request =
    QueryReq string
  | ReloadIndexReq string "16 word"
  | AssertReadyReq string "16 word"
  | SaveSyncStateReq "'g SyncState"
  | LoadSyncStateReq
  | OptimizeCheckReq string "16 word" "64 word"
  | OtherReq string

record SphResult =
  sr_Result :: "mysql_result option"
  sr_Err :: "go_error option"

text \<open>What goes into the result channel; a panic of the handler ends the process instead.\<close>

definition sph_result :: "('a \<Rightarrow> mysql_result option) \<Rightarrow> 'a result \<Rightarrow> SphResult result" where
  "sph_result result r =
     (case r of
        Inr x \<Rightarrow> Inr \<lparr>sr_Result = result x, sr_Err = None\<rparr>
      | Inl (Fails e) \<Rightarrow> Inr \<lparr>sr_Result = None, sr_Err = Some e\<rparr>
      | Inl p \<Rightarrow> Inl p)"

definition answer :: "('a \<Rightarrow> mysql_result option) \<Rightarrow> ('b, 'a) conn_call \<Rightarrow> ('b, SphResult) conn_call" where
  "answer result m c = (let r = m c in (fst r, sph_result result (snd r)))"

fun serve_request :: "'b sph_env \<Rightarrow> 'g gtid_env \<Rightarrow> 'g conn_request \<Rightarrow> ('b, SphResult) conn_call" where
  "serve_request S G (QueryReq stmt) = answer Some (execute S stmt)"
| "serve_request S G (ReloadIndexReq index parts) = answer (\<lambda>_. None) (reloadRtIndex S index parts)"
| "serve_request S G (AssertReadyReq index parts) = answer (\<lambda>_. None) (assertIndexIsReady S index parts)"
| "serve_request S G (SaveSyncStateReq state) = answer Some (savePosition S G state)"
| "serve_request S G LoadSyncStateReq = answer id (loadPosition S)"
| "serve_request S G (OptimizeCheckReq index parts maxRAMChunkBytes) =
     answer (\<lambda>_. None) (checkIndexForOptimize S index parts maxRAMChunkBytes)"
| "serve_request S G (OtherReq typ) =
     answer (\<lambda>_. None) (returnS (Inl (Fails (ErrMsg (''unknown request type: '' @ typ)))) :: ('b, unit) conn_call)"

text \<open>
  The loop over the requests until the channel is closed, and the deferred \<open>c.conn.Close()\<close>,
  which also runs when a handler panics. The second component has the results sent.
\<close>

fun serve_requests ::
  "'b sph_env \<Rightarrow> 'g gtid_env \<Rightarrow> 'g conn_request list \<Rightarrow> 'b SphConn \<Rightarrow> 'b SphConn \<times> SphResult list \<times> go_panic option" where
  "serve_requests S G [] c = (c, [], None)"
| "serve_requests S G (req # reqs) c =
     (let x = serve_request S G req c
      in case snd x of
           Inl (Panics p) \<Rightarrow> (fst x, [], Some p)
         | Inl (Fails e) \<Rightarrow> (fst x, [], None)
         | Inr res \<Rightarrow>
             (let r = serve_requests S G reqs (fst x) in (fst r, res # fst (snd r), snd (snd r))))"

definition startExecLoop ::
  "'b sph_env \<Rightarrow> 'g gtid_env \<Rightarrow> 'g conn_request list \<Rightarrow> 'b SphConn \<Rightarrow> 'b SphConn \<times> SphResult list \<times> go_panic option" where
  "startExecLoop S G reqs c =
     (let r = serve_requests S G reqs c
      in ((fst r)\<lparr>conn_backend := fst (se_close S (conn_backend (fst r)))\<rparr>, snd r))"

text \<open>
  A request from another goroutine: send it, receive the result, of which only the error is used. \<open>shut\<close> says that the
  request channel was closed. A panic of the handler ends the process.
\<close>

definition request_error ::
  "'b sph_env \<Rightarrow> 'g gtid_env \<Rightarrow> bool \<Rightarrow> 'g conn_request \<Rightarrow> ('b, unit) conn_call" where
  "request_error S G shut req c =
     (if shut then (c, Inl (Panics (PanicMsg ''send on closed channel'')))
      else (let x = serve_request S G req c
            in (fst x, bindR (snd x) (\<lambda>res. case sr_Err res of None \<Rightarrow> Inr () | Some e \<Rightarrow> Inl (Fails e)))))"

definition ReloadRtIndex ::
  "'b sph_env \<Rightarrow> 'g gtid_env \<Rightarrow> bool \<Rightarrow> string \<Rightarrow> 16 word \<Rightarrow> ('b, unit) conn_call" where
  "ReloadRtIndex S G shut rtIndex parts = request_error S G shut (ReloadIndexReq rtIndex parts)"

definition AssertIndexIsReady ::
  "'b sph_env \<Rightarrow> 'g gtid_env \<Rightarrow> bool \<Rightarrow> string \<Rightarrow> 16 word \<Rightarrow> ('b, unit) conn_call" where
  "AssertIndexIsReady S G shut rtIndex parts = request_error S G shut (AssertReadyReq rtIndex parts)"

text \<open>Over an open channel these are the handlers.\<close>

lemma request_error_answer:
  fixes m :: "('b, unit) conn_call"
  assumes "serve_request S G req = answer (\<lambda>_. None) m"
  shows "request_error S G False req = m"
proof
  fix c
  have "bindR (sph_result (\<lambda>_. None) r) (\<lambda>res. case sr_Err res of None \<Rightarrow> Inr () | Some e \<Rightarrow> Inl (Fails e)) = r"
    for r :: "unit result"
    by (auto simp: sph_result_def split: sum.split fault.split)
  then show "request_error S G False req c = m c"
    using assms by (simp add: request_error_def answer_def Let_def prod_eq_iff)
qed

lemma AssertIndexIsReady_open: "AssertIndexIsReady S G False index parts = assertIndexIsReady S index parts"
  and ReloadRtIndex_open: "ReloadRtIndex S G False index parts = reloadRtIndex S index parts"
  unfolding AssertIndexIsReady_def ReloadRtIndex_def by (rule request_error_answer, simp)+

text \<open>Closing: the flag of a connection says that its request channel is closed; closing it again panics.\<close>

definition SphConn_Close :: "bool \<Rightarrow> bool result" where
  "SphConn_Close shut = (if shut then Inl (Panics (PanicMsg ''close of closed channel'')) else Inr True)"

definition CloseMany :: "bool list \<Rightarrow> bool list result" where
  "CloseMany = mapR SphConn_Close"

lemma CloseMany_open: "True \<notin> set shut \<Longrightarrow> CloseMany shut = Inr (map (\<lambda>_. True) shut)"
  unfolding CloseMany_def by (induction shut) (simp_all add: SphConn_Close_def)

lemma CloseMany_twice: "shut \<noteq> [] \<Longrightarrow> CloseMany shut = Inr shut' \<Longrightarrow> \<exists>p. CloseMany shut' = Inl (Panics p)"
  by (cases shut) (auto simp: CloseMany_def SphConn_Close_def result_simps split: if_splits)

subsection \<open>Opening connections\<close>

record ConnSettings =
  cs_DisconnectRetryDelay :: int
  cs_OverloadRetryDelay :: int

definition Connect :: "'b sph_env \<Rightarrow> string \<Rightarrow> ('b, unit) call" where
  "Connect S addr b =
     (let r = se_connect S addr b
      in (fst r, case snd r of None \<Rightarrow> Inr () | Some e \<Rightarrow> Inl (Fails e)))"

text \<open>
  Every address comes with its backend. The result is the list of the connections whose goroutines
  were started and the error that ended the loop; with an error the function returns no list, and nothing
  refers to the connections opened before.
\<close>

fun connect_loop ::
  "'b sph_env \<Rightarrow> ConnSettings \<Rightarrow> (string \<times> 'b) list \<Rightarrow> 'b SphConn list \<times> unit result" where
  "connect_loop S settings [] = ([], Inr ())"
| "connect_loop S settings ((addr, b) # rest) =
     (case SplitHostPort addr of
        Inl e \<Rightarrow> ([], Inl e)
      | Inr hp \<Rightarrow>
          (let r = Connect S addr b
           in case snd r of
                Inl e \<Rightarrow> ([], Inl e)
              | Inr _ \<Rightarrow>
                  (let more = connect_loop S settings rest
                   in (\<lparr>conn_addr = addr, conn_hostname = fst hp,
                        conn_DisconnectRetryDelay = cs_DisconnectRetryDelay settings,
                        conn_OverloadRetryDelay = cs_OverloadRetryDelay settings,
                        conn_maxRetries = 5, conn_attempts = 0, conn_backend = fst r\<rparr> # fst more,
                       snd more))))"

definition ConnectMany ::
  "'b sph_env \<Rightarrow> ConnSettings \<Rightarrow> (string \<times> 'b) list \<Rightarrow> 'b SphConn list result" where
  "ConnectMany S settings addrList =
     (let r = connect_loop S settings addrList in bindR (snd r) (\<lambda>_. Inr (fst r)))"

subsection \<open>The service that owns the connections\<close>

text \<open>
  \<open>svc_sph\<close> is \<open>s.sph\<close>, \<open>None\<close> for nil, and \<open>svc_closed\<close> says that \<open>CloseMany\<close> has closed the request
  channels of these connections; \<open>svc_fatal\<close> is what the service put into \<open>FatalErrC\<close>.
\<close>

record 'b SphinxService =
  svc_sph :: "'b SphConn list option"
  svc_closed :: bool
  svc_fatal :: "go_error list"

definition NewSphinxService :: "'b SphinxService" where
  "NewSphinxService = \<lparr>svc_sph = None, svc_closed = False, svc_fatal = []\<rparr>"

definition SphinxService_connect ::
  "'b sph_env \<Rightarrow> ConnSettings \<Rightarrow> (string \<times> 'b) list \<Rightarrow> 'b SphinxService \<Rightarrow> 'b SphinxService" where
  "SphinxService_connect S settings addrList s =
     (case ConnectMany S settings addrList of
        Inr sph \<Rightarrow> s\<lparr>svc_sph := Some sph, svc_closed := False\<rparr>
      | Inl (Fails e) \<Rightarrow>
          s\<lparr>svc_sph := None, svc_closed := False,
            svc_fatal := svc_fatal s @ [ErrAnnotated ''could not connect to manticore'' e]\<rparr>
      | Inl p \<Rightarrow> s\<lparr>svc_sph := None, svc_closed := False\<rparr>)"

text \<open>\<open>CloseMany\<close> closes every request channel; the slice itself stays.\<close>

definition SphinxService_disconnect :: "'b SphinxService \<Rightarrow> 'b SphinxService" where
  "SphinxService_disconnect s = (if svc_sph s = None then s else s\<lparr>svc_closed := True\<rparr>)"

text \<open>
  A request to all connections: the first send on a closed channel panics in the calling goroutine.
\<close>

definition on_connections ::
  "('b SphConn list \<Rightarrow> 'b SphConn list \<times> 'a result) \<Rightarrow> 'b SphConn list \<Rightarrow> ('b SphinxService, 'a) call" where
  "on_connections f sph s =
     (if svc_closed s \<and> sph \<noteq> [] then (s, Inl (Panics (PanicMsg ''send on closed channel'')))
      else (let r = f sph in (s\<lparr>svc_sph := Some (fst r)\<rparr>, snd r)))"

definition SphinxService_IndexIsReady ::
  "'b sph_env \<Rightarrow> string \<Rightarrow> 16 word \<Rightarrow> ('b SphinxService, bool) call" where
  "SphinxService_IndexIsReady S index parts s =
     (case svc_sph s of
        None \<Rightarrow> (s, Inl (Fails (ErrAnnotated (''error checking that index '' @ index @ '' is ready'')
                  ErrSphinxDisconnected)))
      | Some sph \<Rightarrow> on_connections (\<lambda>sph. IndexIsReady S sph index parts) sph s)"

definition SphinxService_CheckIndexForOptimize ::
  "'b sph_env \<Rightarrow> 64 word \<Rightarrow> string \<Rightarrow> 16 word \<Rightarrow> ('b SphinxService, unit) call" where
  "SphinxService_CheckIndexForOptimize S maxRAMChunkBytes index parts s =
     (case svc_sph s of
        None \<Rightarrow> (s, Inl (Fails (ErrAnnotated (''error trying to optimize index '' @ index)
                  ErrSphinxDisconnected)))
      | Some sph \<Rightarrow>
          annotateS (''error trying to optimize index '' @ index)
            (on_connections (\<lambda>sph. CheckIndexForOptimize S sph index parts maxRAMChunkBytes) sph) s)"

text \<open>Loading and saving the synchronization state while the channels may be closed.\<close>

definition service_LoadSyncState ::
  "'b sph_env \<Rightarrow> 'g gtid_env \<Rightarrow> bool \<Rightarrow> 'g masterState \<Rightarrow> 'b SphinxService \<Rightarrow>
   'b SphinxService \<times> 'g masterState \<times> unit result" where
  "service_LoadSyncState S G skipSphSyncState m s =
     (if svc_closed s \<and> \<not> skipSphSyncState \<and> svc_sph s \<noteq> Some [] \<and> svc_sph s \<noteq> None
      then (s, m, Inl (Panics (PanicMsg ''send on closed channel'')))
      else (let r = SphinxService_LoadSyncState S G skipSphSyncState (svc_sph s) m
            in (s\<lparr>svc_sph := fst r\<rparr>, snd r)))"

definition service_SaveSyncState ::
  "'b sph_env \<Rightarrow> 'g gtid_env \<Rightarrow> 'g masterState \<Rightarrow> ('b SphinxService, unit) call" where
  "service_SaveSyncState S G m s =
     (if svc_closed s \<and> svc_sph s \<noteq> Some [] \<and> svc_sph s \<noteq> None
      then (s, Inl (Panics (PanicMsg ''send on closed channel'')))
      else (let r = SphinxService_SaveSyncState S G (svc_sph s) m
            in (s\<lparr>svc_sph := fst r, svc_fatal := svc_fatal s @ fst (snd r)\<rparr>, snd (snd r))))"

subsection \<open>All indexes (river.go)\<close>

type_synonym index_parts = "(string \<times> 16 word) list"

text \<open>The names of the indexes that are not ready, in the order in which the map is traversed.\<close>

fun not_ready ::
  "'b sph_env \<Rightarrow> index_parts \<Rightarrow> ('b SphinxService, string list) call" where
  "not_ready S [] = returnS (Inr [])"
| "not_ready S ((index, parts) # rest) =
     bindS (SphinxService_IndexIsReady S index parts) (\<lambda>ok.
     bindS (not_ready S rest) (\<lambda>indexes. returnS (Inr (if ok then indexes else index # indexes))))"

definition checkAllIndexesReady ::
  "'b sph_env \<Rightarrow> bool \<Rightarrow> index_parts \<Rightarrow> ('b SphinxService, unit) call" where
  "checkAllIndexesReady S skipSphIndexCheck dataSource =
     (if skipSphIndexCheck then returnS (Inr ())
      else bindS (not_ready S dataSource) (\<lambda>indexes.
        if indexes = [] then returnS (Inr ()) else returnS (Inl (Fails ErrIndexesNotReady))))"

text \<open>The periodic job: errors are logged and the next index is checked; a panic is not recovered.\<close>

fun checkAllIndexesForOptimize ::
  "'b sph_env \<Rightarrow> 64 word \<Rightarrow> index_parts \<Rightarrow> 'b SphinxService \<Rightarrow> 'b SphinxService \<times> go_panic option" where
  "checkAllIndexesForOptimize S maxRAMChunkBytes [] s = (s, None)"
| "checkAllIndexesForOptimize S maxRAMChunkBytes ((index, parts) # rest) s =
     (case SphinxService_CheckIndexForOptimize S maxRAMChunkBytes index parts s of
        (s', Inl (Panics p)) \<Rightarrow> (s', Some p)
      | (s', _) \<Rightarrow> checkAllIndexesForOptimize S maxRAMChunkBytes rest s')"

end
