(* ===== verification/Connections_Correct.thy ===== *)
theory Connections_Correct
  imports Connections
begin

text \<open>
  What the connections promise: one answer per request, all connections or an error, and what a
  request meets after the connections were closed.
\<close>

subsection \<open>Serving\<close>

lemma sph_result_not_Fails: "sph_result f r \<noteq> Inl (Fails e)"
  by (auto simp: sph_result_def split: sum.splits fault.splits)

lemma serve_request_not_Fails: "snd (serve_request S G req c) \<noteq> Inl (Fails e)"
  by (cases req) (auto simp: answer_def Let_def sph_result_not_Fails)

lemma serve_requests_answers:
  "serve_requests S G reqs c = (c', rs, None) \<Longrightarrow> length rs = length reqs"
proof (induction reqs arbitrary: c c' rs)
  case (Cons req reqs)
  show ?case
  proof (cases "snd (serve_request S G req c)")
    case (Inl f)
    with Cons.prems serve_request_not_Fails[of S G req c] show ?thesis by (cases f) (auto simp: Let_def)
  next
    case (Inr res)
    then obtain c1 rs1 where "serve_requests S G reqs (fst (serve_request S G req c)) = (c1, rs1, None)"
      and "rs = res # rs1"
      using Cons.prems by (cases "serve_requests S G reqs (fst (serve_request S G req c))") (auto simp: Let_def)
    with Cons.IH show ?thesis by simp
  qed
qed simp

subsection \<open>Opening\<close>

lemma connect_loop_opened:
  "connect_loop S settings addrs = (cs, r) \<Longrightarrow>
   map conn_addr cs = map fst (take (length cs) addrs) \<and> length cs \<le> length addrs \<and>
   (\<forall>c\<in>set cs. conn_maxRetries c = 5 \<and> conn_attempts c = 0 \<and>
      conn_DisconnectRetryDelay c = cs_DisconnectRetryDelay settings \<and>
      conn_OverloadRetryDelay c = cs_OverloadRetryDelay settings \<and>
      (\<exists>port. SplitHostPort (conn_addr c) = Inr (conn_hostname c, port))) \<and>
   (r = Inr () \<longleftrightarrow> length cs = length addrs)"
proof (induction addrs arbitrary: cs r)
  case (Cons ab addrs)
  obtain addr b where ab: "ab = (addr, b)" by (cases ab)
  show ?case
  proof (cases "SplitHostPort addr")
    case (Inl e)
    with Cons.prems ab show ?thesis by auto
  next
    case (Inr hp)
    show ?thesis
    proof (cases "snd (Connect S addr b)")
      case (Inl e)
      with Cons.prems ab Inr show ?thesis by (auto simp: Let_def)
    next
      case (Inr u)
      obtain more r' where more: "connect_loop S settings addrs = (more, r')"
        by (cases "connect_loop S settings addrs")
      from Cons.IH[OF more] Cons.prems show ?thesis
        using \<open>SplitHostPort addr = Inr hp\<close> Inr ab more by (cases hp) (auto simp: Let_def)
    qed
  qed
qed simp

subsection \<open>Checking all indexes\<close>

text \<open>The reference: ask index after index and stop at the first one that is not ready.\<close>

definition index_ready :: "'b sph_env \<Rightarrow> string \<times> 16 word \<Rightarrow> ('b SphinxService, unit) call" where
  "index_ready S ip =
     bindS (SphinxService_IndexIsReady S (fst ip) (snd ip))
       (\<lambda>ok. returnS (if ok then Inr () else Inl (Fails ErrIndexesNotReady)))"

lemma not_ready_none:
  "not_ready S ds s = (s', Inr []) \<longleftrightarrow> runs (index_ready S) ds s = Some s'"
proof (induction ds arbitrary: s)
  case (Cons ip ds)
  obtain index parts where ip: "ip = (index, parts)" by (cases ip)
  show ?case
  proof (cases "SphinxService_IndexIsReady S index parts s")
    case (Pair t r)
    show ?thesis
    proof (cases r)
      case (Inl e)
      with Pair ip show ?thesis by (simp add: index_ready_def bindS_cases)
    next
      case (Inr ok)
      then show ?thesis
        using Pair ip Cons.IH[of t]
        by (cases "not_ready S ds t")
          (auto simp: index_ready_def bindS_cases returnS_def split: sum.splits)
    qed
  qed
qed (auto simp: returnS_def)


subsection \<open>After closing\<close>

lemma on_closed:
  "svc_closed s \<Longrightarrow> sph \<noteq> [] \<Longrightarrow>
   on_connections f sph s = (s, Inl (Panics (PanicMsg ''send on closed channel'')))"
  by (simp add: on_connections_def)

definition sample_settings :: ConnSettings where
  "sample_settings = \<lparr>cs_DisconnectRetryDelay = 1, cs_OverloadRetryDelay = 60\<rparr>"

subsection \<open>Properties\<close>

text \<open>
  Connecting to the backends: the connections opened are those of a prefix of the address list, in
  its order, each with the host of its address, the configured delays, five retries and no attempt
  counted; all of the list is returned, or an error and no connection at all, although the ones opened
  before the error keep running.
\<close>

theorem ConnectMany_connections:
  "map conn_addr (fst (connect_loop S settings addrs)) =
     map fst (take (length (fst (connect_loop S settings addrs))) addrs) \<and>
   (\<forall>c. c \<in> set (fst (connect_loop S settings addrs)) \<longrightarrow> conn_maxRetries c = 5 \<and> conn_attempts c = 0 \<and>
      conn_DisconnectRetryDelay c = cs_DisconnectRetryDelay settings \<and>
      conn_OverloadRetryDelay c = cs_OverloadRetryDelay settings \<and>
      (\<exists>port. SplitHostPort (conn_addr c) = Inr (conn_hostname c, port))) \<and>
   ConnectMany S settings addrs =
     (if length (fst (connect_loop S settings addrs)) = length addrs
      then Inr (fst (connect_loop S settings addrs))
      else Inl (projl (snd (connect_loop S settings addrs))))"
proof -
  obtain cs r where r: "connect_loop S settings addrs = (cs, r)" by (cases "connect_loop S settings addrs")
  from connect_loop_opened[OF r] show ?thesis
    by (cases r) (auto simp: r ConnectMany_def)
qed

theorem ConnectMany_connections_witness:
  "map conn_addr (fst (connect_loop down_env sample_settings [(''h:9306'', ())])) = [] \<and>
   ConnectMany down_env sample_settings [(''h:9306'', ())] = Inl (Fails (ErrExternal ''connection refused''))"
proof -
  have "fst (connect_loop down_env sample_settings [(''h:9306'', ())]) = []"
    and "snd (connect_loop down_env sample_settings [(''h:9306'', ())]) = Inl (Fails (ErrExternal ''connection refused''))"
    by code_simp+
  with ConnectMany_connections[of down_env sample_settings "[(''h:9306'', ())]"] show ?thesis by simp
qed

text \<open>
  The goroutine of a connection answers every request: as long as no handler panics it sends
  one result per request, and after the request channel is closed it closes the connection.
\<close>

theorem one_answer_per_request:
  assumes "startExecLoop S G reqs c = (c', rs, None)"
  shows "length rs = length reqs \<and>
    (\<exists>d. serve_requests S G reqs c = (d, rs, None) \<and> conn_backend c' = fst (se_close S (conn_backend d)))"
proof -
  obtain d where d: "serve_requests S G reqs c = (d, rs, None)"
    and c': "c' = d\<lparr>conn_backend := fst (se_close S (conn_backend d))\<rparr>"
    using assms by (cases "serve_requests S G reqs c") (auto simp: startExecLoop_def Let_def)
  with serve_requests_answers[OF d] show ?thesis by simp
qed

theorem one_answer_per_request_witness:
  "length (fst (snd (startExecLoop down_env text_gtid [OtherReq ''x''] (sample_conn ())))) = 1"
proof -
  have "snd (snd (startExecLoop down_env text_gtid [OtherReq ''x''] (sample_conn ()))) = None" by code_simp
  then have "startExecLoop down_env text_gtid [OtherReq ''x''] (sample_conn ()) =
      (fst (startExecLoop down_env text_gtid [OtherReq ''x''] (sample_conn ())),
       fst (snd (startExecLoop down_env text_gtid [OtherReq ''x''] (sample_conn ()))), None)"
    by (metis prod.collapse)
  from one_answer_per_request[OF this] show ?thesis by simp
qed

text \<open>
  Requests after the connections were closed: stopping the service leaves its list of connections in
  place, so the test for closed connections never fires, and the next readiness check, optimization,
  load or save panics on the closed channel. In the periodic job nothing recovers the panic.
\<close>

theorem closed_connections_panic:
  assumes "svc_sph s = Some (c # cs)"
  shows "snd (SphinxService_IndexIsReady S index parts (SphinxService_disconnect s)) =
      Inl (Panics (PanicMsg ''send on closed channel'')) \<and>
    snd (SphinxService_CheckIndexForOptimize S m index parts (SphinxService_disconnect s)) =
      Inl (Panics (PanicMsg ''send on closed channel'')) \<and>
    snd (snd (service_LoadSyncState S G False ma (SphinxService_disconnect s))) =
      Inl (Panics (PanicMsg ''send on closed channel'')) \<and>
    snd (checkAllIndexesForOptimize S m ((index, parts) # rest) (SphinxService_disconnect s)) =
      Some (PanicMsg ''send on closed channel'')"
  using assms
  by (simp add: SphinxService_disconnect_def SphinxService_IndexIsReady_def
      SphinxService_CheckIndexForOptimize_def service_LoadSyncState_def on_closed annotateS_def
      annotateR_def Let_def)

theorem closed_connections_panic_witness:
  "snd (SphinxService_IndexIsReady down_env ''i'' 1
     (SphinxService_disconnect \<lparr>svc_sph = Some [sample_conn ()], svc_closed = False, svc_fatal = []\<rparr>)) =
   Inl (Panics (PanicMsg ''send on closed channel''))"
proof -
  have "svc_sph \<lparr>svc_sph = Some [sample_conn ()], svc_closed = False, svc_fatal = []\<rparr> = Some [sample_conn ()]"
    by simp
  from conjunct1[OF closed_connections_panic[OF this, where G = text_gtid]] show ?thesis .
qed

text \<open>
  C32. The readiness check over all indexes succeeds exactly when asking them one by one finds every
  index ready, and then leaves the connections as that does.
\<close>

theorem checkAllIndexesReady_reference:
  "checkAllIndexesReady S False dataSource s = (s', Inr ()) \<longleftrightarrow>
   runs (index_ready S) dataSource s = Some s'"
  using not_ready_none[of S dataSource s s']
  by (cases "not_ready S dataSource s")
    (auto simp: checkAllIndexesReady_def bindS_cases returnS_def split: sum.splits)

end
