(* ===== verification/Supervision.thy ===== *)
theory Supervision
  imports Connections
begin

text \<open>
  The life of the river: \<open>Serve\<close>, \<open>Stop\<close> and the sync routine of \<open>src/river/river.go\<close>, which register
  services with a supervisor and remove them, and the two handlers of \<open>status.go\<close> that start and stop
  synchronization. The supervisor is suture's: what it returns is a parameter, the calls made to it are recorded.
\<close>

subsection \<open>Services and the supervisor\<close>

datatype service = SphinxSvc | CronSvc | NatsSvc | SyncSvc | CanalSvc

datatype sup_call =
    ServeBackground
  | AddCall service nat
  | RemoveCall service nat int
  | StopCall

text \<open>\<open>Add\<close> returns a token; the error of \<open>RemoveAndWait\<close> is only logged.\<close>

type_synonym sup_env = "sup_call list \<Rightarrow> service \<Rightarrow> nat"

record river_config =
  rc_settings :: ConnSettings
  rc_SkipSphSyncState :: bool
  rc_SkipSphIndexCheck :: bool
  rc_DataSource :: index_parts
  rc_MaxRAMChunkBytes :: "64 word"
  rc_UseGTID :: bool
  rc_ReplayFullBinlog :: bool

text \<open>The five token fields of the river are one function here; a nil token is \<open>None\<close>.\<close>

record ('b, 'g) River =
  rv_isRunning :: bool
  rv_cancelled :: bool
  rv_token :: "service \<Rightarrow> nat option"
  rv_sphinxService :: "'b SphinxService"
  rv_master :: "'g masterState"
  rv_sup :: "sup_call list"
  rv_FatalErrC :: "go_error list"

definition canalServiceStopTimeout :: int where "canalServiceStopTimeout = 10000000000"
definition cronServiceStopTimeout :: int where "cronServiceStopTimeout = 10000000000"
definition sphinxServiceStopTimeout :: int where "sphinxServiceStopTimeout = 10000000000"
definition syncServiceStopTimeout :: int where "syncServiceStopTimeout = 30000000000"

definition start_service :: "sup_env \<Rightarrow> service \<Rightarrow> ('b, 'g) River \<Rightarrow> ('b, 'g) River" where
  "start_service U svc r =
     (case rv_token r svc of
        Some _ \<Rightarrow> r
      | None \<Rightarrow>
          (let t = U (rv_sup r) svc
           in r\<lparr>rv_sup := rv_sup r @ [AddCall svc t], rv_token := (rv_token r)(svc := Some t)\<rparr>))"

definition remove_service :: "service \<Rightarrow> int \<Rightarrow> ('b, 'g) River \<Rightarrow> ('b, 'g) River" where
  "remove_service svc timeout r =
     (case rv_token r svc of
        None \<Rightarrow> r
      | Some t \<Rightarrow>
          r\<lparr>rv_sup := rv_sup r @ [RemoveCall svc t timeout], rv_token := (rv_token r)(svc := None)\<rparr>)"

text \<open>
  Adding the service of the connections makes it connect, which is waited for; removing it makes it
  close the connections. \<open>net\<close> has the configured addresses with their backends at that time.
\<close>

definition start_sphinx ::
  "sup_env \<Rightarrow> 'b sph_env \<Rightarrow> river_config \<Rightarrow> (string \<times> 'b) list \<Rightarrow> ('b, 'g) River \<Rightarrow> ('b, 'g) River" where
  "start_sphinx U S cfg net r =
     (if rv_token r SphinxSvc = None
      then (start_service U SphinxSvc r)
             \<lparr>rv_sphinxService := SphinxService_connect S (rc_settings cfg) net (rv_sphinxService r)\<rparr>
      else r)"

definition remove_sphinx :: "('b, 'g) River \<Rightarrow> ('b, 'g) River" where
  "remove_sphinx r =
     (if rv_token r SphinxSvc = None then r
      else (remove_service SphinxSvc sphinxServiceStopTimeout r)
             \<lparr>rv_sphinxService := SphinxService_disconnect (rv_sphinxService r)\<rparr>)"

definition startSyncRoutine :: "sup_env \<Rightarrow> ('b, 'g) River \<Rightarrow> ('b, 'g) River" where
  "startSyncRoutine U r = start_service U CanalSvc (start_service U SyncSvc r)"

definition stopSyncRoutine :: "('b, 'g) River \<Rightarrow> ('b, 'g) River" where
  "stopSyncRoutine r =
     remove_service SyncSvc syncServiceStopTimeout (remove_service CanalSvc canalServiceStopTimeout r)"

definition IsRunning :: "('b, 'g) River \<Rightarrow> bool" where
  "IsRunning r = rv_isRunning r"

definition IsSyncing :: "('b, 'g) River \<Rightarrow> bool" where
  "IsSyncing r \<longleftrightarrow> rv_isRunning r \<and> rv_token r SyncSvc \<noteq> None \<and> rv_token r CanalSvc \<noteq> None"

definition load_sync_state ::
  "'b sph_env \<Rightarrow> 'g gtid_env \<Rightarrow> river_config \<Rightarrow> (('b, 'g) River, unit) call" where
  "load_sync_state S G cfg r =
     (let x = service_LoadSyncState S G (rc_SkipSphSyncState cfg) (rv_master r) (rv_sphinxService r)
      in (r\<lparr>rv_sphinxService := fst x, rv_master := fst (snd x)\<rparr>, snd (snd x)))"

subsection \<open>Serving and stopping\<close>

text \<open>
  Where the goroutine of \<open>Serve\<close> is: not started, in the loop that waits for the indexes, receiving from
  \<open>done\<close>, or ended by a panic (which the supervisor recovers, to serve again).
\<close>

datatype serve_pc = NotServing | WaitingForIndexes | WaitingForDone | Crashed

text \<open>\<open>Serve\<close> up to the first sleep of the loop.\<close>

definition Serve_begin ::
  "sup_env \<Rightarrow> 'b sph_env \<Rightarrow> 'g gtid_env \<Rightarrow> river_config \<Rightarrow> (string \<times> 'b) list \<Rightarrow> ('b, 'g) River \<Rightarrow>
   ('b, 'g) River \<times> serve_pc" where
  "Serve_begin U S G cfg net r =
     (let r = r\<lparr>rv_isRunning := True, rv_cancelled := False, rv_sup := rv_sup r @ [ServeBackground]\<rparr>;
          x = load_sync_state S G cfg (start_sphinx U S cfg net r)
      in case snd x of
           Inr _ \<Rightarrow> (fst x, WaitingForIndexes)
         | Inl (Fails e) \<Rightarrow> ((fst x)\<lparr>rv_FatalErrC := rv_FatalErrC (fst x) @ [e]\<rparr>, WaitingForDone)
         | Inl p \<Rightarrow> (fst x, Crashed))"

definition run_finish :: "sup_env \<Rightarrow> ('b, 'g) River \<Rightarrow> ('b, 'g) River" where
  "run_finish U r =
     startSyncRoutine U (start_service U NatsSvc (start_service U CronSvc
       (r\<lparr>rv_master := (rv_master r)\<lparr>ms_needPositionReset := False\<rparr>\<rparr>)))"

text \<open>One turn of the loop: an error means another sleep, success the rest of \<open>run\<close>.\<close>

definition Serve_poll ::
  "sup_env \<Rightarrow> 'b sph_env \<Rightarrow> river_config \<Rightarrow> ('b, 'g) River \<Rightarrow> ('b, 'g) River \<times> serve_pc" where
  "Serve_poll U S cfg r =
     (let x = checkAllIndexesReady S (rc_SkipSphIndexCheck cfg) (rc_DataSource cfg) (rv_sphinxService r);
          r' = r\<lparr>rv_sphinxService := fst x\<rparr>
      in case snd x of
           Inr _ \<Rightarrow> (run_finish U r', WaitingForDone)
         | Inl (Fails e) \<Rightarrow> (r', WaitingForIndexes)
         | Inl p \<Rightarrow> (r', Crashed))"

text \<open>
  \<open>Stop\<close> up to the send on \<open>done\<close>, during which it holds the mutex, and the rest, after \<open>Serve\<close> has
  received.
\<close>

definition Stop_begin :: "('b, 'g) River \<Rightarrow> ('b, 'g) River" where
  "Stop_begin r =
     (let r = remove_service CronSvc cronServiceStopTimeout (stopSyncRoutine r);
          r = remove_service NatsSvc syncServiceStopTimeout (remove_sphinx (r\<lparr>rv_cancelled := True\<rparr>))
      in r\<lparr>rv_sup := rv_sup r @ [StopCall]\<rparr>)"

definition Stop_end :: "('b, 'g) River \<Rightarrow> ('b, 'g) River" where
  "Stop_end r = r\<lparr>rv_isRunning := False\<rparr>"

subsection \<open>The handlers that start and stop synchronization (status.go)\<close>

record http_request =
  rq_Method :: string
  rq_Query :: "string \<Rightarrow> string"
  rq_PostForm :: "string \<Rightarrow> string"
  rq_RemoteAddr :: string

record http_response =
  rs_ContentType :: string
  rs_Status :: nat
  rs_Body :: string

text \<open>A body without a status is sent with 200.\<close>

definition text_response :: "nat \<Rightarrow> string \<Rightarrow> http_response" where
  "text_response status body =
     \<lparr>rs_ContentType = ''text/plain; charset=utf-8'', rs_Status = status, rs_Body = body\<rparr>"

definition newline :: string where "newline = [CHR 0x0A]"

definition handleStartSync ::
  "sup_env \<Rightarrow> 'b sph_env \<Rightarrow> 'g gtid_env \<Rightarrow> river_config \<Rightarrow> (string \<times> 'b) list \<Rightarrow> http_request \<Rightarrow>
   (('b, 'g) River, http_response) call" where
  "handleStartSync U S G cfg net req r =
     (if rq_Method req \<noteq> ''POST'' then (r, Inr (text_response 405 (''unexpected method'' @ newline)))
      else if \<not> rv_isRunning r then (r, Inr (text_response 200 (''river not running'' @ newline)))
      else if IsSyncing r then (r, Inr (text_response 200 (''sync already running'' @ newline)))
      else
        (let x = load_sync_state S G cfg (start_sphinx U S cfg net r)
         in case snd x of
              Inl (Fails e) \<Rightarrow> (fst x, Inr (text_response 200 (''failed to reset GTID'' @ newline)))
            | Inl p \<Rightarrow> (fst x, Inl p)
            | Inr _ \<Rightarrow> (startSyncRoutine U (fst x), Inr (text_response 204 []))))"

definition handleStopSync :: "http_request \<Rightarrow> ('b, 'g) River \<Rightarrow> ('b, 'g) River \<times> http_response" where
  "handleStopSync req r =
     (if rq_Method req \<noteq> ''POST'' then (r, text_response 405 (''unexpected method'' @ newline))
      else if \<not> rv_isRunning r then (r, text_response 200 (''river not running'' @ newline))
      else if \<not> IsSyncing r then (r, text_response 200 (''sync not running'' @ newline))
      else (remove_sphinx (stopSyncRoutine r), text_response 204 []))"

subsection \<open>All interleavings\<close>

text \<open>
  \<open>sys_stopping\<close>: a call of \<open>Stop\<close> holds the mutex and waits to send on \<open>done\<close>. \<open>Serve\<close> (once, to set its
  flag), \<open>Stop\<close> and the handlers need the mutex; the rest of \<open>Serve\<close> does not. A replication error makes the
  canal service call \<open>Stop\<close> too.
\<close>

record ('b, 'g) system =
  sys_river :: "('b, 'g) River"
  sys_pc :: serve_pc
  sys_stopping :: bool

inductive river_step ::
  "sup_env \<Rightarrow> 'b sph_env \<Rightarrow> 'g gtid_env \<Rightarrow> river_config \<Rightarrow> ('b, 'g) system \<Rightarrow> ('b, 'g) system \<Rightarrow> bool"
  for U S G cfg where
  serve: "pc \<in> {NotServing, Crashed} \<Longrightarrow> Serve_begin U S G cfg net r = (r', pc') \<Longrightarrow>
     river_step U S G cfg \<lparr>sys_river = r, sys_pc = pc, sys_stopping = False\<rparr>
       \<lparr>sys_river = r', sys_pc = pc', sys_stopping = False\<rparr>"
| poll: "Serve_poll U S cfg r = (r', pc') \<Longrightarrow>
     river_step U S G cfg \<lparr>sys_river = r, sys_pc = WaitingForIndexes, sys_stopping = st\<rparr>
       \<lparr>sys_river = r', sys_pc = pc', sys_stopping = st\<rparr>"
| stop: "rv_isRunning r \<Longrightarrow>
     river_step U S G cfg \<lparr>sys_river = r, sys_pc = pc, sys_stopping = False\<rparr>
       \<lparr>sys_river = Stop_begin r, sys_pc = pc, sys_stopping = True\<rparr>"
| stopped: "river_step U S G cfg \<lparr>sys_river = r, sys_pc = WaitingForDone, sys_stopping = True\<rparr>
     \<lparr>sys_river = Stop_end r, sys_pc = NotServing, sys_stopping = False\<rparr>"
| start_sync: "handleStartSync U S G cfg net req r = (r', resp) \<Longrightarrow>
     river_step U S G cfg \<lparr>sys_river = r, sys_pc = pc, sys_stopping = False\<rparr>
       \<lparr>sys_river = r', sys_pc = pc, sys_stopping = False\<rparr>"
| stop_sync: "handleStopSync req r = (r', resp') \<Longrightarrow>
     river_step U S G cfg \<lparr>sys_river = r, sys_pc = pc, sys_stopping = False\<rparr>
       \<lparr>sys_river = r', sys_pc = pc, sys_stopping = False\<rparr>"
| canal_failed: "rv_isRunning r \<Longrightarrow> rv_token r CanalSvc \<noteq> None \<Longrightarrow>
     river_step U S G cfg \<lparr>sys_river = r, sys_pc = pc, sys_stopping = False\<rparr>
       \<lparr>sys_river = Stop_begin (r\<lparr>rv_master := (rv_master r)\<lparr>ms_needPositionReset := True\<rparr>\<rparr>),
        sys_pc = pc, sys_stopping = True\<rparr>"

inductive river_reach ::
  "sup_env \<Rightarrow> 'b sph_env \<Rightarrow> 'g gtid_env \<Rightarrow> river_config \<Rightarrow> ('b, 'g) system \<Rightarrow> ('b, 'g) system \<Rightarrow> bool"
  for U S G cfg s0 where
  refl: "river_reach U S G cfg s0 s0"
| step: "river_reach U S G cfg s0 s \<Longrightarrow> river_step U S G cfg s s' \<Longrightarrow> river_reach U S G cfg s0 s'"

definition initial_river :: "'g masterState \<Rightarrow> ('b, 'g) River" where
  "initial_river m =
     \<lparr>rv_isRunning = False, rv_cancelled = False, rv_token = (\<lambda>_. None), rv_sphinxService = NewSphinxService,
      rv_master = m, rv_sup = [], rv_FatalErrC = []\<rparr>"

definition initial_system :: "'g masterState \<Rightarrow> ('b, 'g) system" where
  "initial_system m = \<lparr>sys_river = initial_river m, sys_pc = NotServing, sys_stopping = False\<rparr>"

end
