(* ===== verification/Supervision_Correct.thy ===== *)
theory Supervision_Correct
  imports Supervision Connections_Correct
begin

text \<open>
  Every service is registered at most once, the two handlers implement a machine with three states,
  stopping removes everything, and what goes wrong when \<open>Stop\<close> comes while \<open>Serve\<close> waits for the indexes.
\<close>

subsection \<open>Registered services\<close>

text \<open>
  Whether a service is registered after a list of calls; \<open>None\<close> if it was added while registered or
  removed while not.
\<close>

definition track :: "service \<Rightarrow> bool option \<Rightarrow> sup_call \<Rightarrow> bool option" where
  "track svc live call =
     (case call of
        AddCall s t \<Rightarrow> if s \<noteq> svc then live else if live = Some False then Some True else None
      | RemoveCall s t d \<Rightarrow> if s \<noteq> svc then live else if live = Some True then Some False else None
      | _ \<Rightarrow> live)"

definition registered :: "service \<Rightarrow> sup_call list \<Rightarrow> bool option" where
  "registered svc calls = foldl (track svc) (Some False) calls"

lemma registered_Nil [simp]: "registered svc [] = Some False"
  and registered_snoc [simp]: "registered svc (calls @ [c]) = track svc (registered svc calls) c"
  by (simp_all add: registered_def)

definition tokens_ok :: "('b, 'g) River \<Rightarrow> bool" where
  "tokens_ok r \<longleftrightarrow> (\<forall>svc. registered svc (rv_sup r) = Some (rv_token r svc \<noteq> None))"

definition sync_pair :: "('b, 'g) River \<Rightarrow> bool" where
  "sync_pair r \<longleftrightarrow> (rv_token r SyncSvc \<noteq> None \<longleftrightarrow> rv_token r CanalSvc \<noteq> None)"

abbreviation river_ok :: "('b, 'g) River \<Rightarrow> bool" where
  "river_ok r \<equiv> tokens_ok r \<and> sync_pair r"

named_theorems river_simps \<open>fields of the river after its operations\<close>

lemma start_service_fields [river_simps]:
  "rv_isRunning (start_service U svc r) = rv_isRunning r"
  "rv_sphinxService (start_service U svc r) = rv_sphinxService r"
  "rv_master (start_service U svc r) = rv_master r"
  "(rv_token (start_service U svc r) s = None) = (s \<noteq> svc \<and> rv_token r s = None)"
  by (auto simp: start_service_def Let_def split: option.splits)

lemma remove_service_fields [river_simps]:
  "rv_isRunning (remove_service svc d r) = rv_isRunning r"
  "rv_sphinxService (remove_service svc d r) = rv_sphinxService r"
  "rv_master (remove_service svc d r) = rv_master r"
  "rv_token (remove_service svc d r) = (rv_token r)(svc := None)"
  by (auto simp: remove_service_def fun_eq_iff split: option.splits)

lemma start_service_ok: "tokens_ok r \<Longrightarrow> tokens_ok (start_service U svc r)"
  by (auto simp: tokens_ok_def start_service_def Let_def track_def split: option.splits)

lemma remove_service_ok: "tokens_ok r \<Longrightarrow> tokens_ok (remove_service svc d r)"
  by (auto simp: tokens_ok_def remove_service_def track_def split: option.splits)

lemma tokens_ok_update [simp]:
  "tokens_ok (r\<lparr>rv_sphinxService := x\<rparr>) = tokens_ok r" "sync_pair (r\<lparr>rv_sphinxService := x\<rparr>) = sync_pair r"
  "tokens_ok (r\<lparr>rv_master := m\<rparr>) = tokens_ok r" "sync_pair (r\<lparr>rv_master := m\<rparr>) = sync_pair r"
  "tokens_ok (r\<lparr>rv_isRunning := b\<rparr>) = tokens_ok r" "sync_pair (r\<lparr>rv_isRunning := b\<rparr>) = sync_pair r"
  "tokens_ok (r\<lparr>rv_cancelled := b\<rparr>) = tokens_ok r" "sync_pair (r\<lparr>rv_cancelled := b\<rparr>) = sync_pair r"
  "tokens_ok (r\<lparr>rv_FatalErrC := fs\<rparr>) = tokens_ok r" "sync_pair (r\<lparr>rv_FatalErrC := fs\<rparr>) = sync_pair r"
  "sync_pair (r\<lparr>rv_sup := cs\<rparr>) = sync_pair r"
  by (simp_all add: tokens_ok_def sync_pair_def)

lemma tokens_ok_calls [simp]:
  "tokens_ok (r\<lparr>rv_sup := rv_sup r @ [ServeBackground]\<rparr>) = tokens_ok r"
  "tokens_ok (r\<lparr>rv_sup := rv_sup r @ [StopCall]\<rparr>) = tokens_ok r"
  by (simp_all add: tokens_ok_def track_def)

lemma start_sphinx_ok: "river_ok r \<Longrightarrow> river_ok (start_sphinx U S cfg net r)"
  by (auto simp: start_sphinx_def start_service_ok) (auto simp: sync_pair_def river_simps)

lemma remove_sphinx_ok: "river_ok r \<Longrightarrow> river_ok (remove_sphinx r)"
  by (auto simp: remove_sphinx_def remove_service_ok) (auto simp: sync_pair_def river_simps)

lemma startSyncRoutine_ok: "tokens_ok r \<Longrightarrow> river_ok (startSyncRoutine U r)"
  by (auto simp: startSyncRoutine_def start_service_ok) (auto simp: sync_pair_def river_simps)

lemma stopSyncRoutine_ok: "tokens_ok r \<Longrightarrow> river_ok (stopSyncRoutine r)"
  by (auto simp: stopSyncRoutine_def remove_service_ok) (auto simp: sync_pair_def river_simps)

lemma load_sync_state_ok: "river_ok r \<Longrightarrow> river_ok (fst (load_sync_state S G cfg r))"
  by (simp add: load_sync_state_def Let_def)

lemma other_service_ok:
  "svc \<noteq> SyncSvc \<Longrightarrow> svc \<noteq> CanalSvc \<Longrightarrow> river_ok r \<Longrightarrow> river_ok (start_service U svc r)"
  "svc \<noteq> SyncSvc \<Longrightarrow> svc \<noteq> CanalSvc \<Longrightarrow> river_ok r \<Longrightarrow> river_ok (remove_service svc d r)"
  by (auto simp: start_service_ok remove_service_ok) (auto simp: sync_pair_def river_simps)

lemma Serve_begin_ok:
  assumes "Serve_begin U S G cfg net r = (r', pc)" and "river_ok r"
  shows "river_ok r'"
proof -
  let ?r = "r\<lparr>rv_isRunning := True, rv_cancelled := False, rv_sup := rv_sup r @ [ServeBackground]\<rparr>"
  have "tokens_ok ?r" using assms(2) by (simp add: tokens_ok_def track_def)
  moreover have "sync_pair ?r" using assms(2) by (simp add: sync_pair_def)
  ultimately have "river_ok (fst (load_sync_state S G cfg (start_sphinx U S cfg net ?r)))"
    by (intro load_sync_state_ok start_sphinx_ok) simp
  with assms(1) show ?thesis
    by (auto simp: Serve_begin_def Let_def split: sum.splits fault.splits)
qed

lemma Serve_poll_ok: "Serve_poll U S cfg r = (r', pc) \<Longrightarrow> river_ok r \<Longrightarrow> river_ok r'"
  by (auto simp: Serve_poll_def run_finish_def Let_def intro!: start_service_ok
      intro: conjunct1[OF startSyncRoutine_ok] conjunct2[OF startSyncRoutine_ok]
      split: sum.splits fault.splits)

lemma Stop_begin_ok: "river_ok r \<Longrightarrow> river_ok (Stop_begin r)"
proof -
  assume r: "river_ok r"
  let ?r = "remove_service CronSvc cronServiceStopTimeout (stopSyncRoutine r)"
  have "river_ok ?r" using r by (intro other_service_ok) (simp_all add: stopSyncRoutine_ok)
  then have "river_ok (remove_service NatsSvc syncServiceStopTimeout (remove_sphinx (?r\<lparr>rv_cancelled := True\<rparr>)))"
    by (intro other_service_ok remove_sphinx_ok) simp_all
  then show ?thesis by (simp add: Stop_begin_def Let_def)
qed

lemma handleStartSync_ok:
  "river_ok r \<Longrightarrow> river_ok (fst (handleStartSync U S G cfg net req r))"
  using load_sync_state_ok[OF start_sphinx_ok, of r S G cfg U S cfg net]
  by (auto simp: handleStartSync_def Let_def startSyncRoutine_ok split: sum.splits fault.splits)

lemma handleStopSync_ok: "river_ok r \<Longrightarrow> river_ok (fst (handleStopSync req r))"
  using remove_sphinx_ok[OF stopSyncRoutine_ok, of r] by (auto simp: handleStopSync_def)

lemma river_step_ok: "river_step U S G cfg s s' \<Longrightarrow> river_ok (sys_river s) \<Longrightarrow> river_ok (sys_river s')"
proof (induction rule: river_step.induct)
  case (start_sync net req r r' resp pc)
  then show ?case using handleStartSync_ok[of r U S G cfg net req] by simp
next
  case (stop_sync req r r' resp' pc)
  then show ?case using handleStopSync_ok[of r req] by simp
next
  case (canal_failed r pc)
  then show ?case using Stop_begin_ok[of "r\<lparr>rv_master := (rv_master r)\<lparr>ms_needPositionReset := True\<rparr>\<rparr>"] by simp
qed (simp_all add: Serve_begin_ok Serve_poll_ok Stop_begin_ok Stop_end_def)

lemma initial_ok: "river_ok (initial_river m)"
  by (simp add: initial_river_def tokens_ok_def sync_pair_def)


subsection \<open>The abstract machine of the handlers\<close>

datatype sync_status = Down | Idle | Syncing

definition status_of :: "('b, 'g) River \<Rightarrow> sync_status" where
  "status_of r =
     (if \<not> rv_isRunning r then Down else if rv_token r SyncSvc \<noteq> None then Syncing else Idle)"

text \<open>\<open>loaded\<close>: the synchronization state could be loaded.\<close>

fun start_spec :: "bool \<Rightarrow> sync_status \<Rightarrow> sync_status \<times> nat \<times> string" where
  "start_spec loaded Down = (Down, 200, ''river not running'' @ newline)"
| "start_spec loaded Syncing = (Syncing, 200, ''sync already running'' @ newline)"
| "start_spec loaded Idle =
     (if loaded then (Syncing, 204, []) else (Idle, 200, ''failed to reset GTID'' @ newline))"

fun stop_spec :: "sync_status \<Rightarrow> sync_status \<times> nat \<times> string" where
  "stop_spec Down = (Down, 200, ''river not running'' @ newline)"
| "stop_spec Idle = (Idle, 200, ''sync not running'' @ newline)"
| "stop_spec Syncing = (Idle, 204, [])"

lemma start_sphinx_fields [river_simps]:
  "rv_isRunning (start_sphinx U S cfg net r) = rv_isRunning r"
  "svc \<noteq> SphinxSvc \<Longrightarrow> (rv_token (start_sphinx U S cfg net r) svc = None) = (rv_token r svc = None)"
  by (simp_all add: start_sphinx_def river_simps)

lemma remove_sphinx_fields [river_simps]:
  "rv_isRunning (remove_sphinx r) = rv_isRunning r"
  "rv_token (remove_sphinx r) = (rv_token r)(SphinxSvc := None)"
  by (auto simp: remove_sphinx_def river_simps)

lemma load_sync_state_fields [river_simps]:
  "rv_isRunning (fst (load_sync_state S G cfg r)) = rv_isRunning r"
  "rv_token (fst (load_sync_state S G cfg r)) = rv_token r"
  by (simp_all add: load_sync_state_def Let_def)

lemma startSyncRoutine_fields [river_simps]:
  "rv_isRunning (startSyncRoutine U r) = rv_isRunning r"
  "(rv_token (startSyncRoutine U r) svc = None) =
     (svc \<noteq> SyncSvc \<and> svc \<noteq> CanalSvc \<and> rv_token r svc = None)"
  by (auto simp: startSyncRoutine_def river_simps)

lemma stopSyncRoutine_fields [river_simps]:
  "rv_isRunning (stopSyncRoutine r) = rv_isRunning r"
  "rv_sphinxService (stopSyncRoutine r) = rv_sphinxService r"
  "rv_token (stopSyncRoutine r) = (rv_token r)(CanalSvc := None, SyncSvc := None)"
  by (auto simp: stopSyncRoutine_def river_simps)

lemma status_of_IsSyncing: "sync_pair r \<Longrightarrow> IsSyncing r \<longleftrightarrow> status_of r = Syncing"
  by (auto simp: IsSyncing_def status_of_def sync_pair_def)

lemma start_refines:
  assumes "sync_pair r" and "rq_Method req = ''POST''"
    and "handleStartSync U S G cfg net req r = (r', Inr resp)"
  shows "\<exists>loaded. (status_of r', rs_Status resp, rs_Body resp) = start_spec loaded (status_of r)"
proof (cases "status_of r")
  case Idle
  let ?x = "load_sync_state S G cfg (start_sphinx U S cfg net r)"
  have run: "rv_isRunning r" "rv_token r SyncSvc = None" "\<not> IsSyncing r"
    using Idle assms(1) by (auto simp: status_of_def IsSyncing_def split: if_splits)
  then have status: "status_of (fst ?x) = Idle" "status_of (startSyncRoutine U (fst ?x)) = Syncing"
    by (simp_all add: status_of_def river_simps)
  show ?thesis
  proof (cases "snd ?x")
    case (Inl f)
    then have "r' = fst ?x \<and> resp = text_response 200 (''failed to reset GTID'' @ newline)"
      using assms(2,3) run by (cases f) (simp_all add: handleStartSync_def Let_def)
    with status show ?thesis by (intro exI[of _ False]) (simp add: Idle text_response_def)
  next
    case (Inr u)
    then have "r' = startSyncRoutine U (fst ?x) \<and> resp = text_response 204 []"
      using assms(2,3) run by (simp add: handleStartSync_def Let_def)
    with status show ?thesis by (intro exI[of _ True]) (simp add: Idle text_response_def)
  qed
next
  case Down
  with assms show ?thesis
    by (auto simp: handleStartSync_def status_of_def text_response_def split: if_splits)
next
  case Syncing
  moreover have "IsSyncing r" using Syncing assms(1) by (simp add: status_of_IsSyncing)
  ultimately show ?thesis using assms
    by (auto simp: handleStartSync_def status_of_def text_response_def split: if_splits)
qed

lemma stop_refines:
  assumes "sync_pair r" and "rq_Method req = ''POST''"
  shows "(status_of (fst (handleStopSync req r)), rs_Status (snd (handleStopSync req r)),
      rs_Body (snd (handleStopSync req r))) = stop_spec (status_of r)"
  using assms
  by (auto simp: handleStopSync_def status_of_def IsSyncing_def sync_pair_def text_response_def river_simps)

subsection \<open>Stopping\<close>

lemma Stop_begin_tokens: "rv_token (Stop_begin r) = (\<lambda>_. None)"
proof
  fix svc show "rv_token (Stop_begin r) svc = None"
    by (cases svc) (simp_all add: Stop_begin_def Let_def river_simps)
qed

lemma Stop_begin_sphinx:
  "rv_sphinxService (Stop_begin r) =
     (if rv_token r SphinxSvc = None then rv_sphinxService r else SphinxService_disconnect (rv_sphinxService r))"
  by (simp add: Stop_begin_def Let_def river_simps remove_sphinx_def)

inductive_cases stopping_stepE:
  "river_step U S G cfg \<lparr>sys_river = r, sys_pc = pc, sys_stopping = True\<rparr> s'"

lemma stopping_steps:
  assumes "river_step U S G cfg \<lparr>sys_river = r, sys_pc = pc, sys_stopping = True\<rparr> s'"
  shows "pc = WaitingForIndexes \<and>
       s' = \<lparr>sys_river = fst (Serve_poll U S cfg r), sys_pc = snd (Serve_poll U S cfg r), sys_stopping = True\<rparr> \<or>
     pc = WaitingForDone \<and> s' = \<lparr>sys_river = Stop_end r, sys_pc = NotServing, sys_stopping = False\<rparr>"
  using assms by (rule stopping_stepE) auto

lemma poll_step:
  "river_step U S G cfg \<lparr>sys_river = r, sys_pc = WaitingForIndexes, sys_stopping = st\<rparr>
     \<lparr>sys_river = fst (Serve_poll U S cfg r), sys_pc = snd (Serve_poll U S cfg r), sys_stopping = st\<rparr>"
  by (rule river_step.poll) simp

lemma poll_after_stop:
  assumes "\<not> rc_SkipSphIndexCheck cfg" and "rc_DataSource cfg \<noteq> []"
    and "svc_sph (rv_sphinxService r) = Some (c # cs)" and "rv_token r SphinxSvc \<noteq> None"
  shows "snd (Serve_poll U S cfg (Stop_begin r)) = Crashed"
proof -
  obtain i p rest where ds: "rc_DataSource cfg = (i, p) # rest"
    using assms(2) by (cases "rc_DataSource cfg") auto
  have "svc_sph (rv_sphinxService (Stop_begin r)) = Some (c # cs)" "svc_closed (rv_sphinxService (Stop_begin r))"
    using assms(3,4) by (auto simp: Stop_begin_sphinx SphinxService_disconnect_def)
  then have "snd (checkAllIndexesReady S False (rc_DataSource cfg) (rv_sphinxService (Stop_begin r))) =
      Inl (Panics (PanicMsg ''send on closed channel''))"
    by (simp add: checkAllIndexesReady_def ds bindS_cases SphinxService_IndexIsReady_def on_closed)
  then show ?thesis using assms(1) by (simp add: Serve_poll_def Let_def)
qed


subsection \<open>Samples\<close>

definition sample_river_config :: "bool \<Rightarrow> river_config" where
  "sample_river_config skipCheck =
     \<lparr>rc_settings = sample_settings, rc_SkipSphSyncState = True, rc_SkipSphIndexCheck = skipCheck,
      rc_DataSource = [(''i'', 1)], rc_MaxRAMChunkBytes = 0, rc_UseGTID = True, rc_ReplayFullBinlog = False\<rparr>"

definition reachable_env :: "unit sph_env" where
  "reachable_env = down_env\<lparr>se_connect := (\<lambda>_ b. (b, None))\<rparr>"

abbreviation count_calls :: sup_env where
  "count_calls \<equiv> \<lambda>calls svc. length calls"

text \<open>The river after \<open>Serve\<close> has connected to one backend and waits for the indexes.\<close>

definition sample_waiting :: "bool \<Rightarrow> (unit, string) River" where
  "sample_waiting skipCheck =
     fst (Serve_begin count_calls reachable_env text_gtid (sample_river_config skipCheck)
       [(''h:9306'', ())] (initial_river (newMasterState True ''mysql'')))"

lemma sample_waiting_facts:
  "rv_isRunning (sample_waiting skipCheck) \<and> rv_token (sample_waiting skipCheck) SphinxSvc \<noteq> None"
  by (cases skipCheck) (simp_all only:, code_simp+)

lemma sample_waiting_sph: "\<exists>c. svc_sph (rv_sphinxService (sample_waiting skipCheck)) = Some [c]"
proof -
  have "map_option length (svc_sph (rv_sphinxService (sample_waiting skipCheck))) = Some 1"
    by (cases skipCheck) (simp_all only:, code_simp+)
  then obtain cs where "svc_sph (rv_sphinxService (sample_waiting skipCheck)) = Some cs" "length cs = 1" by auto
  then show ?thesis by (cases cs) auto
qed

subsection \<open>Properties\<close>





text \<open>
  Stopping a river that has finished starting takes effect: \<open>Stop\<close> and the end of \<open>Serve\<close> lead to a river that
  is not running, with no service registered and its connections closed.
\<close>

theorem stop_removes_services:
  assumes "rv_isRunning r" and "\<forall>svc. registered svc (rv_sup r) = Some (rv_token r svc \<noteq> None)"
  shows "\<exists>r'. river_step U S G cfg \<lparr>sys_river = r, sys_pc = WaitingForDone, sys_stopping = False\<rparr>
        \<lparr>sys_river = Stop_begin r, sys_pc = WaitingForDone, sys_stopping = True\<rparr> \<and>
      river_step U S G cfg \<lparr>sys_river = Stop_begin r, sys_pc = WaitingForDone, sys_stopping = True\<rparr>
        \<lparr>sys_river = r', sys_pc = NotServing, sys_stopping = False\<rparr> \<and>
      \<not> rv_isRunning r' \<and> (\<forall>svc. rv_token r' svc = None \<and> registered svc (rv_sup r') = Some False)"
proof -
  have "tokens_ok r" using assms(2) by (simp add: tokens_ok_def)
  then have "tokens_ok (Stop_begin r)"
    unfolding Stop_begin_def Let_def
    by (simp add: remove_service_ok stopSyncRoutine_ok remove_sphinx_def)
  then have "\<forall>svc. rv_token (Stop_end (Stop_begin r)) svc = None \<and>
      registered svc (rv_sup (Stop_end (Stop_begin r))) = Some False"
    by (simp add: tokens_ok_def Stop_begin_tokens Stop_end_def)
  moreover have "\<not> rv_isRunning (Stop_end (Stop_begin r))" by (simp add: Stop_end_def)
  ultimately show ?thesis using river_step.stop[OF assms(1)] river_step.stopped by blast
qed

theorem stop_removes_services_witness:
  "\<exists>r'. river_step count_calls down_env text_gtid (sample_river_config False)
      \<lparr>sys_river = Stop_begin ((initial_river (newMasterState True ''mysql''))\<lparr>rv_isRunning := True\<rparr>),
       sys_pc = WaitingForDone, sys_stopping = True\<rparr>
      \<lparr>sys_river = r', sys_pc = NotServing, sys_stopping = False\<rparr> \<and> \<not> rv_isRunning r'"
proof -
  let ?r = "(initial_river (newMasterState True ''mysql''))\<lparr>rv_isRunning := True\<rparr> :: (unit, string) River"
  have "rv_isRunning ?r" and "\<forall>svc. registered svc (rv_sup ?r) = Some (rv_token ?r svc \<noteq> None)"
    by (simp_all add: initial_river_def)
  from stop_removes_services[OF this, of count_calls down_env text_gtid "sample_river_config False"]
  show ?thesis by blast
qed

text \<open>
  C33. \<open>Stop\<close> while \<open>Serve\<close> waits for the indexes is a deadlock: the connections are closed, the next readiness check
  panics on them, and then nothing can happen any more: \<open>Stop\<close> keeps the mutex and waits for \<open>Serve\<close>, which is
  gone and cannot be served again without the mutex.
\<close>

theorem stop_while_waiting_deadlocks:
  assumes "rv_isRunning r" and "\<not> rc_SkipSphIndexCheck cfg" and "rc_DataSource cfg \<noteq> []"
    and "svc_sph (rv_sphinxService r) = Some (c # cs)" and "rv_token r SphinxSvc \<noteq> None"
  shows "\<exists>r1. river_step U S G cfg \<lparr>sys_river = r, sys_pc = WaitingForIndexes, sys_stopping = False\<rparr>
        \<lparr>sys_river = Stop_begin r, sys_pc = WaitingForIndexes, sys_stopping = True\<rparr> \<and>
      river_step U S G cfg \<lparr>sys_river = Stop_begin r, sys_pc = WaitingForIndexes, sys_stopping = True\<rparr>
        \<lparr>sys_river = r1, sys_pc = Crashed, sys_stopping = True\<rparr> \<and>
      (\<nexists>s. river_step U S G cfg \<lparr>sys_river = r1, sys_pc = Crashed, sys_stopping = True\<rparr> s)"
proof -
  have "snd (Serve_poll U S cfg (Stop_begin r)) = Crashed"
    using poll_after_stop[OF assms(2-5)] .
  with poll_step[of U S G cfg "Stop_begin r" True] stopping_steps river_step.stop[OF assms(1)]
  show ?thesis by (metis serve_pc.distinct(11) serve_pc.distinct(9))
qed

theorem stop_while_waiting_deadlocks_witness:
  "\<exists>r1. river_step count_calls reachable_env text_gtid (sample_river_config False)
      \<lparr>sys_river = Stop_begin (sample_waiting False), sys_pc = WaitingForIndexes, sys_stopping = True\<rparr>
      \<lparr>sys_river = r1, sys_pc = Crashed, sys_stopping = True\<rparr>"
proof -
  obtain c where c: "svc_sph (rv_sphinxService (sample_waiting False)) = Some [c]"
    using sample_waiting_sph by blast
  have "\<not> rc_SkipSphIndexCheck (sample_river_config False)" "rc_DataSource (sample_river_config False) \<noteq> []"
    by (simp_all add: sample_river_config_def)
  from stop_while_waiting_deadlocks[OF _ this c, of count_calls reachable_env text_gtid]
    sample_waiting_facts[of False] show ?thesis by blast
qed

text \<open>
  \<open>Stop\<close> while \<open>Serve\<close> sleeps before an index check that succeeds (here because the check is switched off):
  \<open>Serve\<close> goes on to register its services after \<open>Stop\<close> has removed them. The river then counts as stopped with the
  sync, canal, cron and NATS services registered, and when it is served again it takes itself for syncing and
  registers nothing (as far as the stopped supervisor accepts services at all).
\<close>

theorem stop_while_waiting_leaves_services:
  assumes "rv_isRunning r" and "rc_SkipSphIndexCheck cfg"
  shows "\<exists>z. river_reach U S G cfg \<lparr>sys_river = r, sys_pc = WaitingForIndexes, sys_stopping = False\<rparr>
        \<lparr>sys_river = z, sys_pc = NotServing, sys_stopping = False\<rparr> \<and>
      \<not> rv_isRunning z \<and> (\<forall>svc. svc \<noteq> SphinxSvc \<longrightarrow> rv_token z svc \<noteq> None) \<and>
      IsSyncing (z\<lparr>rv_isRunning := True\<rparr>) \<and> rv_sup (run_finish U z) = rv_sup z"
proof -
  let ?w = "fst (Serve_poll U S cfg (Stop_begin r))" let ?z = "Stop_end ?w"
  have pc: "snd (Serve_poll U S cfg (Stop_begin r)) = WaitingForDone"
    and w: "?w = run_finish U (Stop_begin r)"
    using assms(2) by (simp_all add: Serve_poll_def checkAllIndexesReady_def returnS_def)
  have "river_reach U S G cfg \<lparr>sys_river = r, sys_pc = WaitingForIndexes, sys_stopping = False\<rparr>
      \<lparr>sys_river = ?z, sys_pc = NotServing, sys_stopping = False\<rparr>"
    by (rule river_reach.step[OF river_reach.step[OF river_reach.step[OF river_reach.refl
          river_step.stop[OF assms(1)]] poll_step[of U S G cfg "Stop_begin r" True, unfolded pc]]
          river_step.stopped])
  moreover have tokens: "\<forall>svc. svc \<noteq> SphinxSvc \<longrightarrow> rv_token ?z svc \<noteq> None"
  proof (intro allI impI)
    fix svc assume "svc \<noteq> SphinxSvc"
    then show "rv_token ?z svc \<noteq> None"
      unfolding w run_finish_def Stop_end_def by (cases svc) (simp_all add: river_simps)
  qed
  moreover have "rv_sup (run_finish U ?z) = rv_sup ?z"
  proof -
    have "\<exists>a b c d. rv_token ?z CronSvc = Some a \<and> rv_token ?z NatsSvc = Some b \<and>
        rv_token ?z SyncSvc = Some c \<and> rv_token ?z CanalSvc = Some d"
      using tokens by (metis option.exhaust_sel service.distinct)
    then show ?thesis by (auto simp: run_finish_def startSyncRoutine_def start_service_def)
  qed
  ultimately show ?thesis
    by (intro exI[of _ ?z]) (simp add: IsSyncing_def Stop_end_def)
qed

theorem stop_while_waiting_leaves_services_witness:
  "\<exists>z. river_reach count_calls reachable_env text_gtid (sample_river_config True)
      \<lparr>sys_river = sample_waiting True, sys_pc = WaitingForIndexes, sys_stopping = False\<rparr>
      \<lparr>sys_river = z, sys_pc = NotServing, sys_stopping = False\<rparr> \<and> \<not> rv_isRunning z \<and> rv_token z SyncSvc \<noteq> None"
proof -
  have "rc_SkipSphIndexCheck (sample_river_config True)" by (simp add: sample_river_config_def)
  from stop_while_waiting_leaves_services[OF _ this, of "sample_waiting True" count_calls reachable_env text_gtid]
    sample_waiting_facts[of True] show ?thesis by blast
qed

end
