(* ===== verification/Path_Text.thy ===== *)
theory Path_Text
  imports Go_Text
begin

text \<open>
  What the configuration uses of Go's \<open>os\<close>, \<open>path/filepath\<close> and \<open>strings\<close>: \<open>os.ExpandEnv\<close>,
  \<open>filepath.Join\<close> on slash-separated paths, \<open>strings.Index\<close> and \<open>strings.Replace\<close> of the first
  occurrence.
\<close>

subsection \<open>Expanding variables\<close>

definition is_special_var :: "char \<Rightarrow> bool" where
  "is_special_var c \<longleftrightarrow> c \<in> set ''*#$@!?-0123456789''"

definition is_alpha_num :: "char \<Rightarrow> bool" where
  "is_alpha_num c \<longleftrightarrow>
     (let k = of_char c :: nat
      in k = 95 \<or> 48 \<le> k \<and> k \<le> 57 \<or> 97 \<le> k \<and> k \<le> 122 \<or> 65 \<le> k \<and> k \<le> 90)"

text \<open>
  \<open>getShellName\<close> on the non-empty text behind a dollar sign: the name and how much text it takes.
  An empty name that takes text is bad syntax and is dropped; one that takes none leaves the dollar sign.
\<close>

definition getShellName :: "string \<Rightarrow> string \<times> nat" where
  "getShellName s =
     (case s of
        [] \<Rightarrow> ([], 0)
      | c # rest \<Rightarrow>
          if c = CHR ''{''
          then (if length s > 2 \<and> is_special_var (s ! 1) \<and> s ! 2 = CHR ''}'' then ([s ! 1], 3)
                else if CHR ''}'' \<in> set rest
                then (let name = takeWhile (\<lambda>x. x \<noteq> CHR ''}'') rest in (name, length name + 2))
                else ([], 1))
          else if is_special_var c then ([c], 1)
          else (let name = takeWhile is_alpha_num s in (name, length name)))"

function expand :: "(string \<Rightarrow> string) \<Rightarrow> string \<Rightarrow> string" where
  "expand mapping [] = []"
| "expand mapping (c # s) =
     (if c = CHR ''$'' \<and> s \<noteq> []
      then (let nw = getShellName s
            in (if fst nw = [] then (if snd nw > 0 then [] else [c]) else mapping (fst nw)) @
               expand mapping (drop (snd nw) s))
      else c # expand mapping s)"
  by pat_completeness auto
termination
  by (relation "measure (\<lambda>(m, s). length s)") auto

definition ExpandEnv :: "(string \<Rightarrow> string) \<Rightarrow> string \<Rightarrow> string" where
  "ExpandEnv getenv s = expand getenv s"

lemma expand_no_dollar: "CHR ''$'' \<notin> set s \<Longrightarrow> expand m s = s"
  by (induction s) auto

lemma expand_append_plain: "CHR ''$'' \<notin> set p \<Longrightarrow> expand m (p @ s) = p @ expand m s"
  by (induction p) auto

lemma expand_braced:
  assumes "name \<noteq> []" and "CHR ''}'' \<notin> set name" and "CHR ''$'' \<notin> set p"
  shows "expand m (p @ ''${'' @ name @ ''}'' @ s) = p @ m name @ expand m s"
proof -
  let ?t = "CHR ''{'' # name @ CHR ''}'' # s"
  have tw: "takeWhile (\<lambda>x. x \<noteq> CHR ''}'') (name @ CHR ''}'' # s) = name"
    using assms(2) by (auto simp: takeWhile_append)
  have special: "getShellName ?t = (name, length name + 2)"
  proof (cases "length name = 1")
    case True
    then obtain x where "name = [x]" by (cases name) auto
    with tw show ?thesis by (auto simp: getShellName_def)
  next
    case False
    with assms(1) obtain x y zs where "name = x # y # zs" by (cases name; cases "tl name") auto
    with tw assms(2) show ?thesis by (auto simp: getShellName_def Let_def)
  qed
  have "expand m (CHR ''$'' # ?t) = m name @ expand m s"
    using assms(1) by (simp add: special)
  then show ?thesis using expand_append_plain[OF assms(3), of m] by simp
qed

subsection \<open>Paths\<close>

text \<open>The components of \<open>filepath.Clean\<close>, last one first.\<close>

definition clean_step :: "bool \<Rightarrow> string list \<Rightarrow> string \<Rightarrow> string list" where
  "clean_step rooted acc part =
     (if part = [] \<or> part = ''.'' then acc
      else if part = ''..''
      then (case acc of
              a # rest \<Rightarrow> if a = ''..'' then part # acc else rest
            | [] \<Rightarrow> if rooted then [] else [part])
      else part # acc)"

definition filepath_Clean :: "string \<Rightarrow> string" where
  "filepath_Clean p =
     (let rooted = has_prefix p ''/'';
          comps = rev (foldl (clean_step rooted) [] (split_on (CHR ''/'') p));
          body = (if rooted then ''/'' else []) @ join ''/'' comps
      in if body = [] then ''.'' else body)"

definition filepath_Join :: "string list \<Rightarrow> string" where
  "filepath_Join elems =
     (case dropWhile (\<lambda>e. e = []) elems of
        [] \<Rightarrow> []
      | es \<Rightarrow> filepath_Clean (join ''/'' es))"

lemma filepath_Clean_nonempty [simp]: "filepath_Clean p \<noteq> []"
  by (simp add: filepath_Clean_def Let_def)

lemma filepath_Join_nonempty: "\<exists>e\<in>set elems. e \<noteq> [] \<Longrightarrow> filepath_Join elems \<noteq> []"
  by (auto simp: filepath_Join_def dropWhile_eq_Nil_conv split: list.splits)

subsection \<open>Searching\<close>

fun str_index :: "string \<Rightarrow> string \<Rightarrow> nat option" where
  "str_index [] p = (if p = [] then Some 0 else None)"
| "str_index (c # s) p =
     (if has_prefix (c # s) p then Some 0 else map_option Suc (str_index s p))"

definition replace_first :: "string \<Rightarrow> string \<Rightarrow> string \<Rightarrow> string" where
  "replace_first s old new =
     (case str_index s old of
        None \<Rightarrow> s
      | Some i \<Rightarrow> take i s @ new @ drop (i + length old) s)"

lemma str_index_contains: "str_index s p \<noteq> None \<longleftrightarrow> str_contains s p"
  by (induction s) (auto simp: has_prefix_def)

end
