(* ===== verification/Query_Config.thy ===== *)
theory Query_Config
  imports Source_Config Path_Text
begin

text \<open>
  How the configuration reads the query of an index (\<open>parseQuery\<close> and its parts in
  \<open>src/river/config.go\<close>): the aliases of the selected columns give the fields and their types,
  the aliased tables and the column names under the selected expressions give the tables and columns
  the index depends on.

  The SQL parser is a library. Of its tree the code looks at few node types; what it sees of a node is a
  \<open>sql_node\<close>, an expression is an \<open>'x\<close>, and \<open>sql_env\<close> has the library's functions. A visitor is called
  with every node in turn by \<open>sqlparser.Walk\<close>, of which \<open>wt\<close> and \<open>wc\<close> are the two uses.
\<close>

datatype table_ref =
    is_TableName: TableName (tn_Name: string) (tn_Text: string)
  | OtherTableExpr (dump: string)

datatype sql_node =
    JoinConditionNode
  | AliasedTableNode table_ref string
  | ColNameNode string string string
  | OtherNode

datatype 'x select_expr =
    AliasedExpr (ae_Expr: 'x) (ae_As: string)
  | OtherSelectExpr string

datatype table_expr =
    FromAliased table_ref string
  | FromOther

record 'x Select =
  sel_SelectExprs :: "'x select_expr list"
  sel_From :: "table_expr list"
  sel_Where :: "'x list"

datatype 'x statement = SelectStmt "'x Select" | OtherStmt string

record ParsedQuery =
  pq_Query :: string
  pq_binds :: "(int \<times> int) list"

text \<open>
  \<open>sq_colName\<close> is the name of a bare column (\<open>*sqlparser.ColName\<close>), \<open>sq_aliased\<close> and \<open>sq_expr\<close> print an
  aliased expression and an expression, \<open>sq_new\<close> is \<open>NewParsedQuery\<close>, \<open>sq_generate\<close> is \<open>GenerateQuery\<close> with the
  document ids bound, \<open>sq_setBind\<close> is \<open>SetBindLocation\<close>.
\<close>

record 'x sql_env =
  sq_Parse :: "string \<Rightarrow> 'x statement result"
  sq_colName :: "'x \<Rightarrow> string option"
  sq_aliased :: "'x select_expr \<Rightarrow> string"
  sq_expr :: "'x \<Rightarrow> string"
  sq_new :: "'x Select \<Rightarrow> ParsedQuery"
  sq_setBind :: "int \<Rightarrow> int \<Rightarrow> ParsedQuery \<Rightarrow> ParsedQuery"
  sq_generate :: "ParsedQuery \<Rightarrow> 64 word list \<Rightarrow> string result"

subsection \<open>Selected columns\<close>

text \<open>The colon-separated halves of an alias: the field's name, which may be left out for a bare column, and its type.\<close>

definition parseSelectColumn :: "'x sql_env \<Rightarrow> 'x \<Rightarrow> string \<Rightarrow> (string \<times> string) result" where
  "parseSelectColumn Q expr alias =
     (let text = sq_aliased Q (AliasedExpr expr alias)
      in if alias = []
         then Inl (Fails (ErrMsg (''select expression '' @ squote text @ '' must have an alias'')))
         else case split_on (CHR '':'') alias of
                [name, typ] \<Rightarrow>
                  if typ = []
                  then Inl (Fails (ErrMsg (''alias '' @ squote alias @ '' in expression '' @ squote text @
                         '' must conform to '' @ squote ''[ColumnName]:ColumnType'' @ '' format'')))
                  else
                    bindR (if name \<noteq> [] then Inr name
                           else case sq_colName Q expr of
                                  Some col \<Rightarrow> Inr col
                                | None \<Rightarrow> Inl (Fails (ErrMsg (''alias '' @ squote alias @ '' in expression '' @
                                    squote text @ '' must conform to '' @ squote ''ColumnName:ColumnType'' @
                                    '' format (since the aliased expression is not a column name)''))))
                      (\<lambda>colName.
                        bindR (annotateR (''invalid column alias '' @ squote alias) (checkIndexColumnType typ))
                          (\<lambda>_. Inr (colName, typ)))
              | _ \<Rightarrow> Inl (Fails (ErrMsg (''alias '' @ squote alias @ '' in expression '' @ squote text @
                       '' must conform to '' @ squote ''[ColumnName]:ColumnType'' @ '' format''))))"

text \<open>The loop's state; \<open>qp_exprs\<close> are the expressions with their aliases replaced by the names.\<close>

record 'x query_parse =
  qp_attrFields :: "string set"
  qp_fieldList :: "IndexConfigField list"
  qp_fieldTypes :: "(string, string) amap"
  qp_docIDExpr :: "'x option"
  qp_exprs :: "'x select_expr list"

definition is_attr_type :: "string \<Rightarrow> bool" where
  "is_attr_type t \<longleftrightarrow>
     t \<in> {AttrFloat, AttrUint, AttrBigint, AttrMulti, AttrString, AttrJson, AttrBool, AttrTimestamp, AttrMulti64}"

definition parse_select_expr ::
  "'x sql_env \<Rightarrow> 'x query_parse \<Rightarrow> 'x select_expr \<Rightarrow> 'x query_parse result" where
  "parse_select_expr Q cfg expr =
     (case expr of
        OtherSelectExpr typ \<Rightarrow> Inl (Fails (ErrMsg (''expected an aliased expression, but got '' @ typ)))
      | AliasedExpr x alias \<Rightarrow>
          bindR (parseSelectColumn Q x alias) (\<lambda>nt.
            let colName = fst nt; colType = snd nt
            in if map_of (qp_fieldTypes cfg) colName \<noteq> None
               then Inl (Fails (ErrMsg (''duplicate column name '' @ squote colName)))
               else if colType = DocID \<and> qp_docIDExpr cfg \<noteq> None
               then Inl (Fails (ErrMsg (''columns '' @ squote (sq_aliased Q (AliasedExpr x colName)) @ '' and '' @
                      squote (sq_expr Q (the (qp_docIDExpr cfg))) @ '' cannot both have '' @ squote ''id'' @ '' type'')))
               else Inr \<lparr>qp_attrFields =
                        (if is_attr_type colType then insert colName (qp_attrFields cfg) else qp_attrFields cfg),
                      qp_fieldList = qp_fieldList cfg @ [\<lparr>icf_Name = colName, icf_Type = colType\<rparr>],
                      qp_fieldTypes = aput colName colType (qp_fieldTypes cfg),
                      qp_docIDExpr = (if colType = DocID then Some x else qp_docIDExpr cfg),
                      qp_exprs = qp_exprs cfg @ [AliasedExpr x colName]\<rparr>))"

definition parseSelectExpressions :: "'x sql_env \<Rightarrow> 'x Select \<Rightarrow> 'x query_parse result" where
  "parseSelectExpressions Q queryAst =
     bindR (foldR (parse_select_expr Q)
         \<lparr>qp_attrFields = {}, qp_fieldList = [], qp_fieldTypes = [], qp_docIDExpr = None, qp_exprs = []\<rparr>
         (sel_SelectExprs queryAst))
       (\<lambda>cfg. if qp_docIDExpr cfg = None
         then Inl (Fails (ErrMsg (''there should be exactly one column with '' @ squote ''id'' @
                '' type, but none found'')))
         else Inr cfg)"

definition queryHasNoFromClause :: "'x Select \<Rightarrow> bool" where
  "queryHasNoFromClause queryAst =
     (case sel_From queryAst of
        [FromAliased (TableName name text) alias] \<Rightarrow> name = ''dual''
      | _ \<Rightarrow> False)"

definition parseSelectQuery :: "'x sql_env \<Rightarrow> string \<Rightarrow> ('x Select \<times> 'x query_parse) result" where
  "parseSelectQuery Q query =
     bindR (annotateR ''failed to parse SQL query'' (sq_Parse Q query)) (\<lambda>stmt.
       case stmt of
         OtherStmt typ \<Rightarrow> Inl (Fails (ErrMsg (''expected a SELECT query, but got '' @ typ)))
       | SelectStmt queryAst \<Rightarrow>
           if queryHasNoFromClause queryAst
           then Inl (Fails (ErrMsg ''SQL query must have a FROM clause''))
           else bindR (parseSelectExpressions Q queryAst) (\<lambda>cfg.
             Inr (queryAst\<lparr>sel_SelectExprs := qp_exprs cfg\<rparr>, cfg)))"

subsection \<open>Tables and columns\<close>

type_synonym ('s, 'r) walk = "(sql_node \<Rightarrow> ('s, bool) call) \<Rightarrow> 'r \<Rightarrow> ('s, unit) call"

definition tableVisitor :: "sql_node \<Rightarrow> ((string, string) amap, bool) call" where
  "tableVisitor n tableMap =
     (case n of
        JoinConditionNode \<Rightarrow> (tableMap, Inr False)
      | AliasedTableNode t alias \<Rightarrow>
          (case t of
             OtherTableExpr d \<Rightarrow> (tableMap, Inl (Fails (ErrMsg (''expected TableName, but got '' @ d))))
           | TableName tn name \<Rightarrow>
               if alias = [] then (tableMap, Inl (Fails (ErrMsg (''no alias for table '' @ squote name))))
               else (case map_of tableMap alias of
                       Some otherName \<Rightarrow>
                         (tableMap, Inl (Fails (ErrMsg (''duplicate alias '' @ squote alias @ '' for tables '' @
                            squote otherName @ '' and '' @ squote name))))
                     | None \<Rightarrow> (aput alias name tableMap, Inr True)))
      | _ \<Rightarrow> (tableMap, Inr True))"

definition tableMapFromSelectQuery ::
  "((string, string) amap, table_expr list) walk \<Rightarrow> 'x Select \<Rightarrow> (string, string) amap result" where
  "tableMapFromSelectQuery wt e =
     (let r = wt tableVisitor (sel_From e) [] in bindR (snd r) (\<lambda>_. Inr (fst r)))"

definition columnVisitor ::
  "(string, string) amap \<Rightarrow> sql_node \<Rightarrow> ((string, string set) amap, bool) call" where
  "columnVisitor tableMap n columnMap =
     (case n of
        ColNameNode tableAlias name text \<Rightarrow>
          (if tableAlias = [] then (columnMap, Inl (Fails (ErrMsg (''no table alias in '' @ squote text))))
           else (case map_of tableMap tableAlias of
                   None \<Rightarrow> (columnMap, Inl (Fails (ErrMsg (''unknown alias '' @ squote tableAlias @ '' in '' @
                      squote text))))
                 | Some tableName \<Rightarrow>
                     (aput tableName
                        (insert name (case map_of columnMap tableName of None \<Rightarrow> {} | Some s \<Rightarrow> s)) columnMap,
                      Inr False)))
      | _ \<Rightarrow> (columnMap, Inr True))"

definition columnSetFromSelectQuery ::
  "((string, string set) amap, 'x select_expr list) walk \<Rightarrow> 'x Select \<Rightarrow> (string, string) amap \<Rightarrow>
   (string, string set) amap result" where
  "columnSetFromSelectQuery wc e tableMap =
     (let r = wc (columnVisitor tableMap) (sel_SelectExprs e) [] in bindR (snd r) (\<lambda>_. Inr (fst r)))"

subsection \<open>The whole query\<close>

definition JSON_TABLE_CHECK :: string where "JSON_TABLE_CHECK = ''join json_table as jt''"

text \<open>The replacement of the placeholder by the configured JSON table; the cleaned table text is kept.\<close>

definition insert_json_table :: "'x sql_env \<Rightarrow> string \<Rightarrow> ParsedQuery \<Rightarrow> string \<times> ParsedQuery" where
  "insert_json_table Q jsonTable tpl =
     (if length jsonTable > 10 \<and> str_contains (pq_Query tpl) JSON_TABLE_CHECK
      then
        (let jsonTable = replace_char (CHR 0x0A) [] jsonTable;
             tpl = tpl\<lparr>pq_Query := replace_first (pq_Query tpl) JSON_TABLE_CHECK jsonTable\<rparr>
         in (jsonTable,
             case str_index (pq_Query tpl) ''::doc_id_condition'' of
               None \<Rightarrow> tpl
             | Some offset \<Rightarrow> if offset > 0 then sq_setBind Q (int offset) 18 tpl else tpl))
      else (jsonTable, tpl))"

text \<open>The configured \<open>json_table\<close> comes in and goes out, since the source's field is overwritten.\<close>

definition parseQuery ::
  "'x sql_env \<Rightarrow> ((string, string) amap, table_expr list) walk \<Rightarrow>
   ((string, string set) amap, 'x select_expr list) walk \<Rightarrow> ('x \<Rightarrow> 'x Select \<Rightarrow> 'x Select) \<Rightarrow>
   string \<Rightarrow> string \<Rightarrow> (string \<times> SourceConfigDetails) result" where
  "parseQuery Q wt wc AddWhereIn query jsonTable =
     bindR (parseSelectQuery Q query) (\<lambda>(ast, cfg).
       let ast = AddWhereIn (the (qp_docIDExpr cfg)) ast in
       bindR (tableMapFromSelectQuery wt ast) (\<lambda>tables.
       bindR (columnSetFromSelectQuery wc ast tables) (\<lambda>columns.
         let jt = insert_json_table Q jsonTable (sq_new Q ast)
         in Inr (fst jt,
              \<lparr>scd_attrFields = qp_attrFields cfg, scd_fieldList = qp_fieldList cfg,
               scd_fieldTypes = qp_fieldTypes cfg, scd_queryTables = tables, scd_queryColumns = columns,
               scd_queryTpl = sq_generate Q (snd jt)\<rparr>))))"

end
