(* ===== verification/Query_Config_Correct.thy ===== *)
theory Query_Config_Correct
  imports Query_Config DB_Value
begin

text \<open>
  What an accepted query guarantees: its fields have different names and known types, exactly one is the
  document id, and, given how \<open>sqlparser.Walk\<close> is documented, its tables and columns are those of the
  visited nodes.
\<close>

subsection \<open>Fields\<close>

definition fields_ok :: "'x query_parse \<Rightarrow> bool" where
  "fields_ok cfg \<longleftrightarrow>
     qp_fieldTypes cfg = map (\<lambda>f. (icf_Name f, icf_Type f)) (qp_fieldList cfg) \<and>
     distinct (map icf_Name (qp_fieldList cfg)) \<and>
     (\<forall>f\<in>set (qp_fieldList cfg). checkIndexColumnType (icf_Type f) = Inr ()) \<and>
     length (filter (\<lambda>f. icf_Type f = DocID) (qp_fieldList cfg)) =
       (if qp_docIDExpr cfg = None then 0 else 1) \<and>
     qp_attrFields cfg = icf_Name ` {f \<in> set (qp_fieldList cfg). is_attr_type (icf_Type f)} \<and>
     map (case_select_expr (\<lambda>x a. a) (\<lambda>t. t)) (qp_exprs cfg) = map icf_Name (qp_fieldList cfg)"

lemma parseSelectColumn_type:
  "parseSelectColumn Q x al = Inr (name, ty) \<Longrightarrow> checkIndexColumnType ty = Inr ()"
  by (auto simp: parseSelectColumn_def Let_def bindR_eq_Inr annotateR_eq_Inr
      split: if_splits list.splits option.splits)

lemma parse_select_expr_ok:
  assumes "parse_select_expr Q cfg expr = Inr cfg'" and "fields_ok cfg"
  shows "fields_ok cfg' \<and> length (qp_fieldList cfg') = Suc (length (qp_fieldList cfg))"
proof -
  obtain x al name ty where nt: "expr = AliasedExpr x al" "parseSelectColumn Q x al = Inr (name, ty)"
    "map_of (qp_fieldTypes cfg) name = None" "ty \<noteq> DocID \<or> qp_docIDExpr cfg = None"
    and cfg': "cfg' = \<lparr>qp_attrFields = (if is_attr_type ty then insert name (qp_attrFields cfg) else qp_attrFields cfg),
        qp_fieldList = qp_fieldList cfg @ [\<lparr>icf_Name = name, icf_Type = ty\<rparr>],
        qp_fieldTypes = aput name ty (qp_fieldTypes cfg),
        qp_docIDExpr = (if ty = DocID then Some x else qp_docIDExpr cfg),
        qp_exprs = qp_exprs cfg @ [AliasedExpr x name]\<rparr>"
    using assms(1)
    by (auto simp: parse_select_expr_def bindR_eq_Inr Let_def split: select_expr.splits if_splits)
  note ok = assms(2)[unfolded fields_ok_def]
  have fresh: "name \<notin> icf_Name ` set (qp_fieldList cfg)"
    using nt(3) ok by (auto simp: map_of_eq_None_iff image_iff)
  have "qp_fieldTypes cfg' = map (\<lambda>f. (icf_Name f, icf_Type f)) (qp_fieldList cfg')"
    using ok nt(3) by (simp add: cfg' aput_fresh)
  moreover have "distinct (map icf_Name (qp_fieldList cfg'))"
    using ok fresh by (simp add: cfg')
  moreover have "\<forall>f\<in>set (qp_fieldList cfg'). checkIndexColumnType (icf_Type f) = Inr ()"
    using ok parseSelectColumn_type[OF nt(2)] by (simp add: cfg')
  moreover have "length (filter (\<lambda>f. icf_Type f = DocID) (qp_fieldList cfg')) = (if qp_docIDExpr cfg' = None then 0 else 1)"
    using ok nt(4) by (simp add: cfg')
  moreover have "qp_attrFields cfg' = icf_Name ` {f \<in> set (qp_fieldList cfg'). is_attr_type (icf_Type f)}"
  proof -
    have "{f \<in> set (qp_fieldList cfg'). is_attr_type (icf_Type f)} =
        {f \<in> set (qp_fieldList cfg). is_attr_type (icf_Type f)} \<union>
        (if is_attr_type ty then {\<lparr>icf_Name = name, icf_Type = ty\<rparr>} else {})"
      by (auto simp: cfg')
    then show ?thesis using ok by (simp add: cfg')
  qed
  moreover have "map (case_select_expr (\<lambda>x a. a) (\<lambda>t. t)) (qp_exprs cfg') = map icf_Name (qp_fieldList cfg')"
    using ok by (simp add: cfg')
  ultimately show ?thesis by (simp add: fields_ok_def cfg')
qed

lemma parse_select_exprs_ok:
  "foldR (parse_select_expr Q) cfg exprs = Inr cfg' \<Longrightarrow> fields_ok cfg \<Longrightarrow>
   fields_ok cfg' \<and> length (qp_fieldList cfg') = length (qp_fieldList cfg) + length exprs"
proof (induction exprs arbitrary: cfg)
  case (Cons e exprs)
  then obtain c where c: "parse_select_expr Q cfg e = Inr c" "foldR (parse_select_expr Q) c exprs = Inr cfg'"
    by (auto simp: bindR_eq_Inr)
  from parse_select_expr_ok[OF c(1) Cons.prems(2)] Cons.IH[OF c(2)] show ?case by simp
qed simp

lemma parseSelectExpressions_ok:
  assumes "parseSelectExpressions Q ast = Inr cfg"
  shows "fields_ok cfg \<and> length (qp_fieldList cfg) = length (sel_SelectExprs ast) \<and> qp_docIDExpr cfg \<noteq> None"
proof -
  let ?c0 = "\<lparr>qp_attrFields = {}, qp_fieldList = [], qp_fieldTypes = [], qp_docIDExpr = None, qp_exprs = []\<rparr>"
  have c0: "fields_ok ?c0" "length (qp_fieldList ?c0) = 0" by (simp_all add: fields_ok_def)
  from assms have "foldR (parse_select_expr Q) ?c0 (sel_SelectExprs ast) = Inr cfg" "qp_docIDExpr cfg \<noteq> None"
    by (auto simp: parseSelectExpressions_def bindR_eq_Inr split: if_splits)
  with parse_select_exprs_ok[OF _ c0(1)] c0(2) show ?thesis by fastforce
qed

subsection \<open>Walking the tree\<close>

text \<open>
  The documented behaviour of \<open>sqlparser.Walk\<close>: it calls the visitor on every node, visits the nodes
  below it if the visitor returned true, and stops at the first error.
\<close>

datatype node_tree = NodeTree sql_node "node_tree list"

fun walk_tree :: "(sql_node \<Rightarrow> ('s, bool) call) \<Rightarrow> node_tree \<Rightarrow> ('s, unit) call"
  and walk_trees :: "(sql_node \<Rightarrow> ('s, bool) call) \<Rightarrow> node_tree list \<Rightarrow> ('s, unit) call" where
  "walk_tree visit (NodeTree n ts) s =
     (case visit n s of
        (s', Inl e) \<Rightarrow> (s', Inl e)
      | (s', Inr below) \<Rightarrow> if below then walk_trees visit ts s' else (s', Inr ()))"
| "walk_trees visit [] s = (s, Inr ())"
| "walk_trees visit (t # ts) s =
     (case walk_tree visit t s of
        (s', Inl e) \<Rightarrow> (s', Inl e) | (s', Inr _) \<Rightarrow> walk_trees visit ts s')"

definition walks :: "('s, 'r) walk \<Rightarrow> ('r \<Rightarrow> node_tree list) \<Rightarrow> bool" where
  "walks w tree \<longleftrightarrow> (\<forall>visit root s. w visit root s = walk_trees visit (tree root) s)"

text \<open>The aliased tables outside join conditions and the topmost column names.\<close>

fun tables_in :: "node_tree \<Rightarrow> (table_ref \<times> string) list"
  and tables_of :: "node_tree list \<Rightarrow> (table_ref \<times> string) list" where
  "tables_in (NodeTree n ts) =
     (case n of
        JoinConditionNode \<Rightarrow> []
      | AliasedTableNode t al \<Rightarrow> (t, al) # tables_of ts
      | _ \<Rightarrow> tables_of ts)"
| "tables_of [] = []"
| "tables_of (t # ts) = tables_in t @ tables_of ts"

fun columns_in :: "node_tree \<Rightarrow> (string \<times> string) list"
  and columns_of :: "node_tree list \<Rightarrow> (string \<times> string) list" where
  "columns_in (NodeTree n ts) =
     (case n of ColNameNode al name text \<Rightarrow> [(al, name)] | _ \<Rightarrow> columns_of ts)"
| "columns_of [] = []"
| "columns_of (t # ts) = columns_in t @ columns_of ts"

definition good_tables :: "(string, string) amap \<Rightarrow> (table_ref \<times> string) list \<Rightarrow> bool" where
  "good_tables m ts \<longleftrightarrow>
     (\<forall>ta\<in>set ts. is_TableName (fst ta) \<and> snd ta \<noteq> [] \<and> map_of m (snd ta) = None) \<and>
     distinct (map snd ts)"

abbreviation table_entries :: "(table_ref \<times> string) list \<Rightarrow> (string, string) amap" where
  "table_entries ts \<equiv> map (\<lambda>ta. (snd ta, tn_Text (fst ta))) ts"

lemma good_tables_append:
  "good_tables m (ts @ us) \<longleftrightarrow> good_tables m ts \<and> good_tables (m @ table_entries ts) us"
  by (auto simp: good_tables_def map_of_append map_add_None map_of_eq_None_iff image_iff) force+

lemma tableVisitor_simps [simp]:
  "tableVisitor JoinConditionNode m = (m, Inr False)"
  "tableVisitor (ColNameNode a b c) m = (m, Inr True)"
  "tableVisitor OtherNode m = (m, Inr True)"
  by (simp_all add: tableVisitor_def)

lemma tableVisitor_aliased:
  "good_tables m [(t, al)] \<Longrightarrow> tableVisitor (AliasedTableNode t al) m = (m @ table_entries [(t, al)], Inr True)"
  "\<not> good_tables m [(t, al)] \<Longrightarrow> \<exists>e. tableVisitor (AliasedTableNode t al) m = (m, Inl e)"
  by (cases t; auto simp: tableVisitor_def good_tables_def aput_fresh split: option.splits)+

lemma walk_tables:
  "(snd (walk_tree tableVisitor t m) = Inr () \<longleftrightarrow> good_tables m (tables_in t)) \<and>
     (good_tables m (tables_in t) \<longrightarrow> fst (walk_tree tableVisitor t m) = m @ table_entries (tables_in t))"
  "(snd (walk_trees tableVisitor ts m) = Inr () \<longleftrightarrow> good_tables m (tables_of ts)) \<and>
     (good_tables m (tables_of ts) \<longrightarrow> fst (walk_trees tableVisitor ts m) = m @ table_entries (tables_of ts))"
proof (induction t and ts arbitrary: m and m rule: tables_in_tables_of.induct)
  case (1 n ts)
  have IH: "(snd (walk_trees tableVisitor ts m') = Inr () \<longleftrightarrow> good_tables m' (tables_of ts)) \<and>
     (good_tables m' (tables_of ts) \<longrightarrow> fst (walk_trees tableVisitor ts m') = m' @ table_entries (tables_of ts))"
    if "n \<noteq> JoinConditionNode" for m'
    using 1 that by (cases n) auto
  show ?case
  proof (cases n)
    case JoinConditionNode
    then show ?thesis by (simp add: good_tables_def)
  next
    case (AliasedTableNode t al)
    note split = good_tables_append[of m "[(t, al)]" "tables_of ts"]
    show ?thesis
    proof (cases "good_tables m [(t, al)]")
      case True
      with tableVisitor_aliased(1) split IH[of "m @ table_entries [(t, al)]"] show ?thesis
        by (simp add: AliasedTableNode)
    next
      case False
      with tableVisitor_aliased(2) split show ?thesis by (fastforce simp: AliasedTableNode)
    qed
  next
    case (ColNameNode a b c)
    with IH[of m] show ?thesis by simp
  next
    case OtherNode
    with IH[of m] show ?thesis by simp
  qed
next
  case 2
  then show ?case by (simp add: good_tables_def)
next
  case (3 t ts)
  show ?case
  proof (cases "walk_tree tableVisitor t m")
    case (Pair m' r)
    with 3(1)[of m] 3(2)[of m'] show ?thesis
      by (cases r) (auto simp: good_tables_append)
  qed
qed


text \<open>Columns: every one names a table that is known by its alias.\<close>

definition known_columns :: "(string, string) amap \<Rightarrow> (string \<times> string) list \<Rightarrow> bool" where
  "known_columns tm cols \<longleftrightarrow> (\<forall>c\<in>set cols. fst c \<noteq> [] \<and> map_of tm (fst c) \<noteq> None)"

definition add_column ::
  "(string, string) amap \<Rightarrow> (string, string set) amap \<Rightarrow> string \<times> string \<Rightarrow> (string, string set) amap" where
  "add_column tm m c =
     (let tb = the (map_of tm (fst c))
      in aput tb (insert (snd c) (case map_of m tb of None \<Rightarrow> {} | Some s \<Rightarrow> s)) m)"

lemma columnVisitor_simps [simp]:
  "columnVisitor tm JoinConditionNode m = (m, Inr True)"
  "columnVisitor tm (AliasedTableNode t a) m = (m, Inr True)"
  "columnVisitor tm OtherNode m = (m, Inr True)"
  by (simp_all add: columnVisitor_def)

lemma columnVisitor_col:
  "if known_columns tm [(a, nm)] then columnVisitor tm (ColNameNode a nm tx) m = (add_column tm m (a, nm), Inr False)
   else \<exists>e. columnVisitor tm (ColNameNode a nm tx) m = (m, Inl e)"
  by (auto simp: columnVisitor_def known_columns_def add_column_def split: option.splits)

lemma known_columns_append:
  "known_columns tm (xs @ ys) \<longleftrightarrow> known_columns tm xs \<and> known_columns tm ys"
  by (auto simp: known_columns_def)

lemma walk_columns:
  "(snd (walk_tree (columnVisitor tm) t m) = Inr () \<longleftrightarrow> known_columns tm (columns_in t)) \<and>
     (known_columns tm (columns_in t) \<longrightarrow>
      fst (walk_tree (columnVisitor tm) t m) = foldl (add_column tm) m (columns_in t))"
  "(snd (walk_trees (columnVisitor tm) ts m) = Inr () \<longleftrightarrow> known_columns tm (columns_of ts)) \<and>
     (known_columns tm (columns_of ts) \<longrightarrow>
      fst (walk_trees (columnVisitor tm) ts m) = foldl (add_column tm) m (columns_of ts))"
proof (induction t and ts arbitrary: m and m rule: columns_in_columns_of.induct)
  case (1 n ts)
  show ?case
  proof (cases n)
    case (ColNameNode a nm tx)
    with columnVisitor_col[of tm a nm tx m] show ?thesis by (auto split: if_splits)
  next
    case JoinConditionNode
    with 1 show ?thesis by simp
  next
    case (AliasedTableNode x y)
    with 1 show ?thesis by simp
  next
    case OtherNode
    with 1 show ?thesis by simp
  qed
next
  case 2
  then show ?case by (simp add: known_columns_def)
next
  case (3 t ts)
  show ?case
  proof (cases "walk_tree (columnVisitor tm) t m")
    case (Pair m' r)
    with 3(1)[of m] 3(2)[of m'] show ?thesis
      by (cases r) (auto simp: known_columns_append)
  qed
qed

text \<open>The columns of a table under the selected expressions.\<close>

definition columns_for :: "(string, string) amap \<Rightarrow> (string \<times> string) list \<Rightarrow> string \<Rightarrow> string set" where
  "columns_for tm cols tb = snd ` {c \<in> set cols. map_of tm (fst c) = Some tb}"

lemma add_column_lookup:
  "map_of (add_column tm m c) tb =
     (if tb = the (map_of tm (fst c))
      then Some (insert (snd c) (case map_of m tb of None \<Rightarrow> {} | Some s \<Rightarrow> s)) else map_of m tb)"
  by (simp add: add_column_def Let_def amap_simps)

lemma add_columns_lookup:
  "known_columns tm cols \<Longrightarrow>
   map_of (foldl (add_column tm) [] cols) tb =
     (if columns_for tm cols tb = {} then None else Some (columns_for tm cols tb))"
proof (induction cols rule: rev_induct)
  case (snoc c cols)
  then have known: "known_columns tm cols" and c: "map_of tm (fst c) = Some (the (map_of tm (fst c)))"
    by (auto simp: known_columns_def)
  have "columns_for tm (cols @ [c]) tb =
      (if tb = the (map_of tm (fst c)) then insert (snd c) (columns_for tm cols tb) else columns_for tm cols tb)"
    using c by (auto simp: columns_for_def)
  with snoc.IH[OF known] show ?case
    by (cases "tb = the (map_of tm (fst c))") (auto simp: add_column_lookup)
qed (simp add: columns_for_def)


subsection \<open>Properties\<close>

text \<open>
  C18. What the select list of an accepted query guarantees: one field per expression in the same order, with
  different names and types the configuration knows, exactly one of them the document id; the type map
  lists the same fields, the attributes are the fields with an attribute type, and the query's aliases have become the
  field names.
\<close>

theorem parsed_fields:
  assumes "parseSelectExpressions Q ast = Inr cfg"
  shows "length (qp_fieldList cfg) = length (sel_SelectExprs ast) \<and>
    distinct (map icf_Name (qp_fieldList cfg)) \<and>
    list_all (\<lambda>f. checkIndexColumnType (icf_Type f) = Inr ()) (qp_fieldList cfg) \<and>
    length (filter (\<lambda>f. icf_Type f = DocID) (qp_fieldList cfg)) = 1 \<and>
    qp_fieldTypes cfg = map (\<lambda>f. (icf_Name f, icf_Type f)) (qp_fieldList cfg) \<and>
    qp_attrFields cfg = icf_Name ` {f \<in> set (qp_fieldList cfg). is_attr_type (icf_Type f)} \<and>
    map (case_select_expr (\<lambda>x a. a) (\<lambda>t. t)) (qp_exprs cfg) = map icf_Name (qp_fieldList cfg)"
  using parseSelectExpressions_ok[OF assms] by (simp add: fields_ok_def list_all_iff)

definition sample_sql :: "string sql_env" where
  "sample_sql = \<lparr>sq_Parse = (\<lambda>_. Inl (Fails (ErrMsg []))), sq_colName = Some, sq_aliased = (\<lambda>_. []),
     sq_expr = id, sq_new = (\<lambda>_. \<lparr>pq_Query = [], pq_binds = []\<rparr>), sq_setBind = (\<lambda>_ _ p. p),
     sq_generate = (\<lambda>_ _. Inr [])\<rparr>"

definition sample_select :: "string Select" where
  "sample_select = \<lparr>sel_SelectExprs = [AliasedExpr ''id'' '':id'', AliasedExpr ''f1'' ''x:attr_uint'',
     AliasedExpr ''f2'' '':field''], sel_From = [FromAliased (TableName ''test'' ''test'') ''t''], sel_Where = []\<rparr>"

theorem parsed_fields_witness:
  "\<exists>cfg. parseSelectExpressions sample_sql sample_select = Inr cfg \<and>
     distinct (map icf_Name (qp_fieldList cfg)) \<and> length (qp_fieldList cfg) = 3"
proof -
  have "\<not> isl (parseSelectExpressions sample_sql sample_select)" by code_simp
  then obtain cfg where cfg: "parseSelectExpressions sample_sql sample_select = Inr cfg"
    by (cases "parseSelectExpressions sample_sql sample_select") auto
  with parsed_fields[OF cfg] show ?thesis by (simp add: sample_select_def)
qed

text \<open>
  C17. Tables and columns of an accepted query, given the documented behaviour of the parser's \<open>Walk\<close>: the
  table map is computed exactly when every aliased table outside the join conditions is a plain table with an alias of its
  own, and then lists these aliases with their tables; the column sets are computed exactly when
  every column name under the selected expressions is qualified by a known alias, and then have for every table
  the names used with one of its aliases.
\<close>

theorem query_tables_and_columns:
  assumes "walks wt tree" and "walks wc ctree"
  shows "(tableMapFromSelectQuery wt e = Inr m \<longleftrightarrow>
      good_tables [] (tables_of (tree (sel_From e))) \<and> m = table_entries (tables_of (tree (sel_From e)))) \<and>
    ((\<exists>cm. columnSetFromSelectQuery wc e m = Inr cm) \<longleftrightarrow>
      known_columns m (columns_of (ctree (sel_SelectExprs e)))) \<and>
    (columnSetFromSelectQuery wc e m = Inr cm \<longrightarrow>
      map_of cm tb = (let cols = columns_for m (columns_of (ctree (sel_SelectExprs e))) tb
                      in if cols = {} then None else Some cols))"
proof -
  have t: "wt tableVisitor (sel_From e) [] = walk_trees tableVisitor (tree (sel_From e)) []"
    and c: "wc (columnVisitor m) (sel_SelectExprs e) [] = walk_trees (columnVisitor m) (ctree (sel_SelectExprs e)) []"
    using assms by (auto simp: walks_def)
  show ?thesis
    using walk_tables(2)[of "tree (sel_From e)" "[]"] walk_columns(2)[of m "ctree (sel_SelectExprs e)" "[]"]
      add_columns_lookup[of m "columns_of (ctree (sel_SelectExprs e))" tb]
    by (auto simp: tableMapFromSelectQuery_def columnSetFromSelectQuery_def t c bindR_eq_Inr Let_def)
qed

definition sample_tree :: "table_expr list \<Rightarrow> node_tree list" where
  "sample_tree from = map (\<lambda>f. case f of FromAliased t a \<Rightarrow> NodeTree (AliasedTableNode t a) [] | FromOther \<Rightarrow> NodeTree OtherNode []) from"

definition sample_columns :: "string select_expr list \<Rightarrow> node_tree list" where
  "sample_columns es = map (\<lambda>e. NodeTree (ColNameNode ''t'' (case_select_expr (\<lambda>x a. x) id e) []) []) es"

theorem query_tables_and_columns_witness:
  "tableMapFromSelectQuery (\<lambda>v r. walk_trees v (sample_tree r)) sample_select = Inr [(''t'', ''test'')]"
proof -
  have walks: "walks (\<lambda>v r. walk_trees v (sample_tree r)) sample_tree"
    "walks (\<lambda>v r. walk_trees v (sample_columns r)) sample_columns"
    by (simp_all add: walks_def)
  have "good_tables [] (tables_of (sample_tree (sel_From sample_select)))"
    and "table_entries (tables_of (sample_tree (sel_From sample_select))) = [(''t'', ''test'')]"
    by code_simp+
  with query_tables_and_columns[OF walks, of sample_select "[(''t'', ''test'')]"] show ?thesis by metis
qed

end
