(* ===== verification/Config_Load.thy ===== *)
theory Config_Load
  imports Query_Config_Correct Ingest
begin

text \<open>
  The configuration of \<open>src/river/config.go\<close>: its record, the defaults, and \<open>NewConfig\<close>, which
  decodes it, expands variables, prepares every data source and checks every rule. Decoding TOML is the
  library's. Durations are in nanoseconds.
\<close>

record IndexMaintenanceConfig =
  mc_OptimizeSchedule :: string
  mc_RebuildSchedule :: string
  mc_MaxRAMChunkBytes :: "64 word"

record SphConnSettings =
  scs_DisconnectRetryDelay :: int
  scs_OverloadRetryDelay :: int

record Config =
  c_MyAddr :: string
  c_MyUser :: string
  c_MyPassword :: string
  c_MyCharset :: string
  c_SphAddr :: "string list"
  c_MaintenanceConfig :: IndexMaintenanceConfig
  c_SphConnSettings :: SphConnSettings
  c_StatAddr :: string
  c_NatsAddr :: string
  c_NatsEnabled :: bool
  c_ServerID :: "32 word"
  c_Flavor :: string
  c_HeartbeatPeriod :: int
  c_DataDir :: string
  c_DumpExec :: string
  c_SkipMasterData :: bool
  c_SkipSphSyncState :: bool
  c_SkipSphIndexCheck :: bool
  c_IngestRules :: "IngestRule list"
  c_DataSource :: "(string, SourceConfig) amap"
  c_FlushBulkTime :: int
  c_MinTimeAfterLastEvent :: int
  c_MaxTimeAfterFirstEvent :: int
  c_ReplayFullBinlog :: bool
  c_UseGTID :: bool
  c_SkipFileSyncState :: bool
  c_SkipRebuild :: bool
  c_SkipUploadIndex :: bool
  c_SkipReloadRtIndex :: bool
  c_TaoMap :: "(string, string) amap"

text \<open>The port is an \<open>int\<close> that is cut to 16 bits.\<close>

definition splitAddr :: "string \<Rightarrow> int \<Rightarrow> (string \<times> 16 word) result" where
  "splitAddr addr defaultPort =
     (case split_on (CHR '':'') addr of
        host # rest \<Rightarrow>
          if host = [] then Inl (Fails (ErrMsg ''address must be non-empty''))
          else (case rest of
                  [] \<Rightarrow> Inr (host, word_of_int defaultPort)
                | p # _ \<Rightarrow>
                    bindR (annotateR (''port must be an integer, got '' @ p @ '' instead'')
                        (checked (ParseInt64 p)))
                      (\<lambda>port. Inr (host, ucast port)))
      | [] \<Rightarrow> Inl (Fails (ErrMsg ''address must be non-empty'')))"

definition applyDefaults :: "Config \<Rightarrow> Config" where
  "applyDefaults c =
     (let second = 1000000000;
          s = c_SphConnSettings c;
          c = (if c_MaxTimeAfterFirstEvent c = 0 then c\<lparr>c_MaxTimeAfterFirstEvent := 10 * second\<rparr> else c);
          s = (if scs_DisconnectRetryDelay s = 0 then s\<lparr>scs_DisconnectRetryDelay := second\<rparr> else s);
          s = (if scs_OverloadRetryDelay s = 0 then s\<lparr>scs_OverloadRetryDelay := 60 * second\<rparr> else s)
      in c\<lparr>c_SphConnSettings := s\<rparr>)"

subsection \<open>Loading\<close>

type_synonym query_parser = "string \<Rightarrow> string \<Rightarrow> (string \<times> SourceConfigDetails) result"

definition source_defaults :: "string \<Rightarrow> string \<Rightarrow> SourceConfig \<Rightarrow> SourceConfig" where
  "source_defaults dataDir index cfg =
     (let cfg = (if sc_Parts cfg < 1 then cfg\<lparr>sc_Parts := 1\<rparr> else cfg)
      in if sc_StoragePath cfg = []
         then cfg\<lparr>sc_StoragePath := filepath_Join [dataDir, ''index-storage'', index]\<rparr> else cfg)"

definition prepare_source ::
  "query_parser \<Rightarrow> string \<Rightarrow> string \<times> SourceConfig \<Rightarrow> (string \<times> SourceConfig) result" where
  "prepare_source parse dataDir ic =
     (let index = fst ic; cfg = source_defaults dataDir index (snd ic)
      in bindR (annotateR (''invalid query for index '' @ squote index)
             (parse (sc_Query cfg) (sc_JsonTable cfg)))
           (\<lambda>jd. Inr (index, cfg\<lparr>sc_JsonTable := fst jd, sc_details := snd jd\<rparr>)))"

fun check_rules :: "(string, SourceConfig) amap \<Rightarrow> nat \<Rightarrow> IngestRule list \<Rightarrow> unit result" where
  "check_rules sources idx [] = Inr ()"
| "check_rules sources idx (rule # rules) =
     bindR (annotateR (''error in rule #'' @ dec idx @ '' for table '' @ squote (ir_TableName rule))
         (IngestRule_check rule sources))
       (\<lambda>_. check_rules sources (Suc idx) rules)"

text \<open>The assignments of \<open>NewConfig\<close> before the data sources are prepared, and those after the rules are checked.\<close>

definition expand_settings :: "(string \<Rightarrow> string) \<Rightarrow> Config \<Rightarrow> Config" where
  "expand_settings getenv c =
     c\<lparr>c_MyUser := ExpandEnv getenv (c_MyUser c), c_MyPassword := ExpandEnv getenv (c_MyPassword c),
       c_DataDir := ExpandEnv getenv (c_DataDir c), c_SkipFileSyncState := True,
       c_SkipRebuild := True, c_SkipUploadIndex := True, c_SkipReloadRtIndex := True\<rparr>"

definition nats_settings :: "(string \<Rightarrow> string) \<Rightarrow> Config \<Rightarrow> Config" where
  "nats_settings getenv c =
     (let addr = ExpandEnv getenv (c_NatsAddr c); c = c\<lparr>c_NatsAddr := addr\<rparr>
      in if length addr > 2 then c\<lparr>c_NatsEnabled := True\<rparr> else c)"

definition NewConfig ::
  "(string \<Rightarrow> Config result) \<Rightarrow> (string \<Rightarrow> string) \<Rightarrow> query_parser \<Rightarrow> string \<Rightarrow> Config result" where
  "NewConfig decode getenv parse data =
     bindR (decode data) (\<lambda>c.
       let c = expand_settings getenv c
       in bindR (mapR (prepare_source parse (c_DataDir c)) (c_DataSource c)) (\<lambda>sources.
          let c = c\<lparr>c_DataSource := sources\<rparr>
          in bindR (check_rules sources 0 (c_IngestRules c)) (\<lambda>_.
             Inr (applyDefaults (nats_settings getenv c)))))"

text \<open>\<open>NewConfigWithFile\<close>, given the contents of the file.\<close>

definition NewConfigWithFile ::
  "(string \<Rightarrow> Config result) \<Rightarrow> (string \<Rightarrow> string) \<Rightarrow> query_parser \<Rightarrow> (string \<Rightarrow> string result) \<Rightarrow> string \<Rightarrow>
   Config result" where
  "NewConfigWithFile decode getenv parse ReadFile name =
     bindR (ReadFile name) (NewConfig decode getenv parse)"

text \<open>\<open>BytesToString\<close>: up to the first zero byte, or the whole array.\<close>

definition BytesToString :: "string \<Rightarrow> string" where
  "BytesToString b = takeWhile (\<lambda>c. c \<noteq> CHR 0x00) b"

subsection \<open>What an accepted configuration guarantees\<close>

definition rule_fits :: "(string, SourceConfig) amap \<Rightarrow> IngestRule \<Rightarrow> bool" where
  "rule_fits sources r \<longleftrightarrow>
     (case map_of sources (ir_Index r) of
        None \<Rightarrow> False
      | Some ds \<Rightarrow> hasTable ds (ir_TableName r) \<and> ir_ColumnMap r \<noteq> [] \<and>
          list_all (\<lambda>e. list_all (\<lambda>f. map_of (scd_fieldTypes (sc_details ds)) f \<noteq> None) (snd e)) (ir_ColumnMap r))"

lemma checkColumnMap_Inr:
  "checkColumnMap m ds = Inr () \<longleftrightarrow>
   list_all (\<lambda>e. list_all (\<lambda>f. map_of (scd_fieldTypes (sc_details ds)) f \<noteq> None) (snd e)) m"
proof (induction m ds rule: checkColumnMap.induct)
  case (2 col fs m ds)
  show ?case
  proof (cases "filter (\<lambda>f. map_of (scd_fieldTypes (sc_details ds)) f = None) fs")
    case Nil
    then show ?thesis using 2 by (auto simp: filter_empty_conv list_all_iff)
  next
    case (Cons f rest)
    then have "f \<in> set (filter (\<lambda>f. map_of (scd_fieldTypes (sc_details ds)) f = None) fs)" by simp
    then have "f \<in> set fs \<and> map_of (scd_fieldTypes (sc_details ds)) f = None" by simp
    then show ?thesis using Cons by (auto simp: list_all_iff)
  qed
qed simp

lemma IngestRule_check_Inr: "IngestRule_check r sources = Inr () \<longleftrightarrow> rule_fits sources r"
  by (auto simp: IngestRule_check_def rule_fits_def checkColumnMap_Inr split: option.splits)

lemma check_rules_Inr: "check_rules sources idx rules = Inr () \<longleftrightarrow> list_all (rule_fits sources) rules"
  by (induction sources idx rules rule: check_rules.induct)
    (auto simp: bindR_eq_Inr annotateR_eq_Inr IngestRule_check_Inr)

lemma check_rules_error:
  "check_rules sources idx rules = Inl f \<Longrightarrow>
   \<exists>i<length rules. \<not> rule_fits sources (rules ! i) \<and> list_all (rule_fits sources) (take i rules) \<and>
     annotateR (''error in rule #'' @ dec (idx + i) @ '' for table '' @ squote (ir_TableName (rules ! i)))
       (IngestRule_check (rules ! i) sources) = Inl f"
proof (induction sources idx rules rule: check_rules.induct)
  case (2 sources idx rule rules)
  show ?case
  proof (cases "IngestRule_check rule sources")
    case (Inl e)
    with 2 have "annotateR (''error in rule #'' @ dec idx @ '' for table '' @ squote (ir_TableName rule))
        (IngestRule_check rule sources) = Inl f"
      by (auto simp: annotateR_def split: fault.splits)
    moreover have "\<not> rule_fits sources rule" using Inl IngestRule_check_Inr[of rule sources] by simp
    ultimately show ?thesis by (intro exI[of _ 0]) simp
  next
    case (Inr u)
    with 2 obtain i where i: "i < length rules" "\<not> rule_fits sources (rules ! i)"
      "list_all (rule_fits sources) (take i rules)"
      "annotateR (''error in rule #'' @ dec (Suc idx + i) @ '' for table '' @ squote (ir_TableName (rules ! i)))
         (IngestRule_check (rules ! i) sources) = Inl f"
      by (auto simp: annotateR_def)
    have "rule_fits sources rule" using Inr IngestRule_check_Inr[of rule sources] by simp
    with i show ?thesis by (intro exI[of _ "Suc i"]) simp
  qed
qed simp

lemma annotated_failure: "annotateR msg r = Inl (Fails e) \<Longrightarrow> \<exists>e'. e = ErrAnnotated msg e'"
  by (cases r) (auto simp: annotateR_def split: fault.splits)

definition source_ok :: "query_parser \<Rightarrow> SourceConfig \<Rightarrow> bool" where
  "source_ok parse s \<longleftrightarrow>
     sc_Parts s \<noteq> 0 \<and> sc_StoragePath s \<noteq> [] \<and> (\<exists>jt. parse (sc_Query s) jt = Inr (sc_JsonTable s, sc_details s))"

lemma source_defaults_ok [simp]:
  "sc_Parts (source_defaults dataDir index cfg) \<noteq> 0"
  "sc_StoragePath (source_defaults dataDir index cfg) \<noteq> []"
proof -
  have "filepath_Join [dataDir, ''index-storage'', index] \<noteq> []" by (rule filepath_Join_nonempty) auto
  then show "sc_Parts (source_defaults dataDir index cfg) \<noteq> 0"
    and "sc_StoragePath (source_defaults dataDir index cfg) \<noteq> []"
    by (auto simp: source_defaults_def Let_def)
qed

lemma prepare_source_ok:
  "prepare_source parse dataDir ic = Inr ic' \<Longrightarrow> fst ic' = fst ic \<and> source_ok parse (snd ic')"
  by (auto simp: prepare_source_def Let_def bindR_eq_Inr annotateR_eq_Inr source_ok_def)

lemma prepare_sources_ok:
  "mapR (prepare_source parse dataDir) ds = Inr ds' \<Longrightarrow>
   map fst ds' = map fst ds \<and> list_all (\<lambda>s. source_ok parse (snd s)) ds'"
  by (induction ds arbitrary: ds') (auto simp: bindR_eq_Inr dest!: prepare_source_ok)

lemma applyDefaults_simps [simp]:
  "c_DataSource (applyDefaults c) = c_DataSource c" "c_IngestRules (applyDefaults c) = c_IngestRules c"
  "c_NatsAddr (applyDefaults c) = c_NatsAddr c" "c_NatsEnabled (applyDefaults c) = c_NatsEnabled c"
  "c_SkipFileSyncState (applyDefaults c) = c_SkipFileSyncState c"
  "c_MaxTimeAfterFirstEvent (applyDefaults c) \<noteq> 0"
  "scs_DisconnectRetryDelay (c_SphConnSettings (applyDefaults c)) \<noteq> 0"
  "scs_OverloadRetryDelay (c_SphConnSettings (applyDefaults c)) \<noteq> 0"
  by (simp_all add: applyDefaults_def Let_def)


lemma expand_settings_simps [simp]:
  "c_DataSource (expand_settings getenv c) = c_DataSource c" "c_NatsAddr (expand_settings getenv c) = c_NatsAddr c"
  "c_IngestRules (expand_settings getenv c) = c_IngestRules c" "c_SkipFileSyncState (expand_settings getenv c)"
  by (simp_all add: expand_settings_def)

lemma nats_settings_simps [simp]:
  "c_DataSource (nats_settings getenv c) = c_DataSource c"
  "c_IngestRules (nats_settings getenv c) = c_IngestRules c"
  "c_SkipFileSyncState (nats_settings getenv c) = c_SkipFileSyncState c"
  "c_NatsAddr (nats_settings getenv c) = ExpandEnv getenv (c_NatsAddr c)"
  "length (ExpandEnv getenv (c_NatsAddr c)) > 2 \<Longrightarrow> c_NatsEnabled (nats_settings getenv c)"
  by (simp_all add: nats_settings_def Let_def)

lemma NewConfig_ok:
  assumes "NewConfig decode getenv parse data = Inr c"
  obtains c0 where "decode data = Inr c0" "map fst (c_DataSource c) = map fst (c_DataSource c0)"
    "c_IngestRules c = c_IngestRules c0" "list_all (\<lambda>s. source_ok parse (snd s)) (c_DataSource c)"
    "list_all (rule_fits (c_DataSource c)) (c_IngestRules c)"
    "c_SkipFileSyncState c" "c_MaxTimeAfterFirstEvent c \<noteq> 0"
    "scs_DisconnectRetryDelay (c_SphConnSettings c) \<noteq> 0" "scs_OverloadRetryDelay (c_SphConnSettings c) \<noteq> 0"
    "c_NatsAddr c = ExpandEnv getenv (c_NatsAddr c0)" "length (c_NatsAddr c) > 2 \<longrightarrow> c_NatsEnabled c"
proof -
  from assms obtain c0 sources where c0: "decode data = Inr c0"
    and sources: "mapR (prepare_source parse (c_DataDir (expand_settings getenv c0))) (c_DataSource c0) = Inr sources"
    and rules: "check_rules sources 0 (c_IngestRules c0) = Inr ()"
    and c: "c = applyDefaults (nats_settings getenv ((expand_settings getenv c0)\<lparr>c_DataSource := sources\<rparr>))"
    by (auto simp: NewConfig_def Let_def result_simps)
  show thesis
    by (rule that[OF c0]) (use prepare_sources_ok[OF sources] rules in \<open>simp_all add: c check_rules_Inr\<close>)
qed

subsection \<open>Properties\<close>

text \<open>
  C19. What a configuration that loads guarantees: every data source has at least one part, a storage path and the
  details its query was parsed to; every rule belongs to a data source that reads the rule's table, maps at
  least one column, and maps only to fields of that source; and the retry delays and the longest wait are not zero, the
  file state is switched off, and publishing is on when there is a NATS address.
\<close>

theorem NewConfig_valid:
  assumes "NewConfig decode getenv parse data = Inr c"
  shows "list_all (\<lambda>s. sc_Parts (snd s) \<noteq> 0 \<and> sc_StoragePath (snd s) \<noteq> [] \<and>
       (\<exists>jt. parse (sc_Query (snd s)) jt = Inr (sc_JsonTable (snd s), sc_details (snd s)))) (c_DataSource c) \<and>
     list_all (rule_fits (c_DataSource c)) (c_IngestRules c) \<and>
     c_MaxTimeAfterFirstEvent c \<noteq> 0 \<and> scs_DisconnectRetryDelay (c_SphConnSettings c) \<noteq> 0 \<and>
     scs_OverloadRetryDelay (c_SphConnSettings c) \<noteq> 0 \<and> c_SkipFileSyncState c \<and>
     (length (c_NatsAddr c) > 2 \<longrightarrow> c_NatsEnabled c)"
  using assms by (rule NewConfig_ok) (auto simp: source_ok_def)

definition sample_details :: SourceConfigDetails where
  "sample_details = \<lparr>scd_attrFields = {}, scd_fieldList = [], scd_fieldTypes = [(''f'', ''field'')],
     scd_queryTables = [(''t'', ''db.t'')], scd_queryColumns = [], scd_queryTpl = (\<lambda>_. Inr [])\<rparr>"

definition sample_Config :: Config where
  "sample_Config = \<lparr>c_MyAddr = [], c_MyUser = ''$USER'', c_MyPassword = [], c_MyCharset = [], c_SphAddr = [],
     c_MaintenanceConfig = \<lparr>mc_OptimizeSchedule = [], mc_RebuildSchedule = [], mc_MaxRAMChunkBytes = 0\<rparr>,
     c_SphConnSettings = \<lparr>scs_DisconnectRetryDelay = 0, scs_OverloadRetryDelay = 5\<rparr>, c_StatAddr = [],
     c_NatsAddr = ''${NATS}'', c_NatsEnabled = False, c_ServerID = 1, c_Flavor = ''mysql'', c_HeartbeatPeriod = 0,
     c_DataDir = ''/var'', c_DumpExec = [], c_SkipMasterData = False, c_SkipSphSyncState = False,
     c_SkipSphIndexCheck = False,
     c_IngestRules = [\<lparr>ir_TableName = ''db.t'', ir_DocIDField = ''id'', ir_Index = ''i'', ir_ColumnMap = [(''c'', [''f''])],
        ir_JsonColumnName = [], ir_JsonTypeName = [], ir_JsonTypeValue = 0\<rparr>],
     c_DataSource = [(''i'', \<lparr>sc_Query = ''q'', sc_Parts = 0, sc_JsonTable = [], sc_StoragePath = [],
        sc_details = sample_details\<rparr>)],
     c_FlushBulkTime = 0, c_MinTimeAfterLastEvent = 0, c_MaxTimeAfterFirstEvent = 0, c_ReplayFullBinlog = False,
     c_UseGTID = True, c_SkipFileSyncState = False, c_SkipRebuild = False, c_SkipUploadIndex = False,
     c_SkipReloadRtIndex = False, c_TaoMap = []\<rparr>"

abbreviation sample_load :: "Config result" where
  "sample_load \<equiv> NewConfig (\<lambda>_. Inr sample_Config) (\<lambda>v. ''nats:4222'') (\<lambda>q jt. Inr (jt, sample_details)) []"

theorem NewConfig_valid_witness:
  "\<exists>c. sample_load = Inr c \<and> c_NatsEnabled c \<and> map (sc_StoragePath \<circ> snd) (c_DataSource c) = [''/var/index-storage/i'']"
proof -
  have ok: "(case sample_load of Inl f \<Rightarrow> False | Inr c \<Rightarrow> length (c_NatsAddr c) > 2 \<and>
      map (sc_StoragePath \<circ> snd) (c_DataSource c) = [''/var/index-storage/i''])"
    by code_simp
  then obtain c where c: "sample_load = Inr c" by (cases sample_load) auto
  from NewConfig_valid[OF c] c ok show ?thesis by auto
qed

text \<open>
  Rejecting a configuration: the error names the first rule that does not fit, with its number and table.
\<close>

theorem check_rules_first_error:
  assumes "check_rules sources 0 rules = Inl (Fails e)"
  shows "\<exists>i<length rules. \<not> rule_fits sources (rules ! i) \<and> list_all (rule_fits sources) (take i rules) \<and>
     (\<exists>e'. e = ErrAnnotated (''error in rule #'' @ dec i @ '' for table '' @ squote (ir_TableName (rules ! i))) e')"
proof -
  obtain i where i: "i < length rules" "\<not> rule_fits sources (rules ! i)" "list_all (rule_fits sources) (take i rules)"
    and e: "annotateR (''error in rule #'' @ dec (0 + i) @ '' for table '' @ squote (ir_TableName (rules ! i)))
       (IngestRule_check (rules ! i) sources) = Inl (Fails e)"
    using check_rules_error[OF assms] by auto
  from e have "\<exists>e'. e = ErrAnnotated (''error in rule #'' @ dec i @ '' for table '' @ squote (ir_TableName (rules ! i))) e'"
    unfolding add_0 by (rule annotated_failure)
  with i show ?thesis by blast
qed

theorem check_rules_first_error_witness:
  "\<exists>e. check_rules [] 0 (c_IngestRules sample_Config) = Inl (Fails e) \<and>
     \<not> rule_fits [] (c_IngestRules sample_Config ! 0)"
proof -
  have "(case check_rules [] 0 (c_IngestRules sample_Config) of Inl (Fails e) \<Rightarrow> True | _ \<Rightarrow> False)" by code_simp
  then obtain e where e: "check_rules [] 0 (c_IngestRules sample_Config) = Inl (Fails e)"
    by (auto split: sum.splits fault.splits)
  moreover have "length (c_IngestRules sample_Config) = 1" by (simp add: sample_Config_def)
  ultimately show ?thesis using check_rules_first_error[OF e] by auto
qed

end
