(* ===== verification/River_Setup.thy ===== *)
theory River_Setup
  imports Supervision_Correct Config_Load Sync
begin

text \<open>
  How a river is made and where its replication starts: \<open>NewRiver\<close>, \<open>newCanal\<close>, \<open>prepareRule\<close> and
  \<open>CheckBinlogRowImage\<close> of \<open>src/river/river.go\<close>, and \<open>Serve\<close> of \<open>canal_service.go\<close>. The canal is the
  library's: \<open>'c\<close> with the calls the program makes, \<open>'t\<close> for its table descriptions and \<open>'r\<close> for query results.
\<close>

subsection \<open>The canal\<close>

text \<open>\<open>regexp.QuoteMeta\<close>: a backslash before every character that means something in a pattern.\<close>

definition regexp_special :: "char \<Rightarrow> bool" where
  "regexp_special c \<longleftrightarrow> c \<in> set (CHR 0x5C # ''.+*?()|[]{}^$'')"

definition QuoteMeta :: "string \<Rightarrow> string" where
  "QuoteMeta s = concat (map (\<lambda>c. if regexp_special c then [CHR 0x5C, c] else [c]) s)"

record canal_config =
  cc_Addr :: string
  cc_User :: string
  cc_Password :: string
  cc_Charset :: string
  cc_Flavor :: string
  cc_HeartbeatPeriod :: int
  cc_ParseTime :: bool
  cc_IncludeTableRegex :: "string list"
  cc_ServerID :: "32 word"
  cc_ExecutionPath :: string
  cc_DiscardErr :: bool
  cc_SkipMasterData :: bool

record ('c, 't, 'r) canal_env =
  ca_NewDefaultConfig :: canal_config
  ca_NewCanal :: "canal_config \<Rightarrow> 'c result"
  ca_Execute :: "'c \<Rightarrow> string \<Rightarrow> 'r result"
  ca_GetString :: "'r \<Rightarrow> nat \<Rightarrow> nat \<Rightarrow> string \<times> go_error option"
  ca_GetTable :: "'c \<Rightarrow> string \<Rightarrow> string \<Rightarrow> 't result"

definition canal_settings :: "canal_config \<Rightarrow> Config \<Rightarrow> canal_config" where
  "canal_settings cfg c =
     cfg\<lparr>cc_Addr := c_MyAddr c, cc_User := c_MyUser c, cc_Password := c_MyPassword c,
         cc_Charset := c_MyCharset c, cc_Flavor := c_Flavor c, cc_HeartbeatPeriod := c_HeartbeatPeriod c,
         cc_ParseTime := True,
         cc_IncludeTableRegex := map (\<lambda>rule. QuoteMeta (ir_TableName rule)) (c_IngestRules c),
         cc_ServerID := c_ServerID c, cc_ExecutionPath := c_DumpExec c, cc_DiscardErr := False,
         cc_SkipMasterData := c_SkipMasterData c\<rparr>"

definition newCanal :: "('c, 't, 'r) canal_env \<Rightarrow> Config \<Rightarrow> 'c result" where
  "newCanal C c = ca_NewCanal C (canal_settings (ca_NewDefaultConfig C) c)"

subsection \<open>Making a river\<close>

text \<open>\<open>strings.EqualFold\<close> with an ASCII word whose letters have no other case variants.\<close>

definition ascii_lower :: "char \<Rightarrow> char" where
  "ascii_lower c =
     (let n = of_char c :: nat in if 65 \<le> n \<and> n \<le> 90 then char_of (n + 32) else c)"

definition EqualFold :: "string \<Rightarrow> string \<Rightarrow> bool" where
  "EqualFold s t \<longleftrightarrow> map ascii_lower s = map ascii_lower t"

text \<open>The error of \<open>GetString\<close> is ignored; its string is the empty one then.\<close>

definition CheckBinlogRowImage :: "('c, 't, 'r) canal_env \<Rightarrow> 'c \<Rightarrow> unit result" where
  "CheckBinlogRowImage C canal =
     bindR (ca_Execute C canal ''SHOW GLOBAL VARIABLES LIKE \"binlog_row_image\"'') (\<lambda>res.
       let rowImage = fst (ca_GetString C res 0 1)
       in if EqualFold rowImage ''FULL'' then Inr ()
          else Inl (Fails (ErrMsg (''MySQL uses '' @ squote rowImage @ '' binlog row image, but we want FULL''))))"

definition executeMysqlQuery :: "('c, 't, 'r) canal_env \<Rightarrow> 'c \<Rightarrow> string \<Rightarrow> unit result" where
  "executeMysqlQuery C canal query = bindR (ca_Execute C canal query) (\<lambda>_. Inr ())"

text \<open>The \<open>TableInfo\<close> of every rule, in the order of the rules; \<open>None\<close> is the nil it has before.\<close>

definition updateRule :: "('c, 't, 'r) canal_env \<Rightarrow> 'c \<Rightarrow> string \<Rightarrow> string \<Rightarrow> 't option result" where
  "updateRule C canal schema table = bindR (ca_GetTable C canal schema table) (\<lambda>info. Inr (Some info))"

definition prepareRule :: "('c, 't, 'r) canal_env \<Rightarrow> 'c \<Rightarrow> IngestRule list \<Rightarrow> 't option list result" where
  "prepareRule C canal rules =
     mapR (\<lambda>rule.
       if str_contains (ir_TableName rule) ''.''
       then (let s = split_on (CHR ''.'') (ir_TableName rule)
             in bindR (go_index s 0) (\<lambda>schema. bindR (go_index s 1) (\<lambda>table.
                  updateRule C canal schema table)))
       else Inr None) rules"

definition NewRiver ::
  "('c, 't, 'r) canal_env \<Rightarrow> Config \<Rightarrow> ('c \<times> 't option list \<times> ('b, 'g) River) result" where
  "NewRiver C c =
     bindR (newCanal C c) (\<lambda>canal.
     bindR (prepareRule C canal (c_IngestRules c)) (\<lambda>infos.
       let master = newMasterState (c_UseGTID c) (c_Flavor c)
       in bindR (CheckBinlogRowImage C canal) (\<lambda>_. Inr (canal, infos, initial_river master))))"

text \<open>The settings the running river reads, out of the configuration.\<close>

definition settings_of :: "Config \<Rightarrow> river_config" where
  "settings_of c =
     \<lparr>rc_settings = \<lparr>cs_DisconnectRetryDelay = scs_DisconnectRetryDelay (c_SphConnSettings c),
        cs_OverloadRetryDelay = scs_OverloadRetryDelay (c_SphConnSettings c)\<rparr>,
      rc_SkipSphSyncState = c_SkipSphSyncState c, rc_SkipSphIndexCheck = c_SkipSphIndexCheck c,
      rc_DataSource = map (\<lambda>s. (fst s, sc_Parts (snd s))) (c_DataSource c),
      rc_MaxRAMChunkBytes = mc_MaxRAMChunkBytes (c_MaintenanceConfig c),
      rc_UseGTID = c_UseGTID c, rc_ReplayFullBinlog = c_ReplayFullBinlog c\<rparr>"

subsection \<open>The canal service (canal_service.go)\<close>

datatype canal_error =
    MyError "16 word" string
  | ContextCanceled
  | CanalError string
  | Annotated string canal_error

fun canal_cause :: "canal_error \<Rightarrow> canal_error" where
  "canal_cause (Annotated msg e) = canal_cause e"
| "canal_cause e = e"

definition ER_MASTER_FATAL_ERROR_READING_BINLOG :: "16 word" where
  "ER_MASTER_FATAL_ERROR_READING_BINLOG = 1236"

definition isReplicationError :: "canal_error \<Rightarrow> bool" where
  "isReplicationError err =
     (case canal_cause err of
        MyError code msg \<Rightarrow> code = ER_MASTER_FATAL_ERROR_READING_BINLOG
      | _ \<Rightarrow> False)"

datatype 'g canal_start = CanalRun | StartFromGTID "'g option" | RunFrom Position

definition canal_start :: "'g gtid_env \<Rightarrow> river_config \<Rightarrow> 'g masterState \<Rightarrow> 'g canal_start" where
  "canal_start G cfg m =
     (if rc_ReplayFullBinlog cfg then CanalRun
      else if rc_UseGTID cfg
      then (if gtidString G m = [] then CanalRun else StartFromGTID (gtidSet m))
      else RunFrom (master_position m))"

text \<open>
  \<open>Serve\<close> up to the run of the canal (the canal it leaves in the river, nil when making it failed, with the handler
  and the start it is run with), and after the run has ended with \<open>err\<close>, when the river may have changed: a
  replication error sets a flag and calls \<open>Stop\<close>, of which this is the part before the send on \<open>done\<close>.
\<close>

definition CanalService_begin ::
  "('c, 't, 'r) canal_env \<Rightarrow> 'g gtid_env \<Rightarrow> Config \<Rightarrow> ('b, 'g) River \<Rightarrow>
   'c option \<times> ('g eventHandler \<times> 'g canal_start) option" where
  "CanalService_begin C G c r =
     (case newCanal C c of
        Inl e \<Rightarrow> (None, None)
      | Inr canal \<Rightarrow>
          (Some canal,
           Some (newReplicationEventHandler (rv_master r), canal_start G (settings_of c) (rv_master r))))"

text \<open>\<open>Stop\<close> closes the canal of the river, a method call on a pointer that a failed \<open>newCanal\<close> has set to nil.\<close>

definition CanalService_Stop :: "('c \<Rightarrow> 'c) \<Rightarrow> 'c option \<Rightarrow> 'c result" where
  "CanalService_Stop close canal =
     (case canal of None \<Rightarrow> Inl (Panics NilDereference) | Some c \<Rightarrow> Inr (close c))"

definition CanalService_end :: "canal_error option \<Rightarrow> ('b, 'g) River \<Rightarrow> ('b, 'g) River" where
  "CanalService_end err r =
     (case err of
        None \<Rightarrow> r
      | Some e \<Rightarrow>
          if isReplicationError e
          then (let r = r\<lparr>rv_master := (rv_master r)\<lparr>ms_needPositionReset := True\<rparr>\<rparr>
                in if rv_isRunning r then Stop_begin r else r)
          else r)"

subsection \<open>Which tables the canal reads\<close>

text \<open>
  A pattern without unquoted special characters stands for a string; the canal reads the tables whose key
  (schema, dot, table) matches an include pattern somewhere.
\<close>

fun literal_pattern :: "string \<Rightarrow> string option" where
  "literal_pattern [] = Some []"
| "literal_pattern [c] = (if regexp_special c then None else Some [c])"
| "literal_pattern (c # d # cs) =
     (if c = CHR 0x5C
      then (if regexp_special d then map_option ((#) d) (literal_pattern cs) else None)
      else if regexp_special c then None
      else map_option ((#) c) (literal_pattern (d # cs)))"

definition includes_table :: "canal_config \<Rightarrow> string \<Rightarrow> bool" where
  "includes_table cfg key \<longleftrightarrow>
     list_ex (\<lambda>p. case literal_pattern p of Some s \<Rightarrow> str_contains key s | None \<Rightarrow> False)
       (cc_IncludeTableRegex cfg)"

lemma literal_pattern_plain:
  "\<not> regexp_special c \<Longrightarrow> literal_pattern (c # cs) = map_option ((#) c) (literal_pattern cs)"
  by (cases cs) (auto simp: regexp_special_def)

lemma literal_QuoteMeta: "literal_pattern (QuoteMeta s) = Some s"
proof (induction s)
  case (Cons c s)
  then show ?case
    by (cases "regexp_special c") (simp_all add: QuoteMeta_def literal_pattern_plain)
qed (simp add: QuoteMeta_def)

subsection \<open>Loading the saved state\<close>

definition holds_state ::
  "'b sph_env \<Rightarrow> 'g gtid_env \<Rightarrow> river_config \<Rightarrow> (string \<times> 'b) list \<Rightarrow> 'g SyncState \<Rightarrow> bool" where
  "holds_state S G cfg net st \<longleftrightarrow>
     (case ConnectMany S (rc_settings cfg) net of
        Inl e \<Rightarrow> False
      | Inr sph \<Rightarrow> sph \<noteq> [] \<and> list_all (\<lambda>c. saved_state S G c = Inr (Some st)) sph)"

lemma Serve_begin_loads:
  assumes "rv_token r SphinxSvc = None" and "holds_state S G cfg net st" and "\<not> rc_SkipSphSyncState cfg"
  shows "snd (Serve_begin U S G cfg net r) = WaitingForIndexes \<and>
     rv_master (fst (Serve_begin U S G cfg net r)) =
       fst (updatePosition G (rv_master r) \<lparr>pe_gtid = ss_GTID st, pe_pos = ss_Position st, pe_force = False\<rparr>)"
proof -
  obtain sph where sph: "ConnectMany S (rc_settings cfg) net = Inr sph" "sph \<noteq> []"
    and all: "\<forall>c\<in>set sph. saved_state S G c = Inr (Some st)"
    using assms(2)
    by (auto simp: holds_state_def list_all_iff split: sum.splits)
  let ?r = "r\<lparr>rv_isRunning := True, rv_cancelled := False, rv_sup := rv_sup r @ [ServeBackground]\<rparr>"
  have svc: "svc_sph (rv_sphinxService (start_sphinx U S cfg net ?r)) = Some sph"
    "\<not> svc_closed (rv_sphinxService (start_sphinx U S cfg net ?r))"
    "rv_master (start_sphinx U S cfg net ?r) = rv_master r"
    using assms(1) sph(1)
    by (simp_all add: start_sphinx_def SphinxService_connect_def start_service_def Let_def)
  have "snd (LoadSyncState S G sph) = Inr (Some st)"
    using sph(2) all LoadSyncState_Some_iff by blast
  then show ?thesis
    using svc sph(2) assms(3)
    by (simp add: Serve_begin_def load_sync_state_def service_LoadSyncState_def
        SphinxService_LoadSyncState_def Let_def)
qed

lemma updatePosition_start:
  assumes "ss_GTID st = Some g" and "ge_String G g \<noteq> []" and "rc_UseGTID cfg" and "\<not> rc_ReplayFullBinlog cfg"
    and "m = fst (updatePosition G m0 \<lparr>pe_gtid = ss_GTID st, pe_pos = ss_Position st, pe_force = False\<rparr>)"
  shows "canal_start G cfg m = StartFromGTID (Some g)"
    and "newReplicationEventHandler m =
      \<lparr>eh_activeGTID = Some g, eh_completedGTID = Some g, eh_pos = ss_Position st\<rparr>"
proof -
  have "ms_gtid m = Some g" "ms_pos m = Some (ss_Position st)"
    using assms(1,5) by (simp_all add: updatePosition_gtid)
  with assms show "canal_start G cfg m = StartFromGTID (Some g)"
    and "newReplicationEventHandler m = \<lparr>eh_activeGTID = Some g, eh_completedGTID = Some g, eh_pos = ss_Position st\<rparr>"
    by (simp_all add: canal_start_def gtidString_def gtidSet_def newReplicationEventHandler_def master_position_def)
qed

lemma prepareRule_nth:
  assumes "prepareRule C canal rules = Inr infos"
  shows "length infos = length rules"
    and "i < length rules \<Longrightarrow> str_contains (ir_TableName (rules ! i)) ''.'' \<Longrightarrow>
      \<exists>schema table rest info. split_on (CHR ''.'') (ir_TableName (rules ! i)) = schema # table # rest \<and>
        ca_GetTable C canal schema table = Inr info \<and> infos ! i = Some info"
proof -
  from assms show "length infos = length rules" unfolding prepareRule_def by (rule mapR_length)
  assume "i < length rules" and dot: "str_contains (ir_TableName (rules ! i)) ''.''"
  from mapR_nth[OF assms[unfolded prepareRule_def] this(1)] dot
  have "bindR (go_index (split_on (CHR ''.'') (ir_TableName (rules ! i))) 0) (\<lambda>schema.
      bindR (go_index (split_on (CHR ''.'') (ir_TableName (rules ! i))) 1) (\<lambda>table.
        updateRule C canal schema table)) = Inr (infos ! i)"
    by (simp add: Let_def)
  then show "\<exists>schema table rest info. split_on (CHR ''.'') (ir_TableName (rules ! i)) = schema # table # rest \<and>
        ca_GetTable C canal schema table = Inr info \<and> infos ! i = Some info"
    by (cases "split_on (CHR ''.'') (ir_TableName (rules ! i))";
        cases "tl (split_on (CHR ''.'') (ir_TableName (rules ! i)))")
      (auto simp: result_simps updateRule_def)
qed

lemma stop_after_failed_canal:
  "newCanal C c = Inl e \<Longrightarrow>
   CanalService_Stop close (fst (CanalService_begin C G c r)) = Inl (Panics NilDereference)"
  by (simp add: CanalService_begin_def CanalService_Stop_def)

text \<open>The step of the system in which the canal fails is the end of the service's run.\<close>

lemma canal_failed_step:
  assumes "rv_isRunning r" and "rv_token r CanalSvc \<noteq> None" and "isReplicationError err"
  shows "river_step U S G cfg \<lparr>sys_river = r, sys_pc = pc, sys_stopping = False\<rparr>
     \<lparr>sys_river = CanalService_end (Some err) r, sys_pc = pc, sys_stopping = True\<rparr>"
  using river_step.canal_failed[OF assms(1,2)] assms by (simp add: CanalService_end_def Let_def)

subsection \<open>Samples\<close>

text \<open>A backend whose every answer is the saved row, and a canal that works.\<close>

definition saved_env :: "unit sph_env" where
  "saved_env = (up_env (sample_result GNil ''s''))\<lparr>se_connect := (\<lambda>_ b. (b, None))\<rparr>"

definition saved_sample :: "string SyncState" where
  "saved_sample =
     \<lparr>ss_Position = \<lparr>pos_Name = ''s'', pos_Pos = 1\<rparr>, ss_GTID = Some ''s'', ss_Flavor = ''s''\<rparr>"

definition gtid_settings :: river_config where
  "gtid_settings = (sample_river_config True)\<lparr>rc_SkipSphSyncState := False\<rparr>"

definition sample_canal :: "(string list, string, string) canal_env" where
  "sample_canal =
     \<lparr>ca_NewDefaultConfig = \<lparr>cc_Addr = ''127.0.0.1:3306'', cc_User = ''root'', cc_Password = [], cc_Charset = ''utf8'',
        cc_Flavor = ''mysql'', cc_HeartbeatPeriod = 0, cc_ParseTime = False, cc_IncludeTableRegex = [],
        cc_ServerID = 0, cc_ExecutionPath = ''mysqldump'', cc_DiscardErr = True, cc_SkipMasterData = False\<rparr>,
      ca_NewCanal = (\<lambda>cfg. Inr (cc_IncludeTableRegex cfg)), ca_Execute = (\<lambda>_ _. Inr ''Full''),
      ca_GetString = (\<lambda>res _ _. (res, None)), ca_GetTable = (\<lambda>_ schema table. Inr (schema @ ''/'' @ table))\<rparr>"

lemma saved_env_holds: "holds_state saved_env text_gtid gtid_settings [(''h:9306'', ())] saved_sample"
proof -
  have "map_option (map (\<lambda>c. c\<lparr>conn_backend := ()\<rparr>)) (case ConnectMany saved_env (rc_settings gtid_settings)
      [(''h:9306'', ())] of Inl e \<Rightarrow> None | Inr sph \<Rightarrow> Some sph) \<noteq> None"
    by code_simp
  then obtain sph where sph: "ConnectMany saved_env (rc_settings gtid_settings) [(''h:9306'', ())] = Inr sph"
    by (auto split: sum.splits)
  have "list_all (\<lambda>c. saved_state saved_env text_gtid c = Inr (Some saved_sample)) sph"
    by (auto simp: list_all_iff saved_state_def loadPosition_def bindS_cases execute_def saved_env_def up_env_def
        returnS_def sample_result_def newSyncState_def text_gtid_def saved_sample_def Let_def)
  moreover have "sph \<noteq> []"
    using sph by (auto simp: ConnectMany_def Let_def sample_addr result_simps Connect_def saved_env_def split: sum.splits)
  ultimately show ?thesis using sph by (simp add: holds_state_def)
qed

subsection \<open>Properties\<close>

text \<open>
  C14. Replication resumes where it was saved: when every backend holds the same synchronization state with a GTID
  and GTIDs are in use, serving the river loads it, goes on to wait for the indexes, and a canal that is started then
  reads from exactly that GTID, with a handler whose active and completed GTID and position are the saved ones.
\<close>

theorem replication_resumes_at_saved_state:
  assumes "rv_token r SphinxSvc = None" and "holds_state S G cfg net st" and "\<not> rc_SkipSphSyncState cfg"
    and "rc_UseGTID cfg" and "\<not> rc_ReplayFullBinlog cfg" and "ss_GTID st = Some g" and "ge_String G g \<noteq> []"
  shows "\<exists>r'. Serve_begin U S G cfg net r = (r', WaitingForIndexes) \<and>
     canal_start G cfg (rv_master r') = StartFromGTID (Some g) \<and>
     newReplicationEventHandler (rv_master r') =
       \<lparr>eh_activeGTID = Some g, eh_completedGTID = Some g, eh_pos = ss_Position st\<rparr>"
proof -
  from Serve_begin_loads[OF assms(1-3), of U]
  have pc: "snd (Serve_begin U S G cfg net r) = WaitingForIndexes"
    and m: "rv_master (fst (Serve_begin U S G cfg net r)) =
       fst (updatePosition G (rv_master r) \<lparr>pe_gtid = ss_GTID st, pe_pos = ss_Position st, pe_force = False\<rparr>)"
    by blast+
  from updatePosition_start[OF assms(6,7,4,5) m] pc show ?thesis
    by (intro exI[of _ "fst (Serve_begin U S G cfg net r)"]) (metis prod.collapse)
qed

theorem replication_resumes_at_saved_state_witness:
  "\<exists>r'. Serve_begin count_calls saved_env text_gtid gtid_settings [(''h:9306'', ())]
        (initial_river (newMasterState True ''mysql'')) = (r', WaitingForIndexes) \<and>
     canal_start text_gtid gtid_settings (rv_master r') = StartFromGTID (Some ''s'')"
  using replication_resumes_at_saved_state[OF _ saved_env_holds, of "initial_river (newMasterState True ''mysql'')"
      "''s''" count_calls]
  by (auto simp: initial_river_def gtid_settings_def sample_river_config_def saved_sample_def text_gtid_def)

text \<open>
  C36. A replication error changes nothing about where replication starts: error 1236, however annotated, sets
  \<open>needPositionReset\<close> and stops the river, but when the supervisor serves the river again with the flag still set,
  the state is loaded from the backends again and the canal starts from the same GTID that could not be read.
\<close>

theorem replication_error_starts_again:
  assumes "isReplicationError err" and "rv_isRunning r" and "holds_state S G cfg net st"
    and "\<not> rc_SkipSphSyncState cfg" and "rc_UseGTID cfg" and "\<not> rc_ReplayFullBinlog cfg"
    and "ss_GTID st = Some g" and "ge_String G g \<noteq> []"
  shows "\<exists>r'. Serve_begin U S G cfg net (Stop_end (CanalService_end (Some err) r)) = (r', WaitingForIndexes) \<and>
     ms_needPositionReset (rv_master r') \<and> canal_start G cfg (rv_master r') = StartFromGTID (Some g)"
proof -
  let ?r = "r\<lparr>rv_master := (rv_master r)\<lparr>ms_needPositionReset := True\<rparr>\<rparr>"
  have stop: "Stop_end (CanalService_end (Some err) r) = Stop_end (Stop_begin ?r)"
    using assms(1,2) by (simp add: CanalService_end_def Let_def)
  have tok: "rv_token (Stop_end (Stop_begin ?r)) SphinxSvc = None"
    by (simp add: Stop_end_def Stop_begin_tokens)
  have reset: "ms_needPositionReset (rv_master (Stop_end (Stop_begin ?r)))"
    by (simp add: Stop_end_def Stop_begin_def Let_def remove_service_def remove_sphinx_def stopSyncRoutine_def
        split: option.splits)
  from Serve_begin_loads[OF tok assms(3,4), of U]
  have pc: "snd (Serve_begin U S G cfg net (Stop_end (Stop_begin ?r))) = WaitingForIndexes"
    and m: "rv_master (fst (Serve_begin U S G cfg net (Stop_end (Stop_begin ?r)))) =
       fst (updatePosition G (rv_master (Stop_end (Stop_begin ?r)))
         \<lparr>pe_gtid = ss_GTID st, pe_pos = ss_Position st, pe_force = False\<rparr>)"
    by blast+
  have "ms_needPositionReset (rv_master (fst (Serve_begin U S G cfg net (Stop_end (Stop_begin ?r)))))"
    unfolding m using reset by (simp add: updatePosition_def Let_def split: option.splits)
  with updatePosition_start(1)[OF assms(7,8,5,6) m] pc show ?thesis
    unfolding stop by (intro exI[of _ "fst (Serve_begin U S G cfg net (Stop_end (Stop_begin ?r)))"]) (metis prod.collapse)
qed

theorem replication_error_starts_again_witness:
  "\<exists>r'. Serve_begin count_calls saved_env text_gtid gtid_settings [(''h:9306'', ())]
        (Stop_end (CanalService_end (Some (Annotated ''run'' (MyError 1236 ''purged''))) (sample_waiting True)))
      = (r', WaitingForIndexes) \<and> ms_needPositionReset (rv_master r')"
proof -
  have "isReplicationError (Annotated ''run'' (MyError 1236 ''purged''))" by code_simp
  from replication_error_starts_again[OF this _ saved_env_holds, of "sample_waiting True" "''s''" count_calls]
    sample_waiting_facts[of True] show ?thesis
    by (auto simp: gtid_settings_def sample_river_config_def saved_sample_def text_gtid_def)
qed

text \<open>
  The canal reads a table exactly when its key contains the table name of a rule literally: the
  quoting leaves no character of a table name with a meaning in the pattern.
\<close>

theorem canal_reads_rule_tables:
  "includes_table (canal_settings cfg c) key \<longleftrightarrow>
   (\<exists>rule. rule \<in> set (c_IngestRules c) \<and> str_contains key (ir_TableName rule))"
  by (auto simp: includes_table_def canal_settings_def list_ex_iff literal_QuoteMeta)

text \<open>
  What a river that could be made has: a canal made with the settings of the configuration, the description of
  the table for every rule whose table name has a dot, a server that logs full row images (in any case of
  letters), and no service registered or running.
\<close>

theorem NewRiver_checked:
  assumes "NewRiver C c = Inr (canal, infos, r)"
  shows "ca_NewCanal C (canal_settings (ca_NewDefaultConfig C) c) = Inr canal \<and> length infos = length (c_IngestRules c) \<and>
     (\<forall>i<length infos. str_contains (ir_TableName (c_IngestRules c ! i)) ''.'' \<longrightarrow>
        (\<exists>schema table rest info. split_on (CHR ''.'') (ir_TableName (c_IngestRules c ! i)) = schema # table # rest \<and>
           ca_GetTable C canal schema table = Inr info \<and> infos ! i = Some info)) \<and>
     (\<exists>res. ca_Execute C canal ''SHOW GLOBAL VARIABLES LIKE \"binlog_row_image\"'' = Inr res \<and>
        map ascii_lower (fst (ca_GetString C res 0 1)) = ''full'') \<and>
     r = initial_river (newMasterState (c_UseGTID c) (c_Flavor c))"
proof -
  from assms have canal: "newCanal C c = Inr canal" and infos: "prepareRule C canal (c_IngestRules c) = Inr infos"
    and row: "CheckBinlogRowImage C canal = Inr ()" and r: "r = initial_river (newMasterState (c_UseGTID c) (c_Flavor c))"
    by (auto simp: NewRiver_def Let_def result_simps)
  have "map ascii_lower ''FULL'' = ''full''" by code_simp
  with row have "\<exists>res. ca_Execute C canal ''SHOW GLOBAL VARIABLES LIKE \"binlog_row_image\"'' = Inr res \<and>
        map ascii_lower (fst (ca_GetString C res 0 1)) = ''full''"
    by (auto simp: CheckBinlogRowImage_def EqualFold_def Let_def result_simps split: if_splits)
  with canal prepareRule_nth[OF infos] r show ?thesis by (auto simp: newCanal_def)
qed

theorem NewRiver_checked_witness:
  "\<exists>canal infos r. NewRiver sample_canal sample_Config = Inr (canal, infos, r) \<and> length infos = 1 \<and>
     rv_isRunning (r :: (unit, string) River) = False"
proof -
  have "(case NewRiver sample_canal sample_Config :: (string list \<times> string option list \<times> (unit, string) River) result of
      Inl f \<Rightarrow> False | Inr x \<Rightarrow> True)" by code_simp
  then obtain canal infos and r :: "(unit, string) River" where
    r: "NewRiver sample_canal sample_Config = Inr (canal, infos, r)"
    by (auto split: sum.splits)
  have "length (c_IngestRules sample_Config) = 1" by (simp add: sample_Config_def)
  with NewRiver_checked[OF r] r show ?thesis by (auto simp: initial_river_def)
qed

end
