(* ===== verification/Sync_Correct.thy ===== *)
theory Sync_Correct
  imports Sync_Safety
begin

text \<open>
  The properties of the sync loop: safety of the saved position, conservation of row changes, the
  absence of slice panics, what a failed batch leaves, and defects around GTIDs.
\<close>

subsection \<open>Reachability and the invariant\<close>

definition initial_event :: "'g masterState \<Rightarrow> 'g positionEvent" where
  "initial_event m = \<lparr>pe_gtid = gtidSet m, pe_pos = master_position m, pe_force = False\<rparr>"

lemma reach_inv:
  assumes "sync_reach R G C (initial_loop C m e t0) ms ap l" and "length (positions ms) < 2 ^ 64 - 1"
  shows "window_inv (initial_event m) ms ap (lp_state l) \<and>
     saved_inv (initial_event m # positions ms) m (sy_firstPositionEventID (lp_state l)) (lp_master l)"
  using assms
proof (induction rule: sync_reach.induct)
  case start
  then show ?case
    using window_inv_initial[of C m e t0] by (simp add: initial_loop_def initial_event_def saved_inv_def)
next
  case (turn ms ap l msg now bnow l')
  then have "length (positions ms) < 2 ^ 64 - 1" by simp
  with turn.IH have "window_inv (initial_event m) ms ap (lp_state l)"
    "saved_inv (initial_event m # positions ms) m (sy_firstPositionEventID (lp_state l)) (lp_master l)" by blast+
  from sync_turn_inv[OF this turn.prems turn.hyps(2)] show ?case .
qed

subsection \<open>Samples\<close>

definition sample_config :: sync_config where
  "sample_config = \<lparr>cf_FlushBulkTime = 1, cf_MinTimeAfterLastEvent = 10, cf_MaxTimeAfterFirstEvent = 100\<rparr>"

definition sample_renv :: "(unit, unit) batch_env" where
  "sample_renv = \<lparr>be_sphinx = down_env, be_mysql = (\<lambda>_ m. (m, Inr (sample_result GNil []))),
     be_go = plain_env, be_fmt_v = (\<lambda>_. []), be_DataSource = []\<rparr>"

definition sample_row :: TableRowChange where
  "sample_row = \<lparr>trc_Action = InsertAction, trc_Columns = [], trc_ColumnMap = [], trc_DocID = 5,
     trc_EventID = 0, trc_Index = ''i'', trc_OldRow = [], trc_NewRow = [],
     trc_PK = PrimaryKey 0 [], trc_TableName = ''db.t'', trc_TS = 0\<rparr>"

definition sample_master :: "string masterState" where
  "sample_master = (newMasterState True ''mysql'')\<lparr>ms_gtid := Some ''g0''\<rparr>"

definition no_stat :: stat where
  "no_stat = \<lparr>st_ProcessedRowEvents = 0, st_ProcessedDocEvents = 0, st_ProcessedBatches = 0,
     st_ReplaceAffectedRows = 0, st_ReplaceQueries = 0, st_ReplaceQueryDocs = 0, st_UpdateAffectedRows = 0,
     st_UpdateQueries = 0, st_DeleteAffectedRows = 0, st_DeleteQueries = 0, st_DeleteQueryDocs = 0\<rparr>"

definition sample_start :: "(unit, unit, string) sync_loop" where
  "sample_start = initial_loop sample_config sample_master
     \<lparr>en_stat = no_stat, en_sph = Some [], en_mysql = ()\<rparr> 0"

definition sample_event1 :: "string positionEvent" where
  "sample_event1 = \<lparr>pe_gtid = Some ''g1'', pe_pos = \<lparr>pos_Name = ''bin'', pos_Pos = 4\<rparr>, pe_force = False\<rparr>"

text \<open>A position event, then a row change.\<close>

definition sample_messages :: "string message list" where
  "sample_messages = [PositionMsg sample_event1, RowMsg sample_row]"

definition sample_after :: "(unit, unit, string) sync_loop" where
  "sample_after = sample_start\<lparr>lp_state := (lp_state sample_start)\<lparr>
     sy_positionEvents := sy_positionEvents (lp_state sample_start) @ [sample_event1],
     sy_lastPositionEventID := 1,
     sy_queue := AddRowChange (NewBatchedChangeSet ''queue'') (sample_row\<lparr>trc_EventID := 1\<rparr>)\<rparr>\<rparr>"

lemma sample_reach: "sync_reach sample_renv text_gtid sample_config sample_start sample_messages {#} sample_after"
proof -
  let ?m = "sample_start\<lparr>lp_state := (lp_state sample_start)\<lparr>
     sy_positionEvents := sy_positionEvents (lp_state sample_start) @ [sample_event1],
     sy_lastPositionEventID := 1\<rparr>\<rparr>"
  have "sync_turn sample_renv text_gtid sample_config (PositionMsg sample_event1) 0 0 sample_start = (?m, Inr True)"
    by (simp add: sync_turn_def acceptMessage_def no_need_def sample_event1_def sample_start_def initial_loop_def)
  from sync_reach.turn[OF sync_reach.start this]
  have one: "sync_reach sample_renv text_gtid sample_config sample_start [PositionMsg sample_event1] {#} ?m"
    by (simp add: sample_event1_def)
  have "sync_turn sample_renv text_gtid sample_config (RowMsg sample_row) 0 0 ?m = (sample_after, Inr True)"
    by (simp add: sync_turn_def acceptMessage_def no_need_def sample_after_def sample_start_def initial_loop_def)
  from sync_reach.turn[OF one this] show ?thesis by (simp add: sample_messages_def)
qed

lemma sample_batch_rows:
  "batch_rows (AddRowChange (NewBatchedChangeSet ''queue'') c) = [c]"
  by (simp add: batch_rows_def batch_docs_def AddRowChange_def AddDocumentChange_def NewBatchedChangeSet_def
      row_document_def Let_def)

subsection \<open>Properties\<close>





text \<open>
  C11. The window of position events: in every reachable state the kept events are the received
  ones from the first event id on, there is always at least one, and a flush of the queue, however
  it is split, moves the window without an index panic. The slice therefore holds no event before
  the oldest queued change.
\<close>

theorem window_advances:
  assumes "sync_reach R G C (initial_loop C m e t0) ms ap l" and "length (positions ms) < 2 ^ 64 - 1"
  shows "sy_positionEvents (lp_state l) =
       drop (unat (sy_firstPositionEventID (lp_state l))) (initial_event m # positions ms) \<and>
     sy_positionEvents (lp_state l) \<noteq> [] \<and>
     (\<exists>s'. advance (SplitQueue isReady (lp_state l)) = (s', Inr ()) \<and> sy_positionEvents s' \<noteq> [] \<and>
        sy_firstPositionEventID (lp_state l) \<le> sy_firstPositionEventID s')"
proof -
  have w: "window_inv (initial_event m) ms ap (lp_state l)" using reach_inv[OF assms] by blast
  have "sy_firstPositionEventID (SplitQueue isReady (lp_state l)) = sy_firstPositionEventID (lp_state l)"
    by (simp add: SplitQueue_split_batch)
  then have "\<exists>s'. advance (SplitQueue isReady (lp_state l)) = (s', Inr ()) \<and> sy_positionEvents s' \<noteq> [] \<and>
        sy_firstPositionEventID (lp_state l) \<le> sy_firstPositionEventID s'"
    using advance_inv[OF SplitQueue_inv[OF w, of isReady]] by metis
  moreover have "drop (unat (sy_firstPositionEventID (lp_state l))) (initial_event m # positions ms) \<noteq> []"
    using window_invD(4)[OF w] by simp
  ultimately show ?thesis using window_invD(5)[OF w] by metis
qed

theorem window_advances_witness:
  "\<exists>s'. advance (SplitQueue (\<lambda>_. True) (lp_state sample_after)) = (s', Inr ()) \<and> sy_positionEvents s' \<noteq> []"
proof -
  have "length (positions sample_messages) = 1" by (simp add: sample_messages_def)
  with window_advances[OF sample_reach[unfolded sample_start_def], of "\<lambda>_. True"] show ?thesis by auto
qed

text \<open>
  Splitting the queue moves whole documents: a document goes to the staged set, with all its
  changes as they were queued, exactly if it is ready, and stays queued exactly if it is not;
  what was staged before is dropped.
\<close>

theorem SplitQueue_documents:
  assumes "batch_wf (sy_queue s)"
  shows "batch_doc (sy_staged (SplitQueue isReady s)) index i =
       (case batch_doc (sy_queue s) index i of None \<Rightarrow> None | Some d \<Rightarrow> if isReady d then Some d else None) \<and>
     batch_doc (sy_queue (SplitQueue isReady s)) index i =
       (case batch_doc (sy_queue s) index i of None \<Rightarrow> None | Some d \<Rightarrow> if isReady d then None else Some d)"
  using split_batch_parts[of isReady "sy_queue s"]
    batch_doc_filter[OF assms, of isReady _ index i]
    batch_doc_filter[OF assms, of "\<lambda>d. \<not> isReady d" _ index i]
  by (auto simp: SplitQueue_split_batch split: option.splits)

theorem SplitQueue_documents_witness:
  "batch_doc (sy_staged (SplitQueue (\<lambda>d. dc_DocID d = 5) (lp_state sample_after))) ''i'' 5 =
   batch_doc (sy_queue (lp_state sample_after)) ''i'' 5"
proof -
  have "batch_wf (sy_queue (lp_state sample_after))" by (simp add: sample_after_def)
  moreover have "batch_doc (sy_queue (lp_state sample_after)) ''i'' 5 = Some (row_document (sample_row\<lparr>trc_EventID := 1\<rparr>))"
    by code_simp
  ultimately show ?thesis
    using SplitQueue_documents[of "lp_state sample_after" "\<lambda>d. dc_DocID d = 5" "''i''" 5]
    by (simp add: row_document_def sample_row_def)
qed

text \<open>
  C16. A failed batch never advances the position: when executing the staged changes returns an
  error, the loop ends, the error goes to the channel of fatal errors, and the final save writes
  the same position as before the turn, so the staged changes are read again after a restart.
\<close>

theorem failed_batch_keeps_position:
  assumes "acceptMessage G (cf_FlushBulkTime C) (lp_master l) msg (lp_state l) = Inr (s, need, sends)"
    and "need_flush need" and "\<not> need_stop need"
    and "snd (doBatch R (sy_staged (SplitQueue (doc_ready C now) s)) (lp_engine l)) = Inl (Fails err)"
    and "SyncLoop R G C ((msg, now, bnow) # ms) l = (l', r)"
  shows "lp_master l' = lp_master l \<and> err \<in> set (lp_fatal l') \<and> r \<noteq> Inr True"
proof -
  let ?l = "l\<lparr>lp_state := s, lp_sends := lp_sends l @ sends\<rparr>"
  let ?f = "flush R G C now bnow ?l"
  have f: "snd ?f = Inl (Fails err)" "lp_master (fst ?f) = lp_master l" "err \<in> set (lp_fatal (fst ?f))"
    using assms(4) by (simp_all add: flush_def Let_def)
  have "sync_turn R G C msg now bnow l = (fst ?f, Inr False)"
    using assms(1-3) f(1) by (simp add: sync_turn_def Let_def)
  then have "l' = fst (SaveState (be_sphinx R) G (fst ?f))" "r = bindR (snd (SaveState (be_sphinx R) G (fst ?f))) (\<lambda>_. Inr False)"
    using assms(5) by (auto simp: Let_def)
  then show ?thesis
    using f(2,3) by (auto simp: SaveState_frame bindR_def split: sum.splits)
qed

theorem failed_batch_keeps_position_witness:
  "lp_master (fst (SyncLoop sample_renv text_gtid sample_config [(FlushTick, 50, 50)] sample_after)) = sample_master"
proof -
  let ?r = "SyncLoop sample_renv text_gtid sample_config [(FlushTick, 50, 50)] sample_after"
  have "acceptMessage text_gtid (cf_FlushBulkTime sample_config) (lp_master sample_after) FlushTick (lp_state sample_after)
      = Inr (lp_state sample_after, \<lparr>need_flush = True, need_stop = False\<rparr>, [])"
    by (simp add: acceptMessage_def sample_config_def no_need_def)
  moreover have "snd (doBatch sample_renv (sy_staged (SplitQueue (doc_ready sample_config 50) (lp_state sample_after)))
      (lp_engine sample_after)) = Inl (Fails (ErrMsg ''no data source for 'i' index''))"
    by code_simp
  ultimately have "lp_master (fst ?r) = lp_master sample_after"
    using failed_batch_keeps_position[of text_gtid sample_config sample_after FlushTick "lp_state sample_after"
        "\<lparr>need_flush = True, need_stop = False\<rparr>" "[]" sample_renv 50
        "ErrMsg ''no data source for 'i' index''" 50 "[]" "fst ?r" "snd ?r"] by simp
  then show ?thesis by (simp add: sample_after_def sample_start_def initial_loop_def)
qed

lemma flush_saves:
  assumes "s1 = SplitQueue (doc_ready C now) (lp_state l)"
    and "doBatch R (sy_staged s1) (lp_engine l) = (e', Inr ())"
    and "advance (arm_timer C s1) = (s', Inr ())" and "sy_positionEvents s' = ev # rest"
    and "bnow - lp_lastSaved l > save_interval"
  shows "lp_master (fst (flush R G C now bnow l)) = fst (updatePosition G (lp_master l) ev) \<and>
     sy_queue (lp_state (fst (flush R G C now bnow l))) = sy_queue s'"
proof -
  let ?l = "l\<lparr>lp_engine := e', lp_state := s'\<rparr>"
  have f: "flush R G C now bnow l = save_position (be_sphinx R) G bnow ?l"
    using assms(1-3) by (simp add: flush_def Let_def)
  let ?u = "updatePosition G (lp_master l) ev"
  let ?m = "?l\<lparr>lp_lastSaved := bnow, lp_master := fst ?u\<rparr>"
  show ?thesis
  proof (cases "snd ?u")
    case False
    then show ?thesis using assms(4,5) by (simp add: f save_position_def Let_def)
  next
    case True
    then have "flush R G C now bnow l = bindS (SaveState (be_sphinx R) G) (\<lambda>_ l.
        case processGTIDSubscribers G (lp_state l) of
          Inl e \<Rightarrow> (l, Inl e)
        | Inr r \<Rightarrow> (l\<lparr>lp_state := fst r, lp_sends := lp_sends l @ snd r\<rparr>, Inr ())) ?m"
      using assms(4,5) by (simp add: f save_position_def Let_def)
    then show ?thesis
      using processGTIDSubscribers_frame[of G "lp_state ?m"]
      by (auto simp: bindS_cases SaveState_frame split: sum.splits)
  qed
qed

text \<open>
  C15. The GTID of a transaction is saved before the transaction is applied: the handler announces
  a transaction \<open>g\<close> by a position event that carries \<open>g\<close> itself. If the transaction's first row
  change is not ready at the next flush, the window starts at that event and the saved GTID
  becomes \<open>g\<close>, while the row change is still queued; replication restarted from there begins
  behind \<open>g\<close> and never sees it again.
\<close>

theorem unfinished_gtid_saved:
  assumes "gt_mariadb H g = None"
    and "fst (snd (OnGTID H (Inr ()) (Some g) h)) = [ev]"
    and "\<not> doc_ready C now (row_document (c\<lparr>trc_EventID := 1\<rparr>))"
    and "bnow - t0 > save_interval"
    and "SyncLoop R G C [(PositionMsg ev, n1, b1), (RowMsg c, n2, b2), (FlushTick, now, bnow)]
           (initial_loop C m e t0) = (l, r)"
  shows "ms_gtid (lp_master l) = Some g \<and>
     batch_rows (sy_queue (lp_state l)) = [c\<lparr>trc_EventID := 1\<rparr>]"
proof -
  let ?c = "c\<lparr>trc_EventID := 1\<rparr>" and ?l0 = "initial_loop C m e t0"
  have ev: "ev = \<lparr>pe_gtid = Some g, pe_pos = eh_pos h, pe_force = False\<rparr>"
    using assms(1,2) by (simp add: OnGTID_def updateGTID_def sendPositionEvent_def Let_def)
  let ?s2 = "(lp_state ?l0)\<lparr>sy_positionEvents := sy_positionEvents (lp_state ?l0) @ [ev],
      sy_lastPositionEventID := 1, sy_queue := AddRowChange (NewBatchedChangeSet ''queue'') ?c\<rparr>"
  let ?l2 = "?l0\<lparr>lp_state := ?s2\<rparr>"
  have run: "SyncLoop R G C [(PositionMsg ev, n1, b1), (RowMsg c, n2, b2), (FlushTick, now, bnow)] ?l0 =
      SyncLoop R G C [(FlushTick, now, bnow)] ?l2"
    by (simp add: sync_turn_def acceptMessage_def no_need_def ev initial_loop_def)
  let ?s3 = "if cf_FlushBulkTime C = 0 then ?s2\<lparr>sy_flushC := False, sy_flushTimer := False\<rparr> else ?s2"
  have split: "SplitQueue (doc_ready C now) ?s3 = ?s3\<lparr>sy_staged := NewBatchedChangeSet ''staged'',
      sy_queue := AddDocumentChange (NewBatchedChangeSet ''queue'') (row_document ?c)\<rparr>"
    using assms(3) by (simp add: SplitQueue_def queued_docs_def AddRowChange_def AddDocumentChange_def
        NewBatchedChangeSet_def NewBatchedChangeSetPair_def split_doc_def Let_def)
  have batch: "doBatch R (NewBatchedChangeSet ''staged'') e = (e, Inr ())"
    by (simp add: doBatch_def NewBatchedChangeSet_def returnS_def)
  let ?q = "AddDocumentChange (NewBatchedChangeSet ''queue'') (row_document ?c)"
  have first: "FirstSeenPositionEventID ?q 1 = 1" and rows: "batch_rows ?q = [?c]"
    using sample_batch_rows[of ?c] by (simp_all add: FirstSeen_Min AddRowChange_def)
  let ?l3 = "?l2\<lparr>lp_state := ?s3\<rparr>" and ?s4 = "SplitQueue (doc_ready C now) ?s3"
  have "\<exists>s'. advance (arm_timer C ?s4) = (s', Inr ()) \<and> sy_positionEvents s' = [ev] \<and> sy_queue s' = ?q"
    unfolding split by (simp add: arm_timer_def advance_def first initial_loop_def Let_def)
  then obtain s' where adv: "advance (arm_timer C ?s4) = (s', Inr ())" "sy_positionEvents s' = [ev]" "sy_queue s' = ?q"
    by blast
  have "doBatch R (sy_staged ?s4) (lp_engine ?l3) = (e, Inr ())"
    unfolding split by (simp add: batch initial_loop_def)
  from flush_saves[of ?s4 C now ?l3, OF _ this adv(1,2), of bnow G] assms(4)
  have flushed: "lp_master (fst (flush R G C now bnow ?l3)) = fst (updatePosition G m ev)"
    "sy_queue (lp_state (fst (flush R G C now bnow ?l3))) = ?q"
    using adv(3) by (simp_all add: initial_loop_def)
  have "fst (sync_turn R G C FlushTick now bnow ?l2) = fst (flush R G C now bnow ?l3)"
    by (simp add: sync_turn_def acceptMessage_def no_need_def Let_def initial_loop_def)
  then have "lp_master l = lp_master (fst (flush R G C now bnow ?l3)) \<and>
      lp_state l = lp_state (fst (flush R G C now bnow ?l3))"
    using assms(5) unfolding run by (auto simp: Let_def SaveState_frame split: sum.splits bool.splits)
  with flushed rows show ?thesis by (simp add: updatePosition_gtid ev)
qed

definition mysql_handler_env :: "string handler_env" where
  "mysql_handler_env = \<lparr>gt_mariadb = (\<lambda>_. None), gt_AddSet = (\<lambda>a b. Inr (a @ b))\<rparr>"

theorem unfinished_gtid_saved_witness:
  "ms_gtid (lp_master (fst (SyncLoop sample_renv text_gtid sample_config
     [(PositionMsg (sample_event1\<lparr>pe_pos := empty_position\<rparr>), 0, 0), (RowMsg sample_row, 0, 0),
      (FlushTick, 5, 4 * 10 ^ 9)] sample_start))) = Some ''g1''"
proof -
  let ?ev = "sample_event1\<lparr>pe_pos := empty_position\<rparr>"
  let ?r = "SyncLoop sample_renv text_gtid sample_config [(PositionMsg ?ev, 0, 0), (RowMsg sample_row, 0, 0),
      (FlushTick, 5, 4 * 10 ^ 9)] sample_start"
  have "fst (snd (OnGTID mysql_handler_env (Inr ()) (Some ''g1'') (newReplicationEventHandler sample_master))) = [?ev]"
    by (simp add: OnGTID_def updateGTID_def mysql_handler_env_def sendPositionEvent_def
        newReplicationEventHandler_def sample_master_def newMasterState_def sample_event1_def
        master_position_def Let_def)
  moreover have "\<not> doc_ready sample_config 5 (row_document (sample_row\<lparr>trc_EventID := 1\<rparr>))"
    by (simp add: doc_ready_def sample_config_def row_document_def sample_row_def)
  ultimately show ?thesis
    using unfinished_gtid_saved[of mysql_handler_env "''g1''" "newReplicationEventHandler sample_master" ?ev
        sample_config 5 sample_row "4 * 10 ^ 9" 0 sample_renv text_gtid 0 0 0 0 sample_master
        "\<lparr>en_stat = no_stat, en_sph = Some [], en_mysql = ()\<rparr>" "fst ?r" "snd ?r"]
    by (simp add: mysql_handler_env_def save_interval_def sample_start_def del: SyncLoop.simps)
qed

text \<open>The pending subscriptions with the GTID sets they wait for.\<close>

definition subscriptions :: "'g syncState \<Rightarrow> ('g gref \<times> 'g gtidSubscriber) list" where
  "subscriptions s =
     concat (map (\<lambda>p. concat (map (\<lambda>e. map (\<lambda>sub. (fst e, sub)) (snd e)) (snd p))) (sy_gtidSubscribers s))"

lemma processGTIDSubscribers_sends:
  fixes s :: "'g syncState"
  assumes "sy_positionEvents s = ev # rest" and "pe_gtid ev = Some g"
  shows "\<exists>s'. processGTIDSubscribers G s =
       Inr (s', map (\<lambda>x. (gs_c (snd x), g)) (filter (\<lambda>x. ge_Contain G g (snd (fst x))) (subscriptions s))) \<and>
     subscriptions s' = filter (\<lambda>x. \<not> ge_Contain G g (snd (fst x))) (subscriptions s)"
proof -
  have inner: "filter (\<lambda>x. P (fst x)) (concat (map (\<lambda>e. map (\<lambda>sub. (fst e, sub)) (snd e)) m)) =
      concat (map (\<lambda>e. map (\<lambda>sub. (fst e, sub)) (snd e)) (filter (\<lambda>e. P (fst e)) m))"
    for P and m :: "('g gref \<times> 'g gtidSubscriber list) list"
    by (induction m) (simp_all add: comp_def)
  have told: "concat (map (\<lambda>p. concat (map (\<lambda>e. map (\<lambda>sub. (gs_c sub, g)) (snd e))
        (filter (\<lambda>e. ge_Contain G g (snd (fst e))) (snd p)))) m) =
      map (\<lambda>x. (gs_c (snd x), g)) (filter (\<lambda>x. ge_Contain G g (snd (fst x)))
        (concat (map (\<lambda>p. concat (map (\<lambda>e. map (\<lambda>sub. (fst e, sub)) (snd e)) (snd p))) m)))"
    for m :: "(string, ('g gref, 'g gtidSubscriber list) amap) amap"
    by (induction m) (simp_all add: inner[of "\<lambda>r. ge_Contain G g (snd r)"] map_concat comp_def)
  have kept: "concat (map (\<lambda>p. concat (map (\<lambda>e. map (\<lambda>sub. (fst e, sub)) (snd e))
        (filter (\<lambda>e. \<not> ge_Contain G g (snd (fst e))) (snd p)))) m) =
      filter (\<lambda>x. \<not> ge_Contain G g (snd (fst x)))
        (concat (map (\<lambda>p. concat (map (\<lambda>e. map (\<lambda>sub. (fst e, sub)) (snd e)) (snd p))) m))"
    for m :: "(string, ('g gref, 'g gtidSubscriber list) amap) amap"
    by (induction m) (simp_all add: inner[of "\<lambda>r. \<not> ge_Contain G g (snd r)"])
  show ?thesis
    using assms by (simp add: processGTIDSubscribers_def go_index_def subscriptions_def told kept comp_def)
qed

text \<open>
  Notifying GTID subscribers: exactly the subscribers whose GTID the new set contains are sent
  the new set, each of them once, and they are forgotten; every other subscription is kept.
\<close>

theorem subscribers_notified:
  assumes "sy_positionEvents s = ev # rest" and "pe_gtid ev = Some g"
  shows "\<exists>s'. processGTIDSubscribers G s =
       Inr (s', map (\<lambda>x. (gs_c (snd x), g)) (filter (\<lambda>x. ge_Contain G g (snd (fst x))) (subscriptions s))) \<and>
     subscriptions s' = filter (\<lambda>x. \<not> ge_Contain G g (snd (fst x))) (subscriptions s)"
  using assms by (rule processGTIDSubscribers_sends)

theorem subscribers_notified_witness:
  "\<exists>s'. processGTIDSubscribers text_gtid
       ((lp_state sample_start)\<lparr>sy_gtidSubscribers :=
          [(''p'', [((1, ''g0''), [\<lparr>gs_c = 3, gs_gtid = Some (1, ''g0''), gs_peer = ''p''\<rparr>])])]\<rparr>)
     = Inr (s', [(3, ''g0'')]) \<and> subscriptions s' = []"
proof -
  let ?s = "(lp_state sample_start)\<lparr>sy_gtidSubscribers :=
      [(''p'', [((1, ''g0''), [\<lparr>gs_c = 3, gs_gtid = Some (1, ''g0''), gs_peer = ''p''\<rparr>])])]\<rparr>"
  have "sy_positionEvents ?s = [initial_event sample_master]"
    by (simp add: sample_start_def initial_loop_def initial_event_def)
  moreover have "pe_gtid (initial_event sample_master) = Some ''g0''"
    by (simp add: initial_event_def sample_master_def gtidSet_def)
  ultimately show ?thesis
    using subscribers_notified[of ?s "initial_event sample_master" "[]" "''g0''" text_gtid]
    by (simp add: subscriptions_def text_gtid_def)
qed

text \<open>
  Replication without a known GTID panics: a handler started from a master state that has no
  GTID fails on the first commit (\<open>Clone\<close> of a nil interface), on the first MariaDB GTID (type
  assertion on a nil interface), and a GTID subscription that reaches the sync loop calls
  \<open>Contain\<close> on a nil interface.
\<close>

theorem no_gtid_panics:
  assumes "ms_gtid m = None" and "gt_mariadb H g = Some (x # xs)" and "gs_gtid gs = Some ref"
  shows "snd (snd (OnXID t ctx pos (newReplicationEventHandler m))) = Inl (Panics NilDereference) \<and>
     snd (snd (OnGTID H ctx (Some g) (newReplicationEventHandler m))) = Inl (Panics TypeAssertion) \<and>
     acceptMessage G t m (SubscribeMsg gs) s = Inl (Panics NilDereference)"
  using assms
  by (simp add: OnXID_def OnGTID_def updateGTID_def newReplicationEventHandler_def gtidSet_def bindS_cases
      acceptMessage_def processGTIDSubscribeRequest_def Let_def)

theorem no_gtid_panics_witness:
  "snd (snd (OnXID 0 (Inr ()) empty_position (newReplicationEventHandler (newMasterState False ''mysql'' :: string masterState))))
     = Inl (Panics NilDereference)"
  using no_gtid_panics[of "newMasterState False ''mysql''"
      "mysql_handler_env\<lparr>gt_mariadb := \<lambda>g. Some [g]\<rparr>" "''g''" "''g''" "[]"
      "\<lparr>gs_c = 1, gs_gtid = Some (1, ''g''), gs_peer = []\<rparr>" "(1, ''g'')" 0 "Inr ()" empty_position text_gtid
      "lp_state sample_start"]
  by (simp add: newMasterState_def)

end
