(* ===== verification/Http_Status.thy ===== *)
theory Http_Status
  imports River_Setup Sync_Correct
begin

text \<open>
  The status server of \<open>src/river/status.go\<close> besides the two handlers of \<open>Supervision\<close>: the probes, \<open>/maint\<close>,
  \<open>/wait\<close> and \<open>/stats\<close>, with the counters that \<open>OnRow\<close> of \<open>sync.go\<close> keeps. The texts that libraries make
  (error stacks, durations, printed positions, JSON) are parameters. Times and durations are in nanoseconds.
\<close>

subsection \<open>Routes\<close>

datatype endpoint =
    Healthz | Readyz | Stats | Maint | WaitForGTID | StartSync | StopSync
  | DebugVars | PprofIndex | PprofCmdline | PprofProfile | PprofSymbol | PprofTrace

definition endpoint_of :: "string \<Rightarrow> endpoint option" where
  "endpoint_of path =
     (case map_of
        [(''/healthz'', Healthz), (''/readyz'', Readyz), (''/stats'', Stats), (''/maint'', Maint),
         (''/wait'', WaitForGTID), (''/syncing/start'', StartSync), (''/syncing/stop'', StopSync),
         (''/debug/vars'', DebugVars), (''/debug/pprof/cmdline'', PprofCmdline),
         (''/debug/pprof/profile'', PprofProfile), (''/debug/pprof/symbol'', PprofSymbol),
         (''/debug/pprof/trace'', PprofTrace)] path of
        Some e \<Rightarrow> Some e
      | None \<Rightarrow> if has_prefix path ''/debug/pprof/'' then Some PprofIndex else None)"

subsection \<open>Probes\<close>

text \<open>A response without a body, and without a content type.\<close>

definition empty_response :: "nat \<Rightarrow> http_response" where
  "empty_response status = \<lparr>rs_ContentType = [], rs_Status = status, rs_Body = []\<rparr>"

text \<open>\<open>healthy\<close> is a global that the server sets to 1 when it starts to listen.\<close>

definition handleHealthz :: "32 word \<Rightarrow> http_response" where
  "handleHealthz healthy = (if healthy = 1 then empty_response 204 else empty_response 503)"

definition handleReadyz :: "32 word \<Rightarrow> int \<Rightarrow> int \<Rightarrow> ('b, 'g) River \<Rightarrow> http_response" where
  "handleReadyz healthy startedAt now r =
     (let d = now - startedAt
      in if \<not> rv_isRunning r \<and> d < 45 * 10 ^ 9 then empty_response 204
         else if rv_isRunning r \<and> healthy = 1 then empty_response 204
         else empty_response 503)"

subsection \<open>Maintenance\<close>

definition handleMaint ::
  "(go_error \<Rightarrow> string) \<Rightarrow> 'b sph_env \<Rightarrow> river_config \<Rightarrow> http_request \<Rightarrow> (('b, 'g) River, http_response) call" where
  "handleMaint errorStack S cfg req r =
     (if rq_Method req \<noteq> ''POST'' then (r, Inr (text_response 405 (''unexpected method'' @ newline)))
      else if \<not> rv_isRunning r then (r, Inr (text_response 200 (''river not running'' @ newline)))
      else
        (let index = rq_Query req ''index''
         in if index = [] then (r, Inr (text_response 400 (''index not specified'' @ newline)))
            else
              (case map_of (rc_DataSource cfg) index of
                 None \<Rightarrow> (r, Inr (text_response 404 (''index '' @ index @ '' not found'' @ newline)))
               | Some parts \<Rightarrow>
                   (let x = SphinxService_CheckIndexForOptimize S (rc_MaxRAMChunkBytes cfg) index parts
                        (rv_sphinxService r);
                        r' = r\<lparr>rv_sphinxService := fst x\<rparr>
                    in case snd x of
                         Inr _ \<Rightarrow> (r', Inr (text_response 204 []))
                       | Inl (Fails e) \<Rightarrow> (r', Inr (text_response 500 (errorStack e @ newline)))
                       | Inl p \<Rightarrow> (r', Inl p)))))"

subsection \<open>Waiting for a GTID\<close>

text \<open>
  The handler up to its \<open>select\<close>: it either responds or has put a subscription into the sync channel, and waits
  with or without a timer. \<open>fresh\<close> names the new channel and the address of the parsed set.
\<close>

datatype 'g wait_start = Respond http_response | Subscribe "'g gtidSubscriber" "int option"

definition handleWaitForGTID ::
  "'g gtid_env \<Rightarrow> string \<Rightarrow> (string \<Rightarrow> int result) \<Rightarrow> nat \<Rightarrow> http_request \<Rightarrow> ('b, 'g) River \<Rightarrow> 'g wait_start" where
  "handleWaitForGTID G flavor ParseDuration fresh req r =
     (if rq_Method req \<noteq> ''POST'' then Respond (text_response 405 (''unexpected method'' @ newline))
      else if \<not> rv_isRunning r then Respond (text_response 200 (''river not running'' @ newline))
      else
        (let gtidString = rq_PostForm req ''gtid''
         in if gtidString = [] then Respond (text_response 400 (''gtid not specified'' @ newline))
            else
              (case ge_Parse G flavor gtidString of
                 Inl e \<Rightarrow> Respond (text_response 422 (''invalid gtid specified'' @ newline))
               | Inr gtid \<Rightarrow>
                   (let subscribe = \<lparr>gs_c = fresh, gs_gtid = map_option (Pair fresh) gtid, gs_peer = rq_RemoteAddr req\<rparr>;
                        timeoutString = rq_PostForm req ''timeout''
                    in if timeoutString = [] then Subscribe subscribe None
                       else
                         (case ParseDuration timeoutString of
                            Inl e \<Rightarrow> Respond (text_response 422 (''invalid timeout specified'' @ newline))
                          | Inr timeout \<Rightarrow> Subscribe subscribe (Some timeout))))))"

text \<open>What the \<open>select\<close> can receive, what it then puts into the sync channel, and the response.\<close>

datatype 'g wait_event = RequestDone | TimerFired | NewGTID 'g

definition wait_end ::
  "'g gtid_env \<Rightarrow> http_request \<Rightarrow> 'g wait_event \<Rightarrow> 'g message list \<times> http_response option" where
  "wait_end G req event =
     (case event of
        RequestDone \<Rightarrow> ([CancelMsg (rq_RemoteAddr req)], None)
      | TimerFired \<Rightarrow> ([CancelMsg (rq_RemoteAddr req)], Some (text_response 504 (''timeout exceeded'' @ newline)))
      | NewGTID newGTID \<Rightarrow> ([], Some (text_response 200 (ge_String G newGTID @ newline))))"

subsection \<open>Counters and status\<close>

record stat_service =
  ss_stat :: stat
  ss_startedAt :: int
  ss_lastRowEvent :: int

text \<open>The event handler's \<open>OnRow\<close>; a panic of \<open>ApplyRuleSet\<close> leaves the counters as they were.\<close>

definition OnRow ::
  "go_env \<Rightarrow> (nat \<Rightarrow> nat \<Rightarrow> int) \<Rightarrow> IngestRule list \<Rightarrow> rows_event \<Rightarrow> stat_service \<Rightarrow>
   stat_service \<times> nats_message list \<times> TableRowChange list \<times> fault option" where
  "OnRow E clock rules e s =
     (let x = ApplyRuleSet E clock rules e; docs = fst (snd x); err = snd (snd x)
      in (case err of
            Some (Panics p) \<Rightarrow> s
          | _ \<Rightarrow>
              s\<lparr>ss_lastRowEvent := int (unat (ev_Timestamp e)) * 10 ^ 9,
                ss_stat := (ss_stat s)
                  \<lparr>st_ProcessedRowEvents := st_ProcessedRowEvents (ss_stat s) + 1,
                   st_ProcessedDocEvents := st_ProcessedDocEvents (ss_stat s) + of_nat (length docs)\<rparr>\<rparr>, x))"

record 'g statusInfo =
  si_UptimeNano :: int
  si_LagNano :: int
  si_UpstreamPositionInfo :: Position
  si_ReadPositionInfo :: Position
  si_UpstreamGTIDInfo :: "'g option"
  si_ReadGTIDInfo :: "'g option"
  si_stat :: stat
  si_Running :: bool
  si_Syncing :: bool

text \<open>Also the strings \<open>Uptime\<close>, \<open>Lag\<close>, \<open>UpstreamPosition\<close>, \<dots> are printed from these fields.\<close>

definition newStatusInfo ::
  "Position result \<Rightarrow> 'g option result \<Rightarrow> int \<Rightarrow> stat_service \<Rightarrow> ('b, 'g) River \<Rightarrow> 'g statusInfo result" where
  "newStatusInfo GetMasterPos GetMasterGTIDSet now s r =
     bindR GetMasterPos (\<lambda>upstreamPos. bindR GetMasterGTIDSet (\<lambda>upstreamGTID.
       Inr \<lparr>si_UptimeNano = now - ss_startedAt s, si_LagNano = now - ss_lastRowEvent s,
            si_UpstreamPositionInfo = upstreamPos, si_ReadPositionInfo = master_position (rv_master r),
            si_UpstreamGTIDInfo = upstreamGTID, si_ReadGTIDInfo = gtidSet (rv_master r),
            si_stat = ss_stat s, si_Running = IsRunning r, si_Syncing = IsSyncing r\<rparr>))"

text \<open>\<open>encode\<close> is the JSON encoder, printed strings included.\<close>

definition stat_ServeHTTP ::
  "(go_error \<Rightarrow> string) \<Rightarrow> ('g statusInfo \<Rightarrow> string result) \<Rightarrow> 'g statusInfo result \<Rightarrow> http_response result" where
  "stat_ServeHTTP errorStack encode status =
     (case bindR status encode of
        Inr body \<Rightarrow> Inr \<lparr>rs_ContentType = ''application/json'', rs_Status = 200, rs_Body = body\<rparr>
      | Inl (Fails e) \<Rightarrow> Inr \<lparr>rs_ContentType = [], rs_Status = 500, rs_Body = errorStack e\<rparr>
      | Inl p \<Rightarrow> Inl p)"

text \<open>For \<open>expvar\<close>: an error gives an empty map.\<close>

definition getStatusInfo :: "'g statusInfo result \<Rightarrow> 'g statusInfo option result" where
  "getStatusInfo status =
     (case status of Inr s \<Rightarrow> Inr (Some s) | Inl (Fails e) \<Rightarrow> Inr None | Inl p \<Rightarrow> Inl p)"

text \<open>The published variable: nothing until the service has set the function.\<close>

definition river_expvar :: "'g statusInfo option result option \<Rightarrow> 'g statusInfo option result" where
  "river_expvar get = (case get of None \<Rightarrow> Inr None | Some r \<Rightarrow> r)"

text \<open>
  The service up to listening: without an address it returns at once, a failing listener is fatal, and otherwise
  the times are set, the process counts as healthy and requests are served (\<open>Inr True\<close>).
\<close>

definition stat_run ::
  "string \<Rightarrow> unit result \<Rightarrow> int \<Rightarrow> stat_service \<times> 32 word \<Rightarrow> (stat_service \<times> 32 word) \<times> bool result" where
  "stat_run addr listen now s =
     (if addr = [] then (s, Inr False)
      else case listen of
             Inl e \<Rightarrow> (s, Inl e)
           | Inr _ \<Rightarrow> (((fst s)\<lparr>ss_lastRowEvent := now, ss_startedAt := now\<rparr>, 1), Inr True))"

definition stat_Serve :: "go_error \<Rightarrow> unit result \<Rightarrow> go_error list \<Rightarrow> go_error list" where
  "stat_Serve ErrServerClosed result fatal =
     (case result of Inl (Fails e) \<Rightarrow> if e = ErrServerClosed then fatal else fatal @ [e] | _ \<Rightarrow> fatal)"

text \<open>Stopping: with a listener, one second for the running requests, then the listener is closed.\<close>

datatype server_call = Shutdown int | CloseListener

definition stat_Stop :: "bool \<Rightarrow> server_call list" where
  "stat_Stop listening = (if listening then [Shutdown 1000000000, CloseListener] else [])"

end
