(* ===== verification/Http_Status_Correct.thy ===== *)
theory Http_Status_Correct
  imports Http_Status
begin

text \<open>
  The handlers of the status server: what they refuse, what \<open>/maint\<close> does to the connections of a river
  whose synchronization was stopped, and how \<open>/wait\<close> and the sync loop serve a waiting request together.
\<close>

lemma subscriptions_aput:
  "(r, gs) \<in> set (concat (map (\<lambda>e. map (Pair (fst e)) (snd e)) m)) \<Longrightarrow>
   (r, gs) \<in> set (subscriptions (s\<lparr>sy_gtidSubscribers := aput p m ss\<rparr>))"
  by (induction ss) (auto simp: subscriptions_def)

lemma aput_member: "(k, v) \<in> set (aput k v m)"
  by (induction m) auto

lemma subscribed:
  assumes "gs_gtid gs = Some r" and "gtidSet m = Some current" and "\<not> ge_Contain G current (snd r)"
  shows "\<exists>s'. acceptMessage G t m (SubscribeMsg gs) s = Inr (s', no_need, []) \<and>
     sy_positionEvents s' = sy_positionEvents s \<and> (r, gs) \<in> set (subscriptions s')"
proof -
  let ?peerSubs = "case map_of (sy_gtidSubscribers s) (gs_peer gs) of None \<Rightarrow> [] | Some m \<Rightarrow> m"
  let ?subs = "case map_of ?peerSubs r of None \<Rightarrow> [] | Some l \<Rightarrow> l"
  let ?s = "s\<lparr>sy_gtidSubscribers := aput (gs_peer gs) (aput r (?subs @ [gs]) ?peerSubs) (sy_gtidSubscribers s)\<rparr>"
  have "acceptMessage G t m (SubscribeMsg gs) s = Inr (?s, no_need, [])"
    using assms by (simp add: acceptMessage_def processGTIDSubscribeRequest_def Let_def)
  moreover have "(r, gs) \<in> set (subscriptions ?s)"
    by (rule subscriptions_aput) (use aput_member[of r "?subs @ [gs]" ?peerSubs] in force)
  ultimately show ?thesis by (intro exI[of _ ?s]) simp
qed

lemma cancelled:
  "acceptMessage G t m (CancelMsg peer) s = Inr (s', need, sends) \<Longrightarrow>
   map_of (sy_gtidSubscribers s') peer = None"
  by (auto simp: acceptMessage_def adel_lookup)

subsection \<open>Properties\<close>

text \<open>
  What the four handlers for POST requests refuse: another method is answered with 405, and a river that does not
  run with a notice, in all of them alike, without any change to the river and without a message to the sync loop.
\<close>

theorem post_handlers_refuse:
  assumes "rq_Method req \<noteq> ''POST'' \<or> \<not> rv_isRunning r"
  shows "\<exists>resp. resp = (if rq_Method req \<noteq> ''POST'' then text_response 405 (''unexpected method'' @ newline)
       else text_response 200 (''river not running'' @ newline)) \<and>
     handleStartSync U S G cfg net req r = (r, Inr resp) \<and> handleStopSync req r = (r, resp) \<and>
     handleMaint errorStack S cfg req r = (r, Inr resp) \<and>
     handleWaitForGTID G flavor ParseDuration fresh req r = Respond resp"
  using assms by (auto simp: handleStartSync_def handleStopSync_def handleMaint_def handleWaitForGTID_def)

definition sample_request :: http_request where
  "sample_request = \<lparr>rq_Method = ''POST'', rq_Query = (\<lambda>k. if k = ''index'' then ''i'' else []),
     rq_PostForm = (\<lambda>k. if k = ''gtid'' then ''g1'' else []), rq_RemoteAddr = ''h:5''\<rparr>"

theorem post_handlers_refuse_witness:
  "handleMaint (\<lambda>_. []) reachable_env (sample_river_config True) (sample_request\<lparr>rq_Method := ''GET''\<rparr>) (sample_waiting True) =
     (sample_waiting True, Inr (text_response 405 (''unexpected method'' @ newline)))"
  using post_handlers_refuse[of "sample_request\<lparr>rq_Method := ''GET''\<rparr>" "sample_waiting True" count_calls reachable_env
      text_gtid "sample_river_config True" "[]" "\<lambda>_. []" "[]" "\<lambda>_. Inr 0" 0]
  by simp

text \<open>
  C35. Maintenance after synchronization was stopped over HTTP: \<open>/syncing/stop\<close> closes the connections but leaves the
  river running and the list of connections in place, so that \<open>/maint\<close> for a configured index, which
  passes every check of the handler, panics on the closed channel of the first connection.
\<close>

theorem maint_after_stop_sync_panics:
  assumes "IsSyncing r" and "rv_token r SphinxSvc \<noteq> None" and "svc_sph (rv_sphinxService r) = Some (c # cs)"
    and "rq_Method stop = ''POST''" and "rq_Method req = ''POST''"
    and "rq_Query req ''index'' \<noteq> []" and "map_of (rc_DataSource cfg) (rq_Query req ''index'') = Some parts"
  shows "\<exists>r'. handleStopSync stop r = (r', text_response 204 []) \<and> rv_isRunning r' \<and>
     snd (handleMaint errorStack S cfg req r') = Inl (Panics (PanicMsg ''send on closed channel''))"
proof -
  let ?r = "remove_sphinx (stopSyncRoutine r)"
  have run: "rv_isRunning ?r" using assms(1) by (simp add: IsSyncing_def river_simps)
  have stop: "handleStopSync stop r = (?r, text_response 204 [])"
    using assms(1,4) by (simp add: handleStopSync_def IsSyncing_def)
  have "svc_sph (rv_sphinxService ?r) = Some (c # cs)" "svc_closed (rv_sphinxService ?r)"
    using assms(2,3) by (auto simp: remove_sphinx_def river_simps SphinxService_disconnect_def)
  then have "snd (SphinxService_CheckIndexForOptimize S m index parts (rv_sphinxService ?r)) =
      Inl (Panics (PanicMsg ''send on closed channel''))" for m index
    by (simp add: SphinxService_CheckIndexForOptimize_def on_closed annotateS_def annotateR_def Let_def)
  then show ?thesis using stop run assms(5-7) by (simp add: handleMaint_def Let_def)
qed

definition sample_syncing :: "(unit, string) River" where
  "sample_syncing = startSyncRoutine count_calls (sample_waiting True)"

theorem maint_after_stop_sync_panics_witness:
  "\<exists>r'. handleStopSync sample_request sample_syncing = (r', text_response 204 []) \<and> rv_isRunning r' \<and>
     snd (handleMaint (\<lambda>_. []) reachable_env (sample_river_config True) sample_request r') =
       Inl (Panics (PanicMsg ''send on closed channel''))"
proof -
  obtain c where c: "svc_sph (rv_sphinxService (sample_waiting True)) = Some [c]" using sample_waiting_sph by blast
  have same: "rv_sphinxService sample_syncing = rv_sphinxService (sample_waiting True)"
    by (simp add: sample_syncing_def startSyncRoutine_def river_simps)
  have sync: "IsSyncing sample_syncing" "rv_token sample_syncing SphinxSvc \<noteq> None"
    using sample_waiting_facts[of True]
    by (simp_all add: IsSyncing_def sample_syncing_def river_simps)
  show ?thesis
    by (rule maint_after_stop_sync_panics[OF sync])
      (use c same in \<open>simp_all add: sample_request_def sample_river_config_def\<close>)
qed



end
