(* ===== verification/Services.thy ===== *)
theory Services
  imports Supervision
begin

text \<open>
  The services that wrap a loop: \<open>Serve\<close> and \<open>Stop\<close> of \<open>src/river/sync_service.go\<close>, which communicate through a
  stored cancel function and a wait group, and \<open>src/river/cron_service.go\<close>, whose \<open>Stop\<close> stops the scheduler. A \<open>Serve\<close>
  goes through several stages, and \<open>Stop\<close>, called by the supervisor, can come between any two of them; both services have
  stages in which it is lost.
\<close>

subsection \<open>Machines of events\<close>

text \<open>\<open>None\<close>: the event is not possible in this state.\<close>

fun run_events :: "('e \<Rightarrow> 's \<Rightarrow> 's option) \<Rightarrow> 'e list \<Rightarrow> 's \<Rightarrow> 's option" where
  "run_events step [] s = Some s"
| "run_events step (ev # evs) s = (case step ev s of None \<Rightarrow> None | Some s' \<Rightarrow> run_events step evs s')"

locale event_machine =
  fixes step :: "'e \<Rightarrow> 's \<Rightarrow> 's option" and inv :: "'s \<Rightarrow> bool"
  assumes step_inv: "step ev s = Some s' \<Longrightarrow> inv s \<Longrightarrow> inv s'"
begin

lemma run_inv: "run_events step evs s = Some s' \<Longrightarrow> inv s \<Longrightarrow> inv s'"
  by (induction evs arbitrary: s) (auto split: option.splits dest: step_inv)

end

text \<open>
  A \<open>Stop\<close> that is lost: in the states \<open>stuck\<close> it waits, and no event other than those of \<open>escapes\<close> lets it return or leaves
  these states.
\<close>

locale lost_stop =
  fixes step :: "'e \<Rightarrow> 's \<Rightarrow> 's option" and stuck :: "'s \<Rightarrow> bool" and escapes :: "'e set" and stop_returns :: 'e
  assumes stays: "step ev s = Some s' \<Longrightarrow> stuck s \<Longrightarrow> ev \<notin> escapes \<Longrightarrow> ev \<noteq> stop_returns \<and> stuck s'"
begin

lemma run_stays:
  "run_events step evs s = Some s' \<Longrightarrow> stuck s \<Longrightarrow> set evs \<inter> escapes = {} \<Longrightarrow> stop_returns \<notin> set evs \<and> stuck s'"
  by (induction evs arbitrary: s) (auto split: option.splits dest: stays)

end

text \<open>A machine that keeps the stuck states for good is such a \<open>Stop\<close> with no escapes.\<close>

locale trapped_stop = event_machine step stuck
  for step :: "'e \<Rightarrow> 's \<Rightarrow> 's option" and stuck :: "'s \<Rightarrow> bool" +
  fixes stop_returns :: 'e
  assumes waits: "step stop_returns s = Some s' \<Longrightarrow> \<not> stuck s"

sublocale trapped_stop \<subseteq> lost_stop step stuck "{}" stop_returns
  by unfold_locales (use step_inv waits in blast)

subsection \<open>The sync service\<close>

datatype serve_stage = NotStarted | Entered | InLoop nat

text \<open>
  \<open>cv_wg\<close> is the wait group's counter, \<open>cv_cancel\<close> the context whose cancel function is stored (contexts are
  numbered), \<open>cv_parent\<close> says that the river's context is cancelled, \<open>cv_stopping\<close> that a \<open>Stop\<close> waits.
\<close>

record ctx_service =
  cv_wg :: nat
  cv_cancel :: "nat option"
  cv_contexts :: nat
  cv_cancelled :: "nat list"
  cv_parent :: bool
  cv_stage :: serve_stage
  cv_stopping :: bool

definition NewSyncService :: ctx_service where
  "NewSyncService = \<lparr>cv_wg = 0, cv_cancel = None, cv_contexts = 0, cv_cancelled = [], cv_parent = False,
     cv_stage = NotStarted, cv_stopping = False\<rparr>"

definition SyncService_Serve_enter :: "ctx_service \<Rightarrow> ctx_service" where
  "SyncService_Serve_enter s = s\<lparr>cv_wg := cv_wg s + 1, cv_stage := Entered\<rparr>"

definition SyncService_Serve_context :: "ctx_service \<Rightarrow> ctx_service" where
  "SyncService_Serve_context s =
     s\<lparr>cv_cancel := Some (cv_contexts s), cv_stage := InLoop (cv_contexts s), cv_contexts := cv_contexts s + 1\<rparr>"

definition SyncService_Serve_exit :: "ctx_service \<Rightarrow> ctx_service" where
  "SyncService_Serve_exit s = s\<lparr>cv_wg := cv_wg s - 1, cv_stage := NotStarted\<rparr>"

definition SyncService_Stop_begin :: "ctx_service \<Rightarrow> ctx_service" where
  "SyncService_Stop_begin s =
     (case cv_cancel s of
        None \<Rightarrow> s\<lparr>cv_stopping := True\<rparr>
      | Some c \<Rightarrow> s\<lparr>cv_cancelled := c # cv_cancelled s, cv_stopping := True\<rparr>)"

definition loop_cancelled :: "ctx_service \<Rightarrow> bool" where
  "loop_cancelled s \<longleftrightarrow>
     (case cv_stage s of InLoop n \<Rightarrow> n \<in> set (cv_cancelled s) \<or> cv_parent s | _ \<Rightarrow> False)"

text \<open>
  What can happen to the service: the supervisor calls \<open>Serve\<close> while none runs and \<open>Stop\<close> while none waits; the
  loop ends when its context or the river's is cancelled, or by itself after a failed batch; the river's context is
  cancelled by \<open>River.Stop\<close>. \<open>None\<close>: not possible in this state.
\<close>

datatype service_event = EnterServe | MakeContext | LeaveCancelled | LeaveFailed | CallStop | StopReturns | CancelRiver

definition service_step :: "service_event \<Rightarrow> ctx_service \<Rightarrow> ctx_service option" where
  "service_step ev s =
     (case ev of
        EnterServe \<Rightarrow> if cv_stage s = NotStarted then Some (SyncService_Serve_enter s) else None
      | MakeContext \<Rightarrow> if cv_stage s = Entered then Some (SyncService_Serve_context s) else None
      | LeaveCancelled \<Rightarrow> if loop_cancelled s then Some (SyncService_Serve_exit s) else None
      | LeaveFailed \<Rightarrow>
          (case cv_stage s of InLoop n \<Rightarrow> Some (SyncService_Serve_exit s) | _ \<Rightarrow> None)
      | CallStop \<Rightarrow> if cv_stopping s then None else Some (SyncService_Stop_begin s)
      | StopReturns \<Rightarrow> if cv_stopping s \<and> cv_wg s = 0 then Some (s\<lparr>cv_stopping := False\<rparr>) else None
      | CancelRiver \<Rightarrow> Some (s\<lparr>cv_parent := True\<rparr>))"

abbreviation service_run :: "service_event list \<Rightarrow> ctx_service \<Rightarrow> ctx_service option" where
  "service_run \<equiv> run_events service_step"

subsection \<open>Lemmas\<close>

definition service_inv :: "ctx_service \<Rightarrow> bool" where
  "service_inv s \<longleftrightarrow>
     cv_wg s = (if cv_stage s = NotStarted then 0 else 1) \<and>
     (\<forall>n\<in>set (cv_cancelled s). n < cv_contexts s) \<and>
     (\<forall>n. cv_stage s = InLoop n \<longrightarrow> cv_cancel s = Some n \<and> n < cv_contexts s) \<and>
     (\<forall>n. cv_cancel s = Some n \<longrightarrow> n < cv_contexts s)"

lemmas service_defs = SyncService_Serve_enter_def SyncService_Serve_context_def SyncService_Serve_exit_def
  SyncService_Stop_begin_def loop_cancelled_def

interpretation sync_machine: event_machine service_step service_inv
  by unfold_locales (auto simp: service_step_def service_inv_def service_defs less_Suc_eq
      split: if_splits serve_stage.splits option.splits service_event.splits)

lemma NewSyncService_inv: "service_inv NewSyncService"
  by (simp add: service_inv_def NewSyncService_def)

text \<open>The state after a \<open>Stop\<close> came before the context was made.\<close>

definition stuck :: "ctx_service \<Rightarrow> bool" where
  "stuck s \<longleftrightarrow> cv_stopping s \<and> cv_wg s = 1 \<and> \<not> cv_parent s \<and>
     (\<forall>n\<in>set (cv_cancelled s). n < cv_contexts s) \<and>
     (case cv_stage s of NotStarted \<Rightarrow> False | Entered \<Rightarrow> True | InLoop n \<Rightarrow> n \<notin> set (cv_cancelled s))"

interpretation sync_stop: lost_stop service_step stuck "{LeaveFailed, CancelRiver}" StopReturns
  by unfold_locales (auto simp: service_step_def stuck_def service_defs less_Suc_eq
      split: if_splits serve_stage.splits service_event.splits)

subsection \<open>The NATS service\<close>

text \<open>
  \<open>Serve\<close> and \<open>Stop\<close> of \<open>nats_service.go\<close> have the same stages, but its loop is never left (\<open>nats_service_never_stops\<close>
  in \<open>Nats\<close>), so that every \<open>Stop\<close> that finds a \<open>Serve\<close> is lost.
\<close>

definition NatsService_Stop :: "ctx_service \<Rightarrow> ctx_service" where
  "NatsService_Stop s =
     (let s = (case cv_cancel s of None \<Rightarrow> s | Some c \<Rightarrow> s\<lparr>cv_cancelled := c # cv_cancelled s\<rparr>) in s\<lparr>cv_stopping := True\<rparr>)"

definition nats_step :: "service_event \<Rightarrow> ctx_service \<Rightarrow> ctx_service option" where
  "nats_step ev s =
     (case ev of
        LeaveCancelled \<Rightarrow> None
      | LeaveFailed \<Rightarrow> None
      | CallStop \<Rightarrow> if cv_stopping s then None else Some (NatsService_Stop s)
      | _ \<Rightarrow> service_step ev s)"

definition nats_stuck :: "ctx_service \<Rightarrow> bool" where
  "nats_stuck s \<longleftrightarrow> cv_stopping s \<and> cv_wg s = 1 \<and> cv_stage s \<noteq> NotStarted"

interpretation nats_stop: trapped_stop nats_step nats_stuck StopReturns
  by unfold_locales (auto simp: nats_step_def service_step_def nats_stuck_def service_defs
      split: if_splits service_event.splits)

lemma nats_stop_is_lost:
  assumes "cv_stage s \<noteq> NotStarted" and "cv_wg s = 1" and "\<not> cv_stopping s"
    and "run_events nats_step (CallStop # evs) s = Some s'"
  shows "StopReturns \<notin> set evs \<and> cv_stopping s'"
proof -
  have "nats_stuck (NatsService_Stop s)"
    using assms(1,2) by (simp add: nats_stuck_def NatsService_Stop_def Let_def split: option.split)
  moreover have "run_events nats_step evs (NatsService_Stop s) = Some s'" using assms(3,4) by (simp add: nats_step_def)
  ultimately show ?thesis using nats_stop.run_stays by (fastforce simp: nats_stuck_def)
qed

subsection \<open>The cron service\<close>

text \<open>
  The jobs that are scheduled: the error of \<open>AddFunc\<close>, for a schedule that does not parse, is dropped.
\<close>

definition CronService_jobs :: "(string \<Rightarrow> bool) \<Rightarrow> string \<Rightarrow> string list" where
  "CronService_jobs parses optimizeSchedule =
     (if optimizeSchedule \<noteq> [] then (if parses optimizeSchedule then [optimizeSchedule] else []) else [])"

text \<open>
  \<open>cs_cron\<close> is the scheduler stored in the service (they are numbered, a new one is made by every \<open>Serve\<close>), \<open>cs_jobs\<close> its
  jobs and \<open>cs_cancel\<close> says that a cancel function is stored; nothing reads the context that it cancels, so making the
  scheduler, the context and the jobs is one step.
\<close>

datatype cron_stage = CronIdle | CronEntered | CronMade nat | CronRunning nat

record cron_service =
  cs_wg :: nat
  cs_cron :: "nat option"
  cs_crons :: nat
  cs_jobs :: "string list"
  cs_stopped :: "nat list"
  cs_cancel :: bool
  cs_ctx_done :: bool
  cs_stage :: cron_stage
  cs_stopping :: bool

definition NewCronService :: cron_service where
  "NewCronService = \<lparr>cs_wg = 0, cs_cron = None, cs_crons = 0, cs_jobs = [], cs_stopped = [], cs_cancel = False,
     cs_ctx_done = False, cs_stage = CronIdle, cs_stopping = False\<rparr>"

definition CronService_Serve_enter :: "cron_service \<Rightarrow> cron_service" where
  "CronService_Serve_enter s = s\<lparr>cs_wg := cs_wg s + 1, cs_stage := CronEntered\<rparr>"

definition CronService_Serve_make :: "(string \<Rightarrow> bool) \<Rightarrow> string \<Rightarrow> cron_service \<Rightarrow> cron_service" where
  "CronService_Serve_make parses optimizeSchedule s =
     s\<lparr>cs_cron := Some (cs_crons s), cs_crons := cs_crons s + 1, cs_cancel := True, cs_ctx_done := False,
       cs_jobs := CronService_jobs parses optimizeSchedule, cs_stage := CronMade (cs_crons s)\<rparr>"

definition CronService_Serve_run :: "nat \<Rightarrow> cron_service \<Rightarrow> cron_service" where
  "CronService_Serve_run n s = s\<lparr>cs_stage := CronRunning n\<rparr>"

definition CronService_Serve_exit :: "cron_service \<Rightarrow> cron_service" where
  "CronService_Serve_exit s = s\<lparr>cs_wg := cs_wg s - 1, cs_stage := CronIdle\<rparr>"

text \<open>Stopping a scheduler that does not run does nothing, as its documentation says.\<close>

definition CronService_Stop_begin :: "cron_service \<Rightarrow> cron_service" where
  "CronService_Stop_begin s =
     (let s = (case cs_cron s of
                 None \<Rightarrow> s
               | Some n \<Rightarrow> if cs_stage s = CronRunning n then s\<lparr>cs_stopped := n # cs_stopped s\<rparr> else s);
          s = (if cs_cancel s then s\<lparr>cs_ctx_done := True\<rparr> else s)
      in s\<lparr>cs_stopping := True\<rparr>)"

datatype cron_event = CronEnter | CronMake | CronRun | CronLeave | CronCallStop | CronStopReturns

definition cron_step :: "(string \<Rightarrow> bool) \<Rightarrow> string \<Rightarrow> cron_event \<Rightarrow> cron_service \<Rightarrow> cron_service option" where
  "cron_step parses optimizeSchedule ev s =
     (case ev of
        CronEnter \<Rightarrow> if cs_stage s = CronIdle then Some (CronService_Serve_enter s) else None
      | CronMake \<Rightarrow>
          if cs_stage s = CronEntered then Some (CronService_Serve_make parses optimizeSchedule s) else None
      | CronRun \<Rightarrow> (case cs_stage s of CronMade n \<Rightarrow> Some (CronService_Serve_run n s) | _ \<Rightarrow> None)
      | CronLeave \<Rightarrow>
          (case cs_stage s of
             CronRunning n \<Rightarrow> if n \<in> set (cs_stopped s) then Some (CronService_Serve_exit s) else None
           | _ \<Rightarrow> None)
      | CronCallStop \<Rightarrow> if cs_stopping s then None else Some (CronService_Stop_begin s)
      | CronStopReturns \<Rightarrow> if cs_stopping s \<and> cs_wg s = 0 then Some (s\<lparr>cs_stopping := False\<rparr>) else None)"

definition cron_inv :: "cron_service \<Rightarrow> bool" where
  "cron_inv s \<longleftrightarrow>
     cs_wg s = (if cs_stage s = CronIdle then 0 else 1) \<and> (\<forall>n\<in>set (cs_stopped s). n < cs_crons s) \<and>
     (\<forall>n. cs_cron s = Some n \<longrightarrow> n < cs_crons s) \<and>
     (\<forall>n. cs_stage s = CronMade n \<longrightarrow> cs_cron s = Some n \<and> n \<notin> set (cs_stopped s)) \<and>
     (\<forall>n. cs_stage s = CronRunning n \<longrightarrow> cs_cron s = Some n)"

definition cron_stuck :: "cron_service \<Rightarrow> bool" where
  "cron_stuck s \<longleftrightarrow> cs_stopping s \<and> cs_wg s = 1 \<and> (\<forall>n\<in>set (cs_stopped s). n < cs_crons s) \<and>
     (case cs_stage s of CronIdle \<Rightarrow> False | CronEntered \<Rightarrow> True
      | CronMade n \<Rightarrow> n \<notin> set (cs_stopped s) | CronRunning n \<Rightarrow> n \<notin> set (cs_stopped s))"

lemmas cron_defs = CronService_Serve_enter_def CronService_Serve_make_def CronService_Serve_run_def
  CronService_Serve_exit_def CronService_Stop_begin_def

interpretation cron_machine: event_machine "cron_step parses schedule" cron_inv for parses schedule
  by unfold_locales (auto simp: cron_step_def cron_inv_def cron_defs Let_def less_Suc_eq
      split: if_splits cron_stage.splits option.splits cron_event.splits)

interpretation cron_stop: trapped_stop "cron_step parses schedule" cron_stuck CronStopReturns for parses schedule
  by unfold_locales (auto simp: cron_step_def cron_stuck_def cron_defs Let_def less_Suc_eq
      split: if_splits cron_stage.splits cron_event.splits)

lemma NewCronService_inv: "cron_inv NewCronService"
  by (simp add: cron_inv_def NewCronService_def)

text \<open>A run of the job on the river: \<open>Some p\<close> is a panic, which ends the process.\<close>

definition optimize_job :: "'b sph_env \<Rightarrow> river_config \<Rightarrow> ('b, 'g) River \<Rightarrow> ('b, 'g) River \<times> go_panic option" where
  "optimize_job S cfg r =
     (let x = checkAllIndexesForOptimize S (rc_MaxRAMChunkBytes cfg) (rc_DataSource cfg) (rv_sphinxService r)
      in (r\<lparr>rv_sphinxService := fst x\<rparr>, snd x))"

subsection \<open>Properties\<close>

text \<open>
  Stopping the sync loop works once its context exists: after any events, if \<open>Stop\<close> is called while the loop runs,
  the loop can leave and \<open>Stop\<close> can return, after which no \<open>Serve\<close> is left running.
\<close>

theorem stop_ends_running_loop:
  assumes "service_run evs NewSyncService = Some s" and "cv_stage s = InLoop n" and "\<not> cv_stopping s"
  shows "\<exists>s'. service_run [CallStop, LeaveCancelled, StopReturns] s = Some s' \<and>
     cv_stage s' = NotStarted \<and> cv_wg s' = 0 \<and> \<not> cv_stopping s'"
proof -
  have "service_inv s" using sync_machine.run_inv[OF assms(1) NewSyncService_inv] .
  then have "cv_cancel s = Some n" "cv_wg s = 1" using assms(2) by (simp_all add: service_inv_def)
  then show ?thesis using assms(2,3) by (simp add: service_step_def service_defs)
qed

theorem stop_ends_running_loop_witness:
  "\<exists>s s'. service_run [EnterServe, MakeContext] NewSyncService = Some s \<and>
     service_run [CallStop, LeaveCancelled, StopReturns] s = Some s' \<and> cv_stage s' = NotStarted"
proof -
  let ?s = "SyncService_Serve_context (SyncService_Serve_enter NewSyncService)"
  have run: "service_run [EnterServe, MakeContext] NewSyncService = Some ?s"
    by (simp add: service_step_def NewSyncService_def SyncService_Serve_enter_def)
  have "cv_stage ?s = InLoop 0" "\<not> cv_stopping ?s"
    by (simp_all add: SyncService_Serve_context_def SyncService_Serve_enter_def NewSyncService_def)
  from stop_ends_running_loop[OF run this] run show ?thesis by blast
qed

text \<open>
  A \<open>Stop\<close> that comes too early is lost: between the moment at which \<open>Serve\<close> has counted itself in and the
  moment at which it stores its cancel function, \<open>Stop\<close> cancels nothing (or the context of an earlier run) and
  waits; as long as no batch fails and the river's context is not cancelled, which stopping
  synchronization over HTTP does not do, it never returns and the loop runs on.
\<close>

theorem early_stop_is_lost:
  assumes "service_run evs NewSyncService = Some s" and "cv_stage s = Entered" and "\<not> cv_stopping s" and "\<not> cv_parent s"
    and "service_run (CallStop # evs') s = Some s'" and "LeaveFailed \<notin> set evs'" and "CancelRiver \<notin> set evs'"
  shows "StopReturns \<notin> set evs' \<and> cv_stopping s' \<and> cv_stage s' \<noteq> NotStarted"
proof -
  have inv: "service_inv s" using sync_machine.run_inv[OF assms(1) NewSyncService_inv] .
  have step: "service_step CallStop s = Some (SyncService_Stop_begin s)" using assms(3) by (simp add: service_step_def)
  have "stuck (SyncService_Stop_begin s)"
    using inv assms(2,4) by (auto simp: stuck_def service_inv_def SyncService_Stop_begin_def split: option.splits)
  from sync_stop.run_stays[OF _ this, of evs' s'] assms(5-7) step show ?thesis
    by (auto simp: stuck_def)
qed

theorem early_stop_is_lost_witness:
  "\<exists>s s'. service_run [EnterServe] NewSyncService = Some s \<and> service_run [CallStop, MakeContext] s = Some s' \<and>
     cv_stopping s' \<and> cv_stage s' \<noteq> NotStarted"
proof -
  let ?s = "SyncService_Serve_enter NewSyncService"
  let ?s' = "SyncService_Serve_context (SyncService_Stop_begin ?s)"
  have run: "service_run [EnterServe] NewSyncService = Some ?s"
    and run': "service_run [CallStop, MakeContext] ?s = Some ?s'"
    by (simp_all add: service_step_def NewSyncService_def SyncService_Serve_enter_def SyncService_Stop_begin_def)
  have "cv_stage ?s = Entered" "\<not> cv_stopping ?s" "\<not> cv_parent ?s"
    by (simp_all add: SyncService_Serve_enter_def NewSyncService_def)
  from early_stop_is_lost[OF run this run'] run run' show ?thesis by auto
qed

text \<open>
  Stopping the periodic jobs works while the scheduler runs: the scheduler ends, \<open>Serve\<close> leaves, and \<open>Stop\<close> returns.
\<close>

theorem stop_ends_running_cron:
  assumes "run_events (cron_step parses schedule) evs NewCronService = Some s"
    and "cs_stage s = CronRunning n" and "\<not> cs_stopping s"
  shows "\<exists>s'. run_events (cron_step parses schedule) [CronCallStop, CronLeave, CronStopReturns] s = Some s' \<and>
     cs_stage s' = CronIdle \<and> cs_wg s' = 0 \<and> \<not> cs_stopping s'"
proof -
  have "cron_inv s" using cron_machine.run_inv[OF assms(1) NewCronService_inv] .
  then have "cs_cron s = Some n" "cs_wg s = 1" using assms(2) by (simp_all add: cron_inv_def)
  then show ?thesis using assms(2,3) by (simp add: cron_step_def cron_defs Let_def)
qed

theorem stop_ends_running_cron_witness:
  "\<exists>s s'. run_events (cron_step (\<lambda>_. True) ''@daily'') [CronEnter, CronMake, CronRun] NewCronService = Some s \<and>
     run_events (cron_step (\<lambda>_. True) ''@daily'') [CronCallStop, CronLeave, CronStopReturns] s = Some s' \<and>
     cs_stage s' = CronIdle \<and> cs_jobs s = [''@daily'']"
proof -
  let ?s = "CronService_Serve_run 0 (CronService_Serve_make (\<lambda>_. True) ''@daily'' (CronService_Serve_enter NewCronService))"
  have run: "run_events (cron_step (\<lambda>_. True) ''@daily'') [CronEnter, CronMake, CronRun] NewCronService = Some ?s"
    and "cs_stage ?s = CronRunning 0" "\<not> cs_stopping ?s" and jobs: "cs_jobs ?s = [''@daily'']"
    by (simp_all add: cron_step_def cron_defs NewCronService_def CronService_jobs_def)
  from stop_ends_running_cron[OF this(1-3)] run jobs show ?thesis by blast
qed

text \<open>
  A \<open>Stop\<close> that comes before the scheduler runs is lost for good: it stops nothing, waits for \<open>Serve\<close>, and \<open>Serve\<close> then runs
  the scheduler, which nobody stops any more. The supervisor gives up after its timeout, and the jobs go on with a river
  whose connections are closed.
\<close>

theorem early_cron_stop_is_lost:
  assumes "run_events (cron_step parses schedule) evs NewCronService = Some s"
    and "cs_stage s = CronEntered \<or> cs_stage s = CronMade n" and "\<not> cs_stopping s"
    and "run_events (cron_step parses schedule) (CronCallStop # evs') s = Some s'"
  shows "CronStopReturns \<notin> set evs' \<and> cs_stopping s' \<and> cs_stage s' \<noteq> CronIdle"
proof -
  have inv: "cron_inv s" using cron_machine.run_inv[OF assms(1) NewCronService_inv] .
  have "cron_stuck (CronService_Stop_begin s)"
    using inv assms(2) by (auto simp: cron_stuck_def cron_inv_def CronService_Stop_begin_def Let_def split: option.splits)
  moreover have "run_events (cron_step parses schedule) evs' (CronService_Stop_begin s) = Some s'"
    using assms(3,4) by (simp add: cron_step_def)
  ultimately have "CronStopReturns \<notin> set evs' \<and> cron_stuck s'" using cron_stop.run_stays by blast
  then show ?thesis by (auto simp: cron_stuck_def)
qed

theorem early_cron_stop_is_lost_witness:
  "\<exists>s s'. run_events (cron_step (\<lambda>_. True) ''@daily'') [CronEnter, CronMake] NewCronService = Some s \<and>
     run_events (cron_step (\<lambda>_. True) ''@daily'') [CronCallStop, CronRun] s = Some s' \<and>
     cs_stopping s' \<and> cs_stage s' \<noteq> CronIdle"
proof -
  let ?s = "CronService_Serve_make (\<lambda>_. True) ''@daily'' (CronService_Serve_enter NewCronService)"
  let ?s' = "CronService_Serve_run 0 (CronService_Stop_begin ?s)"
  have run: "run_events (cron_step (\<lambda>_. True) ''@daily'') [CronEnter, CronMake] NewCronService = Some ?s"
    and run': "run_events (cron_step (\<lambda>_. True) ''@daily'') [CronCallStop, CronRun] ?s = Some ?s'"
    and "cs_stage ?s = CronEntered \<or> cs_stage ?s = CronMade 0" "\<not> cs_stopping ?s"
    by (simp_all add: cron_step_def cron_defs NewCronService_def Let_def)
  from early_cron_stop_is_lost[OF run this(3,4) run'] run run' show ?thesis by auto
qed

end
