(* ===== verification/Sphinx_Handshake.thy ===== *)
theory Sphinx_Handshake
  imports Supervision
begin

text \<open>
  How the river waits for the service of the connections (\<open>Serve\<close>, \<open>Stop\<close>, \<open>RequestStartNotification\<close> and
  \<open>WaitUntilStarted\<close> of \<open>src/river/sphinx_service.go\<close>): two goroutines that meet on the channels \<open>started\<close> and \<open>stop\<close>.
  \<open>Supervision\<close> treats starting and removing the service as single steps; here they are shown to be.
\<close>

subsection \<open>The two goroutines\<close>

text \<open>
  Where \<open>Serve\<close> is: not running, before it connects, sending on \<open>started\<close>, receiving from \<open>stop\<close>, before the deferred
  \<open>disconnect\<close>. Where the river is: without the service, after \<open>RequestStartNotification\<close>, in \<open>WaitUntilStarted\<close> before and
  after the receive, with the service, in \<open>RemoveAndWait\<close> before and after the supervisor's \<open>Stop\<close> has sent.
\<close>

datatype sphinx_serve = ServeIdle | ServeEntered | ServeAnnouncing | ServeAwaitingStop | ServeLeaving

datatype sphinx_client =
  ClientDown | ClientRequested | ClientWaiting | ClientNotified | ClientUp | ClientStopping | ClientStopSent

record 'b handshake =
  hs_service :: "'b SphinxService"
  hs_started :: bool
  hs_serve :: sphinx_serve
  hs_client :: sphinx_client

definition handshake_start :: "'b SphinxService \<Rightarrow> 'b handshake" where
  "handshake_start s = \<lparr>hs_service = s, hs_started = False, hs_serve = ServeIdle, hs_client = ClientDown\<rparr>"

text \<open>\<open>hs_started\<close> says whether the field \<open>started\<close> holds a channel.\<close>

definition RequestStartNotification :: "'b handshake \<Rightarrow> 'b handshake" where
  "RequestStartNotification h = h\<lparr>hs_started := True, hs_client := ClientRequested\<rparr>"

definition SphinxService_Serve_connect ::
  "'b sph_env \<Rightarrow> ConnSettings \<Rightarrow> (string \<times> 'b) list \<Rightarrow> 'b handshake \<Rightarrow> 'b handshake" where
  "SphinxService_Serve_connect S settings net h =
     h\<lparr>hs_service := SphinxService_connect S settings net (hs_service h),
       hs_serve := (if hs_started h then ServeAnnouncing else ServeAwaitingStop)\<rparr>"

definition SphinxService_Serve_exit :: "'b handshake \<Rightarrow> 'b handshake" where
  "SphinxService_Serve_exit h = h\<lparr>hs_service := SphinxService_disconnect (hs_service h), hs_serve := ServeIdle\<rparr>"

definition WaitUntilStarted_receive :: "'b handshake \<Rightarrow> 'b handshake" where
  "WaitUntilStarted_receive h = h\<lparr>hs_serve := ServeAwaitingStop, hs_client := ClientNotified\<rparr>"

definition WaitUntilStarted_clear :: "'b handshake \<Rightarrow> 'b handshake" where
  "WaitUntilStarted_clear h = h\<lparr>hs_started := False, hs_client := ClientUp\<rparr>"

definition SphinxService_Stop :: "'b handshake \<Rightarrow> 'b handshake" where
  "SphinxService_Stop h = h\<lparr>hs_serve := ServeLeaving, hs_client := ClientStopSent\<rparr>"

text \<open>
  The steps. \<open>add\<close> is the supervisor's \<open>Add\<close>, which starts \<open>Serve\<close>; \<open>RemoveAndWait\<close> makes the supervisor call \<open>Stop\<close>
  (\<open>remove\<close>, then \<open>stop\<close> when the send meets the receive) and returns after \<open>Serve\<close> has ended (\<open>removed\<close>).
\<close>

inductive hs_step ::
  "'b sph_env \<Rightarrow> ConnSettings \<Rightarrow> (string \<times> 'b) list \<Rightarrow> 'b handshake \<Rightarrow> 'b handshake \<Rightarrow> bool"
  for S settings net where
    request: "hs_client h = ClientDown \<Longrightarrow> hs_step S settings net h (RequestStartNotification h)"
  | add: "hs_client h = ClientRequested \<Longrightarrow> hs_serve h = ServeIdle \<Longrightarrow>
      hs_step S settings net h (h\<lparr>hs_serve := ServeEntered, hs_client := ClientWaiting\<rparr>)"
  | connect: "hs_serve h = ServeEntered \<Longrightarrow> hs_step S settings net h (SphinxService_Serve_connect S settings net h)"
  | announce: "hs_serve h = ServeAnnouncing \<Longrightarrow> hs_client h = ClientWaiting \<Longrightarrow>
      hs_step S settings net h (WaitUntilStarted_receive h)"
  | clear: "hs_client h = ClientNotified \<Longrightarrow> hs_step S settings net h (WaitUntilStarted_clear h)"
  | remove: "hs_client h = ClientUp \<Longrightarrow> hs_step S settings net h (h\<lparr>hs_client := ClientStopping\<rparr>)"
  | stop: "hs_client h = ClientStopping \<Longrightarrow> hs_serve h = ServeAwaitingStop \<Longrightarrow>
      hs_step S settings net h (SphinxService_Stop h)"
  | leave: "hs_serve h = ServeLeaving \<Longrightarrow> hs_step S settings net h (SphinxService_Serve_exit h)"
  | removed: "hs_client h = ClientStopSent \<Longrightarrow> hs_serve h = ServeIdle \<Longrightarrow>
      hs_step S settings net h (h\<lparr>hs_client := ClientDown\<rparr>)"

inductive hs_reach ::
  "'b sph_env \<Rightarrow> ConnSettings \<Rightarrow> (string \<times> 'b) list \<Rightarrow> 'b SphinxService \<Rightarrow> 'b handshake \<Rightarrow> bool"
  for S settings net s0 where
    start: "hs_reach S settings net s0 (handshake_start s0)"
  | step: "hs_reach S settings net s0 h \<Longrightarrow> hs_step S settings net h h' \<Longrightarrow> hs_reach S settings net s0 h'"

inductive_cases hs_stepE: "hs_step S settings net h h'"

lemmas hs_defs = RequestStartNotification_def SphinxService_Serve_connect_def SphinxService_Serve_exit_def
  WaitUntilStarted_receive_def WaitUntilStarted_clear_def SphinxService_Stop_def handshake_start_def

subsection \<open>The invariant\<close>

text \<open>Which places fit together, and when a channel is there.\<close>

definition hs_paired :: "'b handshake \<Rightarrow> bool" where
  "hs_paired h \<longleftrightarrow>
     (case hs_client h of
        ClientDown \<Rightarrow> hs_serve h = ServeIdle \<and> \<not> hs_started h
      | ClientRequested \<Rightarrow> hs_serve h = ServeIdle \<and> hs_started h
      | ClientWaiting \<Rightarrow> hs_serve h \<in> {ServeEntered, ServeAnnouncing} \<and> hs_started h
      | ClientNotified \<Rightarrow> hs_serve h = ServeAwaitingStop
      | ClientUp \<Rightarrow> hs_serve h = ServeAwaitingStop \<and> \<not> hs_started h
      | ClientStopping \<Rightarrow> hs_serve h = ServeAwaitingStop \<and> \<not> hs_started h
      | ClientStopSent \<Rightarrow> hs_serve h \<in> {ServeLeaving, ServeIdle} \<and> \<not> hs_started h)"

text \<open>The service after \<open>n\<close> rounds of connecting and disconnecting.\<close>

definition rounds :: "'b sph_env \<Rightarrow> ConnSettings \<Rightarrow> (string \<times> 'b) list \<Rightarrow> nat \<Rightarrow> 'b SphinxService \<Rightarrow> 'b SphinxService" where
  "rounds S settings net n = (\<lambda>s. SphinxService_disconnect (SphinxService_connect S settings net s)) ^^ n"

lemma rounds_Suc:
  "SphinxService_disconnect (SphinxService_connect S settings net (rounds S settings net n s)) = rounds S settings net (Suc n) s"
  by (simp add: rounds_def)

definition hs_connected :: "'b handshake \<Rightarrow> bool" where
  "hs_connected h \<longleftrightarrow> hs_serve h \<in> {ServeAnnouncing, ServeAwaitingStop, ServeLeaving}"

definition hs_inv ::
  "'b sph_env \<Rightarrow> ConnSettings \<Rightarrow> (string \<times> 'b) list \<Rightarrow> 'b SphinxService \<Rightarrow> 'b handshake \<Rightarrow> bool" where
  "hs_inv S settings net s0 h \<longleftrightarrow> hs_paired h \<and>
     (\<exists>n. hs_service h =
        (if hs_connected h then SphinxService_connect S settings net (rounds S settings net n s0)
         else rounds S settings net n s0))"

lemma hs_paired_step: "hs_step S settings net h h' \<Longrightarrow> hs_paired h \<Longrightarrow> hs_paired h'"
  by (erule hs_stepE) (auto simp: hs_paired_def hs_defs split: sphinx_client.splits)

text \<open>Every step is a round's first half, its second half, or leaves the connections alone.\<close>

lemma hs_step_service:
  assumes "hs_step S settings net h h'"
  shows "hs_serve h = ServeEntered \<and> hs_connected h' \<and> hs_service h' = SphinxService_connect S settings net (hs_service h) \<or>
     hs_serve h = ServeLeaving \<and> \<not> hs_connected h' \<and> hs_service h' = SphinxService_disconnect (hs_service h) \<or>
     (hs_connected h' = hs_connected h \<or> \<not> hs_paired h) \<and> hs_service h' = hs_service h"
  using assms by (cases rule: hs_step.cases) (auto simp: hs_connected_def hs_defs hs_paired_def)

lemma hs_step_inv:
  assumes "hs_step S settings net h h'" and "hs_inv S settings net s0 h"
  shows "hs_inv S settings net s0 h'"
proof -
  have paired: "hs_paired h" using assms(2) by (simp add: hs_inv_def)
  obtain n where n: "hs_service h = (if hs_connected h then SphinxService_connect S settings net (rounds S settings net n s0)
      else rounds S settings net n s0)" using assms(2) by (auto simp: hs_inv_def)
  have "\<exists>n. hs_service h' = (if hs_connected h' then SphinxService_connect S settings net (rounds S settings net n s0)
      else rounds S settings net n s0)"
    using hs_step_service[OF assms(1)]
  proof (elim disjE conjE)
    assume "hs_serve h = ServeLeaving" "\<not> hs_connected h'" "hs_service h' = SphinxService_disconnect (hs_service h)"
    then have "hs_service h' = rounds S settings net (Suc n) s0" using n by (simp add: hs_connected_def rounds_Suc)
    with \<open>\<not> hs_connected h'\<close> show ?thesis by auto
  qed (use n paired in \<open>auto simp: hs_connected_def\<close>)
  with hs_paired_step[OF assms(1) paired] show ?thesis by (simp add: hs_inv_def)
qed

lemma hs_reach_inv: "hs_reach S settings net s0 h \<Longrightarrow> hs_inv S settings net s0 h"
proof (induction rule: hs_reach.induct)
  case start
  have "hs_service (handshake_start s0) = rounds S settings net 0 s0" by (simp add: handshake_start_def rounds_def)
  then show ?case by (auto simp: hs_inv_def hs_paired_def hs_connected_def handshake_start_def)
next
  case (step h h')
  from hs_step_inv[OF step.hyps(2) step.IH] show ?case .
qed

subsection \<open>Properties\<close>

text \<open>
  Starting and removing the service are single steps for the river, as \<open>start_sphinx\<close> and \<open>remove_sphinx\<close> have them: when
  \<open>WaitUntilStarted\<close> has returned, \<open>Serve\<close> has connected once and waits to be stopped; when \<open>RemoveAndWait\<close> has returned, it
  has disconnected and ended. And the two goroutines never wait for each other in vain.
\<close>

theorem sphinx_handshake:
  assumes "hs_reach S settings net s0 h"
  shows "(hs_client h = ClientUp \<longrightarrow> hs_serve h = ServeAwaitingStop \<and>
       (\<exists>n. hs_service h = SphinxService_connect S settings net (rounds S settings net n s0))) \<and>
     (hs_client h = ClientDown \<longrightarrow> hs_serve h = ServeIdle \<and> (\<exists>n. hs_service h = rounds S settings net n s0)) \<and>
     (\<exists>h'. hs_step S settings net h h')"
proof (intro conjI impI)
  note inv = hs_reach_inv[OF assms]
  then have paired: "hs_paired h" by (simp add: hs_inv_def)
  show "hs_serve h = ServeAwaitingStop" if "hs_client h = ClientUp" using paired that by (simp add: hs_paired_def)
  with inv show "\<exists>n. hs_service h = SphinxService_connect S settings net (rounds S settings net n s0)"
    if "hs_client h = ClientUp" using that by (auto simp: hs_inv_def hs_connected_def)
  show "hs_serve h = ServeIdle" if "hs_client h = ClientDown" using paired that by (simp add: hs_paired_def)
  with inv show "\<exists>n. hs_service h = rounds S settings net n s0" if "hs_client h = ClientDown"
    using that by (auto simp: hs_inv_def hs_connected_def)
  show "\<exists>h'. hs_step S settings net h h'"
    using paired by (cases "hs_client h") (auto simp: hs_paired_def intro: hs_step.intros)
qed

text \<open>A round from start to end.\<close>

theorem sphinx_handshake_witness:
  "\<exists>h. hs_reach S settings net s0 h \<and> hs_client h = ClientUp \<and> hs_serve h = ServeAwaitingStop"
proof -
  let ?h0 = "handshake_start s0"
  let ?h2 = "(RequestStartNotification ?h0)\<lparr>hs_serve := ServeEntered, hs_client := ClientWaiting\<rparr>"
  let ?h3 = "SphinxService_Serve_connect S settings net ?h2"
  let ?h5 = "WaitUntilStarted_clear (WaitUntilStarted_receive ?h3)"
  have "hs_reach S settings net s0 (RequestStartNotification ?h0)"
    by (rule hs_reach.step[OF hs_reach.start hs_step.request]) (simp add: hs_defs)
  then have "hs_reach S settings net s0 ?h2" by (rule hs_reach.step[OF _ hs_step.add]) (simp_all add: hs_defs)
  then have "hs_reach S settings net s0 ?h3" by (rule hs_reach.step[OF _ hs_step.connect]) simp
  then have "hs_reach S settings net s0 (WaitUntilStarted_receive ?h3)"
    by (rule hs_reach.step[OF _ hs_step.announce]) (simp_all add: hs_defs)
  then have reach: "hs_reach S settings net s0 ?h5" by (rule hs_reach.step[OF _ hs_step.clear]) (simp add: hs_defs)
  have up: "hs_client ?h5 = ClientUp" by (simp add: hs_defs)
  with sphinx_handshake[OF reach] reach show ?thesis by blast
qed

end
