(* ===== verification/Nats.thy ===== *)
theory Nats
  imports Ingest_Effects
begin

text \<open>
  The publisher of row notifications (\<open>src/river/nats_service.go\<close>): the connection, the loop over the
  channel \<open>sync2Nats\<close> and the subjects messages are published under. The connection is the library's; what
  is handed to its \<open>Publish\<close> is recorded, an error of it is only logged.
\<close>

subsection \<open>Messages\<close>

text \<open>\<open>PublishDocToNats\<close>, which nothing calls; \<open>ts\<close> is the printed time stamp.\<close>

definition PublishDocToNats :: "TableRowChange \<Rightarrow> IngestRule \<Rightarrow> string \<Rightarrow> nats_message" where
  "PublishDocToNats doc rule ts =
     (NewMessage (trc_DocID doc))
       \<lparr>nm_Type := word_of_int (ir_JsonTypeValue rule), nm_Name := trc_TableName doc, nm_Action := trc_Action doc,
        nm_Metadata := aput ''timeStamp'' ts (aput ''tableName'' (trc_TableName doc) (aput ''index'' (trc_Index doc) []))\<rparr>"

subsection \<open>The service\<close>

text \<open>\<open>ns_ec\<close> says that the encoded connection is not nil; \<open>ns_published\<close> has what went to its \<open>Publish\<close>.\<close>

record nats_service =
  ns_ec :: bool
  ns_seq :: "64 word"
  ns_closed :: bool
  ns_published :: "(string \<times> nats_message) list"

definition NewNatsService :: nats_service where
  "NewNatsService = \<lparr>ns_ec = False, ns_seq = 0, ns_closed = False, ns_published = []\<rparr>"

record nats_options =
  no_Name :: string
  no_ReconnectWait :: int
  no_MaxReconnects :: int

definition setupConnOptions :: "nats_options \<Rightarrow> nats_options" where
  "setupConnOptions opts =
     (let totalWait = 10 * 60 * 10 ^ 9; reconnectDelay = 10 ^ 9
      in opts\<lparr>no_ReconnectWait := reconnectDelay, no_MaxReconnects := totalWait div reconnectDelay\<rparr>)"

definition nats_connect ::
  "bool \<Rightarrow> string \<Rightarrow> nats_options \<Rightarrow> (string \<Rightarrow> nats_options \<Rightarrow> 'n result) \<Rightarrow> ('n \<Rightarrow> unit result) \<Rightarrow>
   nats_service \<Rightarrow> nats_service" where
  "nats_connect enabled addr defaults Connect NewEncodedConn s =
     (if \<not> enabled then s
      else
        (case Connect addr (setupConnOptions (defaults\<lparr>no_Name := ''NATS MySQL Manticore Publisher''\<rparr>)) of
           Inl e \<Rightarrow> s
         | Inr nc \<Rightarrow>
             (case NewEncodedConn nc of
                Inl e \<Rightarrow> s\<lparr>ns_ec := False\<rparr>
              | Inr _ \<Rightarrow> s\<lparr>ns_ec := True\<rparr>)))"

definition nats_disconnect :: "nats_service \<Rightarrow> nats_service" where
  "nats_disconnect s = (if ns_ec s then s\<lparr>ns_closed := True\<rparr> else s)"

definition nextSeqNo :: "nats_service \<Rightarrow> nats_service \<times> 64 word" where
  "nextSeqNo s = (let s = s\<lparr>ns_seq := ns_seq s + 1\<rparr> in (s, ns_seq s))"

definition nats_subject :: "nats_message \<Rightarrow> 64 word \<Rightarrow> string" where
  "nats_subject v n = ''binlog.'' @ nm_Name v @ ''.'' @ nm_Action v @ ''.'' @ dec (unat n)"

text \<open>The type number of a message has a name in the configured map, or the table's name stays.\<close>

definition renamed :: "(string, string) amap \<Rightarrow> nats_message \<Rightarrow> nats_message" where
  "renamed taoMap v =
     (case map_of taoMap (dec (unat (nm_Type v))) of None \<Rightarrow> v | Some name \<Rightarrow> v\<lparr>nm_Name := name\<rparr>)"

definition nats_Publish :: "(string, string) amap \<Rightarrow> nats_message \<Rightarrow> nats_service \<Rightarrow> nats_service" where
  "nats_Publish taoMap v s =
     (if \<not> ns_ec s then s
      else
        (let v = renamed taoMap v; n = nextSeqNo s
         in (fst n)\<lparr>ns_published := ns_published s @ [(nats_subject v (snd n), v)]\<rparr>))"

subsection \<open>The loop\<close>

text \<open>
  How a statement ends. A \<open>break\<close> in a case of a \<open>select\<close> ends the \<open>select\<close>, in a loop's own body the loop.
\<close>

datatype flow = FallsThrough | Break | Continue

definition leave_select :: "flow \<Rightarrow> flow" where
  "leave_select f = (case f of Break \<Rightarrow> FallsThrough | _ \<Rightarrow> f)"

text \<open>
  What one turn of the loop finds: a message, the cancelled context, or neither (the \<open>default\<close> case). A turn
  without a connection only receives, and is not complete before a message comes.
\<close>

datatype nats_input = Received nats_message | Cancelled | NoActivity

definition nats_select :: "(string, string) amap \<Rightarrow> nats_input \<Rightarrow> nats_service \<Rightarrow> nats_service \<times> flow" where
  "nats_select taoMap i s =
     (case i of
        Received v \<Rightarrow> (nats_Publish taoMap v s, FallsThrough)
      | Cancelled \<Rightarrow> (s, Break)
      | NoActivity \<Rightarrow> (s, FallsThrough))"

definition nats_turn :: "(string, string) amap \<Rightarrow> nats_input \<Rightarrow> nats_service \<Rightarrow> nats_service \<times> flow" where
  "nats_turn taoMap i s =
     (if \<not> ns_ec s then (s, Continue)
      else (let x = nats_select taoMap i s in (fst x, leave_select (snd x))))"

text \<open>
  The loop on what its turns find: the service afterwards and whether the loop was left, after
  which the channel is closed and the function returns.
\<close>

fun nats_SyncLoop :: "(string, string) amap \<Rightarrow> nats_input list \<Rightarrow> nats_service \<Rightarrow> nats_service \<times> bool" where
  "nats_SyncLoop taoMap [] s = (s, False)"
| "nats_SyncLoop taoMap (i # is) s =
     (let x = nats_turn taoMap i s
      in if snd x = Break then (fst x, True) else nats_SyncLoop taoMap is (fst x))"

text \<open>
  \<open>Serve\<close> from the connection on: it returns, disconnecting, only when the loop is left; \<open>Stop\<close> waits for that.
\<close>

definition nats_Serve :: "(string, string) amap \<Rightarrow> nats_input list \<Rightarrow> nats_service \<Rightarrow> nats_service \<times> bool" where
  "nats_Serve taoMap is s =
     (let x = nats_SyncLoop taoMap is s in if snd x then (nats_disconnect (fst x), True) else x)"

subsection \<open>Lemmas\<close>

fun received :: "nats_input list \<Rightarrow> nats_message list" where
  "received [] = []"
| "received (Received v # is) = v # received is"
| "received (i # is) = received is"

text \<open>The messages with their subjects, numbered on from \<open>n\<close>.\<close>

fun with_subjects :: "(string, string) amap \<Rightarrow> 64 word \<Rightarrow> nats_message list \<Rightarrow> (string \<times> nats_message) list" where
  "with_subjects taoMap n [] = []"
| "with_subjects taoMap n (v # vs) =
     (nats_subject (renamed taoMap v) (n + 1), renamed taoMap v) # with_subjects taoMap (n + 1) vs"

lemma nats_turn_cases:
  assumes "ns_ec s"
  shows "nats_turn taoMap i s =
     (case i of Received v \<Rightarrow>
        (s\<lparr>ns_seq := ns_seq s + 1,
           ns_published := ns_published s @ [(nats_subject (renamed taoMap v) (ns_seq s + 1), renamed taoMap v)]\<rparr>, FallsThrough)
      | _ \<Rightarrow> (s, FallsThrough))"
  using assms
  by (simp add: nats_turn_def nats_select_def leave_select_def nats_Publish_def nextSeqNo_def Let_def
      split: nats_input.splits)

lemma nats_turn_goes_on: "snd (nats_turn taoMap i s) \<noteq> Break"
  by (simp add: nats_turn_def leave_select_def Let_def split: flow.splits)

lemma SyncLoop_connected:
  "ns_ec s \<Longrightarrow> nats_SyncLoop taoMap is s =
     (s\<lparr>ns_seq := ns_seq s + of_nat (length (received is)),
        ns_published := ns_published s @ with_subjects taoMap (ns_seq s) (received is)\<rparr>, False)"
proof (induction "is" arbitrary: s)
  case (Cons i "is")
  then show ?case by (cases i) (simp_all add: nats_turn_cases Let_def ac_simps)
qed simp

lemma SyncLoop_disconnected: "\<not> ns_ec s \<Longrightarrow> nats_SyncLoop taoMap is s = (s, False)"
  by (induction "is") (simp_all add: nats_turn_def Let_def)

lemma subject_inject:
  assumes "nats_subject v n = nats_subject w m"
  shows "n = m"
proof -
  have last: "rev (takeWhile (\<lambda>c. c \<noteq> CHR ''.'') (rev (nats_subject v n))) = dec (unat n)" for v n
  proof -
    have "\<forall>c\<in>set (rev (dec (unat n))). c \<noteq> CHR ''.''"
      using all_digits_dec[of "unat n"] by (auto simp: all_digits_def digit_val_def)
    then have "takeWhile (\<lambda>c. c \<noteq> CHR ''.'') (rev (dec (unat n)) @ [CHR ''.''] @ xs) = rev (dec (unat n))" for xs
      by (subst takeWhile_append2) auto
    moreover have "rev (nats_subject v n) = rev (dec (unat n)) @ [CHR ''.''] @ rev (''binlog.'' @ nm_Name v @ ''.'' @ nm_Action v)"
      by (simp add: nats_subject_def)
    ultimately show ?thesis by (metis rev_rev_ident)
  qed
  from last[of v n] last[of w m] assms have "dec (unat n) = dec (unat m)" by simp
  then show ?thesis by (simp add: unsigned_word_eqI)
qed

lemma numbered_subjects:
  "s \<in> set (map fst (with_subjects taoMap n vs)) \<Longrightarrow>
   \<exists>v k. 1 \<le> k \<and> k \<le> length vs \<and> s = nats_subject v (n + of_nat k)"
proof (induction vs arbitrary: n)
  case (Cons v vs)
  show ?case
  proof (cases "s = nats_subject (renamed taoMap v) (n + 1)")
    case True
    then show ?thesis by (intro exI[of _ "renamed taoMap v"] exI[of _ 1]) simp
  next
    case False
    with Cons.prems have "s \<in> set (map fst (with_subjects taoMap (n + 1) vs))" by simp
    from Cons.IH[OF this] obtain w k where "1 \<le> k" "k \<le> length vs" "s = nats_subject w (n + 1 + of_nat k)" by blast
    then show ?thesis by (intro exI[of _ w] exI[of _ "Suc k"]) (simp add: ac_simps)
  qed
qed simp

lemma numbered_distinct: "length vs < 2 ^ 64 \<Longrightarrow> distinct (map fst (with_subjects taoMap n vs))"
proof (induction vs arbitrary: n)
  case (Cons v vs)
  have "nats_subject (renamed taoMap v) (n + 1) \<notin> set (map fst (with_subjects taoMap (n + 1) vs))"
  proof
    assume "nats_subject (renamed taoMap v) (n + 1) \<in> set (map fst (with_subjects taoMap (n + 1) vs))"
    then obtain w k where k: "1 \<le> k" "k \<le> length vs"
      and eq: "nats_subject (renamed taoMap v) (n + 1) = nats_subject w (n + 1 + of_nat k)"
      using numbered_subjects by blast
    from subject_inject[OF eq] have "(of_nat k :: 64 word) = 0" by simp
    moreover have "unat (of_nat k :: 64 word) = k" using k(2) Cons.prems by (simp add: unat_of_nat)
    ultimately show False using k(1) by simp
  qed
  with Cons show ?case by simp
qed simp

subsection \<open>Properties\<close>

text \<open>
  C34. Stopping the publisher never completes: the \<open>break\<close> in the case of the cancelled context only leaves the
  \<open>select\<close>, so whatever the turns of the loop find, it goes on, \<open>Serve\<close> does not return and the connection is not
  closed; \<open>Stop\<close>, which waits for \<open>Serve\<close>, waits until the supervisor gives up.
\<close>

theorem nats_service_never_stops:
  "\<not> snd (nats_Serve taoMap is s) \<and> ns_closed (fst (nats_Serve taoMap is s)) = ns_closed s"
proof (cases "ns_ec s")
  case True
  then show ?thesis by (simp add: nats_Serve_def SyncLoop_connected Let_def)
next
  case False
  then show ?thesis by (simp add: nats_Serve_def SyncLoop_disconnected Let_def)
qed

text \<open>
  What is published: a connected publisher publishes every message it receives, also those after the context was
  cancelled, in their order, named by the type map and numbered on; up to \<open>2^64\<close> messages no two
  subjects are equal, whatever the messages are called.
\<close>

theorem nats_published_subjects:
  assumes "ns_ec s" and "ns_published s = []" and "length (received is) < 2 ^ 64"
  shows "ns_published (fst (nats_Serve taoMap is s)) = with_subjects taoMap (ns_seq s) (received is) \<and>
     map snd (ns_published (fst (nats_Serve taoMap is s))) = map (renamed taoMap) (received is) \<and>
     distinct (map fst (ns_published (fst (nats_Serve taoMap is s))))"
proof -
  have "map snd (with_subjects taoMap n vs) = map (renamed taoMap) vs" for n vs
    by (induction vs arbitrary: n) simp_all
  then show ?thesis
    using assms by (simp add: nats_Serve_def SyncLoop_connected numbered_distinct Let_def)
qed

theorem nats_published_subjects_witness:
  "map fst (ns_published (fst (nats_Serve [(''7'', ''users'')]
     [Received (PublishRowToNats 1 7 InsertAction ''db.t''), Cancelled, Received (PublishRowToNats 2 8 InsertAction ''db.t'')]
     (NewNatsService\<lparr>ns_ec := True\<rparr>)))) = [''binlog.users.insert.1'', ''binlog.db.t.insert.2'']"
proof -
  let ?is = "[Received (PublishRowToNats 1 7 InsertAction ''db.t''), Cancelled,
    Received (PublishRowToNats 2 8 InsertAction ''db.t'')]"
  have "map fst (with_subjects [(''7'', ''users'')] 0 (received ?is)) = [''binlog.users.insert.1'', ''binlog.db.t.insert.2'']"
    by code_simp
  with nats_published_subjects[of "NewNatsService\<lparr>ns_ec := True\<rparr>" ?is "[(''7'', ''users'')]"] show ?thesis
    by (simp add: NewNatsService_def)
qed

end
