(* ===== verification/Leader.thy ===== *)
theory Leader
  imports River_Setup
begin

text \<open>
  The command (\<open>src/cmd/mysql-manticore/main.go\<close>): the flags that override the configuration, the services put
  under the root supervisor, and the loop that follows the leader elected by the sidecar. The supervisor's
  tokens and the replies of the sidecar are parameters; the calls to the supervisor are recorded.
\<close>

subsection \<open>Flags\<close>

type_synonym strList = "string list"

definition strList_String :: "strList \<Rightarrow> string" where
  "strList_String s = join '' '' s"

definition strList_Set :: "string \<Rightarrow> strList \<Rightarrow> strList" where
  "strList_Set v s = s @ [v]"

record cmd_flags =
  fl_config :: string
  fl_myAddr :: string
  fl_sphAddr :: strList
  fl_logLevel :: string
  fl_logFile :: string
  fl_version :: bool
  fl_k8Leader :: bool

definition default_flags :: cmd_flags where
  "default_flags = \<lparr>fl_config = ''../../temp/etc/river.toml'', fl_myAddr = [], fl_sphAddr = [],
     fl_logLevel = ''info'', fl_logFile = [], fl_version = False, fl_k8Leader = False\<rparr>"

definition getVersion :: "string \<Rightarrow> string \<Rightarrow> string \<Rightarrow> string" where
  "getVersion version revision goVersion =
     ''mysql-manticore '' @ version @ '' ('' @ revision @ '') ; go runtime '' @ goVersion"

definition override_config :: "cmd_flags \<Rightarrow> Config \<Rightarrow> Config" where
  "override_config f cfg =
     (let cfg = (if fl_myAddr f \<noteq> [] then cfg\<lparr>c_MyAddr := fl_myAddr f\<rparr> else cfg)
      in if length (fl_sphAddr f) > 0 then cfg\<lparr>c_SphAddr := fl_sphAddr f\<rparr> else cfg)"

subsection \<open>The root supervisor\<close>

datatype root_call =
    RootAddStat
  | RootServeBackground
  | RootAdd nat
  | RootRemove nat int
  | RootStop

record root =
  rt_calls :: "root_call list"
  rt_riverToken :: nat

definition add_river :: "(root_call list \<Rightarrow> nat) \<Rightarrow> root \<Rightarrow> root" where
  "add_river T a = (let t = T (rt_calls a) in a\<lparr>rt_calls := rt_calls a @ [RootAdd t], rt_riverToken := t\<rparr>)"

text \<open>
  \<open>run\<close> up to its \<open>select\<close>: \<open>None\<close> after printing the version, otherwise the configuration, the river
  and the supervisor. Without leader election the river is added at once. \<open>loadConfig\<close> is \<open>NewConfigWithFile\<close>.
\<close>

definition run_setup ::
  "(root_call list \<Rightarrow> nat) \<Rightarrow> ('c, 't, 'r) canal_env \<Rightarrow> (string \<Rightarrow> string \<Rightarrow> unit result) \<Rightarrow> (string \<Rightarrow> Config result) \<Rightarrow>
   cmd_flags result \<Rightarrow> (Config \<times> ('b, 'g) River \<times> root) option result" where
  "run_setup T C InitLogger loadConfig parsed =
     bindR parsed (\<lambda>f.
       if fl_version f then Inr None
       else
         bindR (InitLogger (fl_logLevel f) (fl_logFile f)) (\<lambda>_.
         bindR (loadConfig (fl_config f)) (\<lambda>cfg.
           let cfg = override_config f cfg
           in bindR (NewRiver C cfg) (\<lambda>x.
              let a = \<lparr>rt_calls = [RootAddStat, RootServeBackground], rt_riverToken = 0\<rparr>
              in Inr (Some (cfg, snd (snd x), if fl_k8Leader f then a else add_river T a))))))"

text \<open>The end of \<open>run\<close>: a signal, or the first fatal error of the river, which it returns.\<close>

datatype run_event = Signal nat | FatalErr go_error

definition run_end :: "run_event \<Rightarrow> root \<Rightarrow> root \<times> unit result" where
  "run_end ev a =
     (a\<lparr>rt_calls := rt_calls a @ [RootStop]\<rparr>,
      (case ev of Signal n \<Rightarrow> Inr () | FatalErr e \<Rightarrow> Inl (Fails e)))"

subsection \<open>Following the leader\<close>

text \<open>\<open>running\<close> is what \<open>r.IsRunning()\<close> says at the time.\<close>

definition fetchLeader ::
  "(root_call list \<Rightarrow> nat) \<Rightarrow> string \<Rightarrow> string result \<Rightarrow> bool \<Rightarrow> root \<Rightarrow> root" where
  "fetchLeader T host reply running a =
     (case reply of
        Inl e \<Rightarrow> a
      | Inr name \<Rightarrow>
          if length name > 3
          then (let a = (if name = host \<and> \<not> running then add_river T a else a)
                in if name \<noteq> host \<and> running
                   then a\<lparr>rt_calls := rt_calls a @ [RootRemove (rt_riverToken a) 20000000000]\<rparr> else a)
          else a)"

text \<open>\<open>runMasterLoop\<close>: one poll per tick of ten seconds; nothing ever closes \<open>done\<close>.\<close>

fun runMasterLoop ::
  "(root_call list \<Rightarrow> nat) \<Rightarrow> string \<Rightarrow> (string result \<times> bool) list \<Rightarrow> root \<Rightarrow> root" where
  "runMasterLoop T host [] a = a"
| "runMasterLoop T host ((reply, running) # ticks) a =
     runMasterLoop T host ticks (fetchLeader T host reply running a)"

subsection \<open>What is registered\<close>

fun registered_tokens :: "nat list \<Rightarrow> root_call list \<Rightarrow> nat list" where
  "registered_tokens ts [] = ts"
| "registered_tokens ts (RootAdd t # cs) = registered_tokens (ts @ [t]) cs"
| "registered_tokens ts (RootRemove t timeout # cs) = registered_tokens (remove1 t ts) cs"
| "registered_tokens ts (c # cs) = registered_tokens ts cs"

definition registered_rivers :: "root \<Rightarrow> nat list" where
  "registered_rivers a = registered_tokens [] (rt_calls a)"

lemma registered_tokens_append:
  "registered_tokens ts (cs @ ds) = registered_tokens (registered_tokens ts cs) ds"
  by (induction ts cs rule: registered_tokens.induct) simp_all

lemma registered_add [simp]:
  "registered_rivers (add_river T a) = registered_rivers a @ [T (rt_calls a)]"
  "rt_riverToken (add_river T a) = T (rt_calls a)"
  by (simp_all add: registered_rivers_def add_river_def registered_tokens_append Let_def)

lemma registered_remove [simp]:
  "registered_rivers (a\<lparr>rt_calls := rt_calls a @ [RootRemove t d]\<rparr>) = remove1 t (registered_rivers a)"
  by (simp add: registered_rivers_def registered_tokens_append)

text \<open>The polls of a process whose river runs whenever it is registered.\<close>

fun follow :: "(root_call list \<Rightarrow> nat) \<Rightarrow> string \<Rightarrow> string result list \<Rightarrow> root \<Rightarrow> root" where
  "follow T host [] a = a"
| "follow T host (reply # replies) a =
     follow T host replies (fetchLeader T host reply (registered_rivers a \<noteq> []) a)"

text \<open>The leader according to the last reply that names one (with more than three characters).\<close>

fun elected :: "string option \<Rightarrow> string result list \<Rightarrow> string option" where
  "elected l [] = l"
| "elected l (Inl e # replies) = elected l replies"
| "elected l (Inr name # replies) = elected (if length name > 3 then Some name else l) replies"

lemma follow_registers:
  "registered_rivers a = (if l = Some host then [rt_riverToken a] else []) \<Longrightarrow>
   registered_rivers (follow T host replies a) =
     (if elected l replies = Some host then [rt_riverToken (follow T host replies a)] else [])"
  by (induction l replies arbitrary: a rule: elected.induct) (auto simp: fetchLeader_def Let_def split: if_splits)

lemma fetchLeader_keeps:
  assumes "t \<in> set (registered_rivers a)" and "rt_riverToken a \<noteq> t" and "\<forall>cs. T cs \<noteq> t"
  shows "t \<in> set (registered_rivers (fetchLeader T host reply running a)) \<and>
     rt_riverToken (fetchLeader T host reply running a) \<noteq> t"
  using assms by (auto simp: fetchLeader_def Let_def split: sum.splits)

lemma runMasterLoop_keeps:
  "t \<in> set (registered_rivers a) \<Longrightarrow> rt_riverToken a \<noteq> t \<Longrightarrow> \<forall>cs. T cs \<noteq> t \<Longrightarrow>
   t \<in> set (registered_rivers (runMasterLoop T host ticks a))"
proof (induction T host ticks a rule: runMasterLoop.induct)
  case (2 T host reply running ticks a)
  then show ?case using fetchLeader_keeps[OF 2(2-4)] by simp
qed simp

definition leader_start :: root where
  "leader_start = \<lparr>rt_calls = [RootAddStat, RootServeBackground], rt_riverToken = 0\<rparr>"

lemma registered_start [simp]: "registered_rivers leader_start = []"
  by (simp add: leader_start_def registered_rivers_def)

subsection \<open>Properties\<close>

text \<open>
  C20. Leader election: as long as a registered river runs and an unregistered one does not, the polls implement the
  election: the river is registered with the root supervisor, once and under the token that is remembered, exactly when
  the last usable reply of the sidecar named this host. Failed polls and names of up to three characters count
  for nothing.
\<close>

theorem leader_election_refined:
  "registered_rivers (follow T host replies leader_start) =
     (if elected None replies = Some host then [rt_riverToken (follow T host replies leader_start)] else [])"
  by (rule follow_registers) simp

text \<open>
  One leader at a time: of two processes on different hosts that get the same replies, at most one has its river
  registered.
\<close>

theorem one_leader:
  assumes "host1 \<noteq> host2"
  shows "registered_rivers (follow T1 host1 replies leader_start) = [] \<or>
     registered_rivers (follow T2 host2 replies leader_start) = []"
  using assms follow_registers[of leader_start None host1 T1 replies]
    follow_registers[of leader_start None host2 T2 replies] by auto

theorem one_leader_witness:
  "registered_rivers (follow length ''pod-a'' [Inr ''pod-a''] leader_start) = [] \<or>
   registered_rivers (follow length ''pod-b'' [Inr ''pod-a''] leader_start) = []"
  by (rule one_leader) simp

text \<open>
  C21. A river that has stopped by itself is registered twice: when a poll finds the river of the leader registered but
  not running (after a replication error, say, while the supervisor has yet to serve it again), it is added a
  second time, the first token is overwritten, and that registration is never removed again, whatever leader is
  elected afterwards.
\<close>

theorem stopped_river_registered_twice:
  assumes "registered_rivers a = [t]" and "length host > 3" and "\<forall>cs. T cs \<noteq> t"
  shows "registered_rivers (fetchLeader T host (Inr host) False a) = [t, T (rt_calls a)] \<and>
     t \<in> set (registered_rivers (runMasterLoop T host ((Inr host, False) # ticks) a))"
proof -
  have twice: "registered_rivers (fetchLeader T host (Inr host) False a) = [t, T (rt_calls a)]"
    "rt_riverToken (fetchLeader T host (Inr host) False a) = T (rt_calls a)"
    using assms(1,2) by (simp_all add: fetchLeader_def)
  with runMasterLoop_keeps[of t "fetchLeader T host (Inr host) False a" T host ticks] assms(3) show ?thesis by simp
qed

theorem stopped_river_registered_twice_witness:
  "7 \<in> set (registered_rivers (runMasterLoop (\<lambda>cs. 100 + length cs) ''pod-a'' [(Inr ''pod-a'', False), (Inr ''pod-b'', True)]
     \<lparr>rt_calls = [RootAdd 7], rt_riverToken = 7\<rparr>))"
  using stopped_river_registered_twice[of "\<lparr>rt_calls = [RootAdd 7], rt_riverToken = 7\<rparr>" 7 "''pod-a''"
      "\<lambda>cs. 100 + length cs" "[(Inr ''pod-b'', True)]"]
  by (simp add: registered_rivers_def)

end
