(* ===== verification/Config_Text.thy ===== *)
theory Config_Text
  imports Go_Text
begin

text \<open>
  The two text types of the configuration: durations (\<open>src/river/toml_duration.go\<close>) with \<open>time.ParseDuration\<close> as
  it is in Go 1.14, the version the program is built with, and query templates (\<open>src/river/toml_go_template.go\<close>).
\<close>

subsection \<open>time.ParseDuration\<close>

text \<open>
  An \<open>int64\<close> is an \<open>int\<close> here, and \<open>signed_take_bit 63\<close> its wrap-around. Reading digits fails when the value does not fit.
\<close>

definition max_int64 :: int where
  "max_int64 = 0x7fffffffffffffff"

fun leadingInt :: "int \<Rightarrow> string \<Rightarrow> (int \<times> string) option" where
  "leadingInt x [] = Some (x, [])"
| "leadingInt x (c # s) =
     (case digit_val c of
        None \<Rightarrow> Some (x, c # s)
      | Some d \<Rightarrow>
          if x > max_int64 div 10 then None
          else (let y = signed_take_bit 63 (x * 10 + int d) in if y < 0 then None else leadingInt y s))"

text \<open>
  The digits after the point: their value, the number of digits it has, and the rest. Digits that no longer fit are dropped.
\<close>

fun leadingFraction :: "bool \<Rightarrow> int \<Rightarrow> nat \<Rightarrow> string \<Rightarrow> int \<times> nat \<times> string" where
  "leadingFraction overflow x k [] = (x, k, [])"
| "leadingFraction overflow x k (c # s) =
     (case digit_val c of
        None \<Rightarrow> (x, k, c # s)
      | Some d \<Rightarrow>
          if overflow \<or> x > max_int64 div 10 then leadingFraction True x k s
          else (let y = signed_take_bit 63 (x * 10 + int d)
                in if y < 0 then leadingFraction True x k s else leadingFraction False y (k + 1) s))"

text \<open>The micro sign is written with two code points, both of two bytes.\<close>

definition unitMap :: "(string \<times> int) list" where
  "unitMap =
     [(''ns'', 1), (''us'', 1000), ([CHR 0xC2, CHR 0xB5, CHR ''s''], 1000), ([CHR 0xCE, CHR 0xBC, CHR ''s''], 1000),
      (''ms'', 1000000), (''s'', 1000000000), (''m'', 60000000000), (''h'', 3600000000000)]"

definition unit_char :: "char \<Rightarrow> bool" where
  "unit_char c \<longleftrightarrow> c \<noteq> CHR ''.'' \<and> digit_val c = None"

definition invalid_duration :: "string \<Rightarrow> 'a result" where
  "invalid_duration orig = Inl (Fails (ErrMsg (''time: invalid duration '' @ orig)))"

text \<open>The optional fraction: value, number of digits, rest, and whether it has a digit.\<close>

definition read_fraction :: "string \<Rightarrow> int \<times> nat \<times> string \<times> bool" where
  "read_fraction s =
     (case s of
        [] \<Rightarrow> (0, 0, [], False)
      | c # s' \<Rightarrow>
          if c = CHR ''.''
          then (let r = leadingFraction False 0 0 s'
                in (fst r, fst (snd r), snd (snd r), length (snd (snd r)) \<noteq> length s'))
          else (0, 0, s, False))"

text \<open>
  One number with its unit. \<open>fl f u k\<close> is the float expression \<open>float64(f) * (float64(u) / 10^k)\<close>, truncated.
\<close>

definition parse_term :: "(int \<Rightarrow> int \<Rightarrow> nat \<Rightarrow> int) \<Rightarrow> string \<Rightarrow> string \<Rightarrow> (int \<times> string) result" where
  "parse_term fl orig s =
     (if s = [] \<or> unit_char (hd s) then invalid_duration orig
      else case leadingInt 0 s of
        None \<Rightarrow> invalid_duration orig
      | Some (v, s1) \<Rightarrow>
          (let (f, k, s2, post) = read_fraction s1;
               u = takeWhile unit_char s2; s3 = dropWhile unit_char s2
           in if length s = length s1 \<and> \<not> post then invalid_duration orig
              else if u = [] then Inl (Fails (ErrMsg (''time: missing unit in duration '' @ orig)))
              else case map_of unitMap u of
                None \<Rightarrow> Inl (Fails (ErrMsg (''time: unknown unit '' @ u @ '' in duration '' @ orig)))
              | Some n \<Rightarrow>
                  if v > max_int64 div n then invalid_duration orig
                  else (let w = signed_take_bit 63 (v * n);
                            w' = (if f > 0 then signed_take_bit 63 (w + fl f n k) else w)
                        in if f > 0 \<and> w' < 0 then invalid_duration orig else Inr (w', s3))))"

lemma leadingInt_length: "leadingInt x s = Some (v, s') \<Longrightarrow> length s' \<le> length s"
  by (induction x s rule: leadingInt.induct) (auto simp: Let_def intro: le_SucI split: option.splits if_splits)

lemma leadingFraction_length: "length (snd (snd (leadingFraction overflow x k s))) \<le> length s"
  by (induction overflow x k s rule: leadingFraction.induct) (auto simp: Let_def intro: le_SucI split: option.split)

lemma read_fraction_length: "read_fraction s = (f, k, s', post) \<Longrightarrow> length s' \<le> length s"
  using leadingFraction_length[of False 0 0 "tl s"]
  by (cases s) (auto simp: read_fraction_def Let_def split: if_splits)

lemma parse_term_length:
  assumes "parse_term fl orig s = Inr (v, s')"
  shows "length s' < length s"
proof -
  obtain w s1 where s1: "leadingInt 0 s = Some (w, s1)"
    using assms by (auto simp: parse_term_def invalid_duration_def split: if_splits option.splits)
  obtain f k s2 post where s2: "read_fraction s1 = (f, k, s2, post)" by (cases "read_fraction s1")
  have u: "takeWhile unit_char s2 \<noteq> []" "s' = dropWhile unit_char s2"
    using assms s1 s2 by (auto simp: parse_term_def invalid_duration_def Let_def split: if_splits option.splits)
  have "length s' < length s2"
    using u arg_cong[OF takeWhile_dropWhile_id[of unit_char s2], of length] by (cases "takeWhile unit_char s2") auto
  with leadingInt_length[OF s1] read_fraction_length[OF s2] show ?thesis by simp
qed

function parse_terms :: "(int \<Rightarrow> int \<Rightarrow> nat \<Rightarrow> int) \<Rightarrow> string \<Rightarrow> int \<Rightarrow> string \<Rightarrow> int result" where
  "parse_terms fl orig d s =
     (if s = [] then Inr d
      else case parse_term fl orig s of
        Inl e \<Rightarrow> Inl e
      | Inr r \<Rightarrow>
          (let d' = signed_take_bit 63 (d + fst r)
           in if d' < 0 then invalid_duration orig else parse_terms fl orig d' (snd r)))"
  by pat_completeness auto
termination
  by (relation "measure (\<lambda>(_, _, _, s). length s)") (auto dest: parse_term_length)

declare parse_terms.simps [simp del]

definition ParseDuration :: "(int \<Rightarrow> int \<Rightarrow> nat \<Rightarrow> int) \<Rightarrow> string \<Rightarrow> int result" where
  "ParseDuration fl orig =
     (let signed = orig \<noteq> [] \<and> hd orig \<in> {CHR ''-'', CHR ''+''};
          neg = signed \<and> hd orig = CHR ''-'';
          s = (if signed then tl orig else orig)
      in if s = ''0'' then Inr 0
         else if s = [] then invalid_duration orig
         else bindR (parse_terms fl orig 0 s) (\<lambda>d. Inr (if neg then - d else d)))"

subsection \<open>The text types\<close>

text \<open>The new duration and the error; the assignment overwrites the old value also when parsing fails.\<close>

definition TomlDuration_UnmarshalText :: "(int \<Rightarrow> int \<Rightarrow> nat \<Rightarrow> int) \<Rightarrow> string \<Rightarrow> int \<times> fault option" where
  "TomlDuration_UnmarshalText fl str =
     (case ParseDuration fl str of Inl e \<Rightarrow> (0, Some e) | Inr d \<Rightarrow> (d, None))"

text \<open>\<open>parse\<close> is \<open>Parse\<close> of the template library with the given delimiters; a text that does not parse leaves the template.\<close>

definition TomlGoTemplate_UnmarshalText ::
  "(string \<Rightarrow> string \<Rightarrow> string \<Rightarrow> 'tpl result) \<Rightarrow> string \<Rightarrow> 'tpl \<Rightarrow> 'tpl \<times> fault option" where
  "TomlGoTemplate_UnmarshalText parse str t =
     (case parse ''<<'' ''>>'' str of Inl e \<Rightarrow> (t, Some e) | Inr t' \<Rightarrow> (t', None))"

subsection \<open>Reading durations\<close>

lemma wrap_fits: "0 \<le> x \<Longrightarrow> x \<le> max_int64 \<Longrightarrow> signed_take_bit 63 x = x"
  by (simp add: max_int64_def signed_take_bit_int_eq_self)

lemma leadingInt_digits:
  assumes "dec_value (nat x) ds = Some n" and "0 \<le> x" and "int n \<le> max_int64"
    and "rest = [] \<or> digit_val (hd rest) = None"
  shows "leadingInt x (ds @ rest) = Some (int n, rest)"
  using assms
proof (induction ds arbitrary: x)
  case Nil
  then show ?case by (cases rest) auto
next
  case (Cons c ds)
  then obtain d where d: "digit_val c = Some d" "dec_value (10 * nat x + d) ds = Some n" by (auto split: option.splits)
  let ?y = "x * 10 + int d"
  have "10 * nat x + d \<le> n" by (rule dec_value_ge[OF d(2)])
  then have y: "0 \<le> ?y" "?y \<le> max_int64" using Cons.prems(2,3) by linarith+
  have "nat ?y = 10 * nat x + d" using Cons.prems(2) by simp
  then have "leadingInt ?y (ds @ rest) = Some (int n, rest)" using Cons.IH[of ?y] d(2) y(1) Cons.prems(3,4) by simp
  moreover have "\<not> x > max_int64 div 10" using y(2) by (simp add: max_int64_def)
  ultimately show ?case using d(1) y by (simp add: wrap_fits Let_def)
qed

definition unit_name :: "string \<Rightarrow> bool" where
  "unit_name u \<longleftrightarrow> u \<in> fst ` set unitMap"

abbreviation unit_ns :: "string \<Rightarrow> int" where
  "unit_ns u \<equiv> the (map_of unitMap u)"

lemma unit_name_facts:
  assumes "unit_name u"
  shows "u \<noteq> []" and "list_all unit_char u" and "map_of unitMap u = Some (unit_ns u)" and "unit_ns u > 0"
  using assms by (auto simp: unit_name_def unitMap_def unit_char_def digit_val_def Let_def)

text \<open>A text like \<open>1h30m\<close> as a list of numbers with units.\<close>

definition duration_text :: "(nat \<times> string) list \<Rightarrow> string" where
  "duration_text ps = concat (map (\<lambda>(n, u). dec n @ u) ps)"

definition duration_value :: "(nat \<times> string) list \<Rightarrow> int" where
  "duration_value ps = (\<Sum>p\<leftarrow>ps. int (fst p) * unit_ns (snd p))"

lemma duration_value_nonneg: "\<forall>p\<in>set ps. unit_name (snd p) \<Longrightarrow> 0 \<le> duration_value ps"
  unfolding duration_value_def
  by (intro sum_list_nonneg) (fastforce dest: unit_name_facts(4))

lemma parse_term_text:
  assumes "unit_name u" and "int n * unit_ns u \<le> max_int64" and "rest = [] \<or> \<not> unit_char (hd rest)"
  shows "parse_term fl orig (dec n @ u @ rest) = Inr (int n * unit_ns u, rest)"
proof -
  note u = unit_name_facts[OF assms(1)]
  obtain c cs where cs: "u = c # cs" "unit_char c" using u(1,2) by (cases u) auto
  have hd: "\<not> unit_char (hd (dec n @ u @ rest))"
    using all_digits_dec[of n] by (cases "dec n") (auto simp: unit_char_def all_digits_def)
  have "int n \<le> int n * unit_ns u" using u(4) mult_left_mono[of 1 "unit_ns u" "int n"] by simp
  then have n: "int n \<le> max_int64" using assms(2) by simp
  have lead: "leadingInt 0 (dec n @ u @ rest) = Some (int n, u @ rest)"
    by (rule leadingInt_digits) (use n cs in \<open>simp_all add: unit_char_def\<close>)
  have fraction: "read_fraction (u @ rest) = (0, 0, u @ rest, False)"
    using cs by (simp add: read_fraction_def unit_char_def)
  have run: "takeWhile unit_char (u @ rest) = u" "dropWhile unit_char (u @ rest) = rest"
    using u(2) assms(3) by (cases rest; auto simp: list_all_iff takeWhile_append dropWhile_append)+
  have "\<not> int n > max_int64 div unit_ns u" 
    using zdiv_mono1[OF assms(2) u(4)] u(4) by simp
  moreover obtain k where "map_of unitMap u = Some k" "unit_ns u = k" using u(3) by metis
  ultimately show ?thesis
    using hd lead fraction run u(1,4) assms(2)
    by (simp add: parse_term_def wrap_fits)
qed

lemma duration_text_Cons: "duration_text ((n, u) # ps) = dec n @ u @ duration_text ps"
  by (simp add: duration_text_def)

lemma duration_text_hd: "duration_text ps = [] \<or> \<not> unit_char (hd (duration_text ps))"
proof (cases ps)
  case (Cons p ps')
  then show ?thesis
    using all_digits_dec[of "fst p"] by (cases p; cases "dec (fst p)") (auto simp: duration_text_Cons unit_char_def all_digits_def)
qed (simp add: duration_text_def)

lemma parse_terms_text:
  assumes "\<forall>p\<in>set ps. unit_name (snd p)" and "0 \<le> d" and "d + duration_value ps \<le> max_int64"
  shows "parse_terms fl orig d (duration_text ps) = Inr (d + duration_value ps)"
  using assms
proof (induction ps arbitrary: d)
  case Nil
  then show ?case by (subst parse_terms.simps) (simp add: duration_text_def duration_value_def)
next
  case (Cons p ps)
  obtain n u where p: "p = (n, u)" by (cases p)
  let ?v = "int n * unit_ns u"
  have u: "unit_name u" using Cons.prems(1) p by simp
  have v: "0 \<le> ?v" "duration_value (p # ps) = ?v + duration_value ps"
    using unit_name_facts(4)[OF u] by (simp_all add: p duration_value_def)
  have nonneg: "0 \<le> duration_value ps" using Cons.prems(1) by (simp add: duration_value_nonneg)
  have "parse_term fl orig (dec n @ u @ duration_text ps) = Inr (?v, duration_text ps)"
    by (rule parse_term_text[OF u _ duration_text_hd]) (use Cons.prems(2,3) v nonneg in linarith)
  moreover have "parse_terms fl orig (d + ?v) (duration_text ps) = Inr (d + ?v + duration_value ps)"
    by (rule Cons.IH) (use Cons.prems v nonneg in \<open>simp_all\<close>)
  moreover have "signed_take_bit 63 (d + ?v) = d + ?v" "\<not> d + ?v < 0"
    using Cons.prems(2,3) v nonneg wrap_fits[of "d + ?v"] by linarith+
  ultimately show ?case
    using v by (subst parse_terms.simps) (simp add: p duration_text_Cons Let_def add.assoc)
qed

subsection \<open>Properties\<close>

text \<open>
  A duration written as numbers with units is read as their sum, in nanoseconds, as long as it fits; a leading minus sign
  negates it.
\<close>

theorem ParseDuration_text:
  assumes "ps \<noteq> []" and "\<forall>p\<in>set ps. unit_name (snd p)" and "duration_value ps \<le> max_int64"
  shows "ParseDuration fl (duration_text ps) = Inr (duration_value ps) \<and>
     ParseDuration fl (CHR ''-'' # duration_text ps) = Inr (- duration_value ps)"
proof -
  obtain n u qs where ps: "ps = (n, u) # qs" using assms(1) by (cases ps) auto
  have u: "u \<noteq> []" using unit_name_facts(1) assms(2) ps by simp
  have long: "duration_text ps \<noteq> []" "length (duration_text ps) \<ge> 2"
    using u by (cases "dec n"; cases u; simp add: ps duration_text_Cons)+
  have "duration_text ps \<noteq> ''0''" using long(2) by auto
  moreover have "hd (duration_text ps) \<notin> {CHR ''-'', CHR ''+''}"
    using all_digits_dec[of n] by (cases "dec n") (auto simp: ps duration_text_Cons)
  ultimately show ?thesis
    using parse_terms_text[OF assms(2), of 0] assms(3) long(1) by (simp add: ParseDuration_def Let_def result_simps)
qed

theorem ParseDuration_text_witness: "ParseDuration fl ''1h30m'' = Inr 5400000000000"
proof -
  have shown: "duration_text [(1, ''h''), (30, ''m'')] = ''1h30m''" by code_simp
  have "duration_value [(1, ''h''), (30, ''m'')] = 5400000000000" by code_simp
  with ParseDuration_text[of "[(1, ''h''), (30, ''m'')]" fl, unfolded shown] show ?thesis
    by (simp add: unit_name_def unitMap_def max_int64_def)
qed

text \<open>Whatever is read fits into a duration, also with overflowing numbers and fractions.\<close>

lemma parse_terms_nonneg: "parse_terms fl orig d s = Inr r \<Longrightarrow> 0 \<le> d \<Longrightarrow> d \<le> max_int64 \<Longrightarrow> 0 \<le> r \<and> r \<le> max_int64"
proof (induction fl orig d s rule: parse_terms.induct)
  case (1 fl orig d s)
  show ?case
  proof (cases "s = []")
    case True
    with 1 show ?thesis by (simp add: parse_terms.simps)
  next
    case False
    then obtain v s' where v: "parse_term fl orig s = Inr (v, s')"
      using "1.prems"(1) by (subst (asm) parse_terms.simps) (auto split: sum.splits)
    let ?d = "signed_take_bit 63 (d + v)"
    have "parse_terms fl orig d s = (if ?d < 0 then invalid_duration orig else parse_terms fl orig ?d s')"
      using False v by (subst parse_terms.simps) (simp add: Let_def)
    then have d: "\<not> ?d < 0" "parse_terms fl orig ?d s' = Inr r"
      using "1.prems"(1) by (auto simp: invalid_duration_def split: if_splits)
    have "?d \<le> max_int64" using signed_take_bit_int_less_exp[of 63 "d + v"] by (simp add: max_int64_def)
    with "1.IH"[OF False v] d show ?thesis by simp
  qed
qed

theorem ParseDuration_bounds:
  assumes "ParseDuration fl str = Inr d"
  shows "\<bar>d\<bar> \<le> max_int64"
  using assms parse_terms_nonneg[of fl str 0]
  by (fastforce simp: ParseDuration_def Let_def result_simps invalid_duration_def max_int64_def split: if_splits)

end
