(* ===== verification/Util_IO.thy ===== *)
theory Util_IO
  imports Go_Text
begin

text \<open>
  The log adapter (\<open>src/util/log_adapter.go\<close>), which finds the level of a message in its text, the set-up of the
  log (\<open>log_init.go\<close>, \<open>std_logger.go\<close>) and the copying of files (\<open>copy.go\<close>). The names of the levels are the log library's; files are the operating system's.
\<close>

subsection \<open>The log adapter\<close>

datatype log_level = LevelFatal | LevelError | LevelWarn | LevelInfo | LevelDebug | LevelTrace

datatype log_method = Fatal | Error | Warn | Info | Debug

definition levelToPrefix :: "(log_level \<Rightarrow> string) \<Rightarrow> log_level \<Rightarrow> string" where
  "levelToPrefix name level = ''['' @ name level @ ''] ''"

type_synonym log_adapter = "(string, log_method) amap"

definition newLogAdapter :: "(log_level \<Rightarrow> string) \<Rightarrow> log_adapter" where
  "newLogAdapter name =
     foldl (\<lambda>m e. aput (levelToPrefix name (fst e)) (snd e) m) []
       [(LevelFatal, Fatal), (LevelError, Error), (LevelWarn, Warn), (LevelInfo, Info), (LevelDebug, Debug),
        (LevelTrace, Debug)]"

definition trim_newline :: "string \<Rightarrow> string" where
  "trim_newline s = (if s \<noteq> [] \<and> last s = CHR 0x0A then butlast s else s)"

text \<open>The call made, if any, for the first prefix the traversal of the map finds; and the number of bytes.\<close>

definition LogAdapter_Write :: "log_adapter \<Rightarrow> string \<Rightarrow> (log_method \<times> string) option \<times> nat result" where
  "LogAdapter_Write m p =
     ((case filter (\<lambda>e. has_prefix p (fst e)) m of
         [] \<Rightarrow> None
       | e # _ \<Rightarrow> Some (snd e, trim_newline (drop (length (fst e)) p))),
      Inr (length p))"

lemma prefix_level:
  assumes "has_prefix p (levelToPrefix name l)" and "CHR '']'' \<notin> set (name l)"
  shows "name l = takeWhile (\<lambda>c. c \<noteq> CHR '']'') (tl p)"
proof -
  obtain rest where "p = levelToPrefix name l @ rest"
    using assms(1) by (metis append_take_drop_id has_prefix_def)
  then have "tl p = name l @ CHR '']'' # CHR '' '' # rest" by (simp add: levelToPrefix_def)
  moreover have "takeWhile (\<lambda>c. c \<noteq> CHR '']'') (name l) = name l"
    using assms(2) by (auto simp: takeWhile_eq_all_conv)
  ultimately show ?thesis by (simp add: takeWhile_tail)
qed

lemma same_short_list: "mset xs = mset ys \<Longrightarrow> length ys \<le> 1 \<Longrightarrow> xs = ys"
  using mset_eq_length[of xs ys] by (cases xs; cases ys) auto

text \<open>
  The order in which Go traverses the map does not matter when the names of the levels are different and have no
  closing bracket: at most one prefix fits.
\<close>

lemma LogAdapter_Write_order:
  assumes "inj name" and "\<forall>l. CHR '']'' \<notin> set (name l)"
    and "mset m = mset (newLogAdapter name)"
  shows "LogAdapter_Write m p = LogAdapter_Write (newLogAdapter name) p"
proof -
  let ?P = "\<lambda>e. has_prefix p (fst e)"
  have entries: "newLogAdapter name = map (\<lambda>e. (levelToPrefix name (fst e), snd e))
      [(LevelFatal, Fatal), (LevelError, Error), (LevelWarn, Warn), (LevelInfo, Info), (LevelDebug, Debug), (LevelTrace, Debug)]"
    using assms(1) by (simp add: newLogAdapter_def levelToPrefix_def inj_eq)
  have "length (filter ?P (newLogAdapter name)) \<le> 1"
  proof (rule ccontr)
    assume "\<not> ?thesis"
    then obtain e f rest where ef: "filter ?P (newLogAdapter name) = e # f # rest"
      by (metis One_nat_def le_0_eq length_0_conv length_Cons list.exhaust not_less_eq_eq)
    have "distinct (map fst (filter ?P (newLogAdapter name)))"
      using assms(1) by (simp add: entries levelToPrefix_def inj_eq distinct_map_filter)
    then have "fst e \<noteq> fst f" by (simp add: ef)
    moreover have "e \<in> set (newLogAdapter name) \<and> ?P e" "f \<in> set (newLogAdapter name) \<and> ?P f"
      using arg_cong[OF ef, of set] by auto
    then obtain l k where "fst e = levelToPrefix name l" "fst f = levelToPrefix name k"
      "has_prefix p (levelToPrefix name l)" "has_prefix p (levelToPrefix name k)"
      unfolding entries by auto
    ultimately show False using prefix_level assms(2) by (metis levelToPrefix_def)
  qed
  moreover have "mset (filter ?P m) = mset (filter ?P (newLogAdapter name))"
    using assms(3) by simp
  ultimately have "filter ?P m = filter ?P (newLogAdapter name)"
    by (rule same_short_list[rotated])
  then show ?thesis by (simp add: LogAdapter_Write_def)
qed

subsection \<open>Setting up the log\<close>

text \<open>
  The set-up of the log (\<open>log_init.go\<close>): \<open>lg_out\<close> is the file it goes to (\<open>None\<close>: standard output). The levels and the file
  system are parameters; \<open>lib_adapter\<close> and \<open>lib_level\<close> are what the log library of the MySQL client was given.
\<close>

record ('f, 'l) logger =
  lg_out :: "'f option"
  lg_level :: 'l
  lg_timestamps :: string

record ('w, 'f, 'l) log_state =
  log_world :: 'w
  log_Logger :: "('f, 'l) logger option"
  lib_adapter :: "(log_adapter \<times> string list) option"
  lib_level :: string
  log_lines :: "string list"

definition SetupLogAdapter ::
  "(log_level \<Rightarrow> string) \<Rightarrow> string \<Rightarrow> string list \<Rightarrow> ('w, 'f, 'l) log_state \<Rightarrow> ('w, 'f, 'l) log_state" where
  "SetupLogAdapter name level flds st = st\<lparr>lib_adapter := Some (newLogAdapter name, flds), lib_level := level\<rparr>"

definition InitLogger ::
  "(log_level \<Rightarrow> string) \<Rightarrow> (string \<Rightarrow> ('w, 'f) call) \<Rightarrow> (string \<Rightarrow> 'l result) \<Rightarrow> string \<Rightarrow> string \<Rightarrow> string \<Rightarrow>
   (('w, 'f, 'l) log_state, unit) call" where
  "InitLogger name openAppend parseLevel logLevel logFile version st =
     (let x = (if logFile = [] then (log_world st, Inr None)
               else (let r = openAppend logFile (log_world st) in (fst r, bindR (snd r) (\<lambda>f. Inr (Some f)))));
          st = st\<lparr>log_world := fst x\<rparr>
      in case snd x of
           Inl e \<Rightarrow> (st, Inl e)
         | Inr out \<Rightarrow>
             (case parseLevel logLevel of
                Inl e \<Rightarrow> (st, Inl e)
              | Inr level \<Rightarrow>
                  (let st = st\<lparr>log_Logger := Some \<lparr>lg_out = out, lg_level = level,
                              lg_timestamps = ''2006-01-02T15:04:05.999999999Z07:00''\<rparr>\<rparr>;
                       st = SetupLogAdapter name logLevel [''library'', ''go-mysql''] st
                   in (st\<lparr>log_lines := log_lines st @ [''starting '' @ version]\<rparr>, Inr ()))))"

text \<open>A failing set-up leaves the loggers as they were; what it has opened stays open.\<close>

lemma InitLogger_failure:
  "InitLogger name openAppend parseLevel logLevel logFile version st = (st', Inl e) \<Longrightarrow>
   st' = st\<lparr>log_world := if logFile = [] then log_world st else fst (openAppend logFile (log_world st))\<rparr>"
  by (auto simp: InitLogger_def Let_def split: sum.splits if_splits)

text \<open>
  The logger for the standard library (\<open>std_logger.go\<close>): the type assertion panics on a logger of another kind. \<open>writer\<close> is the
  library's pipe into the log, \<open>as_mapper\<close> the assertion.
\<close>

definition NewStdLogger :: "('a \<Rightarrow> 'm option) \<Rightarrow> ('m \<Rightarrow> 'w) \<Rightarrow> 'a \<Rightarrow> (('w \<times> string \<times> nat) \<times> 'w) result" where
  "NewStdLogger as_mapper writer loggerInterface =
     (case as_mapper loggerInterface of
        None \<Rightarrow> Inl (Panics TypeAssertion)
      | Some m \<Rightarrow> Inr ((writer m, [], 0), writer m))"

subsection \<open>Copying a file\<close>

record ('w, 'f) os_env =
  os_Open :: "string \<Rightarrow> ('w, 'f) call"
  os_Create :: "string \<Rightarrow> ('w, 'f) call"
  os_Copy :: "'f \<Rightarrow> 'f \<Rightarrow> ('w, unit) call"
  os_Close :: "'f \<Rightarrow> ('w, unit) call"

text \<open>The deferred \<open>s.Close()\<close>, whose error is ignored.\<close>

definition Copy :: "('w, 'f) os_env \<Rightarrow> string \<Rightarrow> string \<Rightarrow> ('w, unit) call" where
  "Copy OS src dst =
     bindS (os_Open OS src) (\<lambda>s w.
       let r = bindS (os_Create OS dst) (\<lambda>d w.
             let c = os_Copy OS d s w
             in case snd c of
                  Inl e \<Rightarrow> (fst (os_Close OS d (fst c)), Inl e)
                | Inr _ \<Rightarrow> os_Close OS d (fst c)) w
       in (fst (os_Close OS s (fst r)), snd r))"

end
