(* ===== verification/Spec2Isabelle.thy ===== *)
theory Spec2Isabelle
  imports Stale_Index Catch_Up Ingest_Effects Connections_Correct Http_Status_Correct Services Sphinx_Handshake Nats
    Leader Config_Text Util_IO
begin

text \<open>
  \<^bold>\<open>mysql-manticore.\<close> The program keeps the full-text indexes of a Manticore cluster up to date with
  MySQL tables. It reads the row changes of the replication stream, finds the documents they belong
  to, fetches these documents from MySQL again and sends the differences to all Manticore backends;
  every backend also stores the replication position up to which it is up to date.

  \<^bold>\<open>How the parts interact.\<close> The canal library calls the event handler for every binlog event
  (\<open>eventHandler\<close> in \<open>src/river/sync.go\<close>). Row events go to the rules that the configuration has for
  the table (\<open>src/river/rule.go\<close>), which send one \<open>TableRowChange\<close> per row and document into the sync
  channel; transaction events send a \<open>positionEvent\<close> into it. The sync loop (\<open>SyncLoop\<close> in \<open>sync.go\<close>)
  numbers the position events, tags each row change with the number of the last one and queues it by
  index and document (\<open>src/river/batch.go\<close>). When the ticker fires, the documents that are old enough are
  taken from the queue, change detection (\<open>src/river/changeset.go\<close>) removes those without a net change
  and tells which attributes of the others changed, the changed documents are read from MySQL, and
  the resulting REPLACE, DELETE and UPDATE statements (\<open>format_query.go\<close>, \<open>db_value.go\<close>) are sent to the
  part of the index in which the document lives, on every backend (\<open>src/sphinx/sphinx.go\<close>). Then the
  master position (\<open>src/river/master.go\<close>) is moved to the position event before the first queued change and saved.

  All this runs in services that the river (\<open>src/river/river.go\<close>) puts under a supervisor once every backend holds the same
  saved state and all indexes are ready; HTTP requests (\<open>src/river/status.go\<close>) stop and start synchronization, wait for a GTID or
  ask for maintenance. The command (\<open>src/cmd/mysql-manticore/main.go\<close>) puts the river under its root supervisor, at
  once or while this host is the elected leader. The configuration (\<open>src/river/config.go\<close>) takes the fields, tables and columns of
  every index from the aliases in its SQL query. Row events are also announced over NATS (\<open>src/river/nats_service.go\<close>).

  \<^bold>\<open>Conventions of the model.\<close> A Go function that returns an error or may panic is a function into
  \<open>'a result = fault + 'a\<close> with \<open>fault = Fails go_error | Panics go_panic\<close>. Structs are records with the
  source's field names behind a short prefix, fixed-width integers are words, Go strings are lists of
  bytes, maps are association lists with distinct keys (\<open>amap\<close>, in insertion order; Go's iteration order is random, and statements
  about the order of statements hold for the order in which the map is traversed), slices are lists whose
  bounds checks are written out. A goroutine that owns its state is a state transformer; methods that hold
  a mutex for their whole body are single steps. What is not under \<open>src/\<close> is a parameter: the Manticore
  client with the backend behind it (\<open>sph_env\<close>), the MySQL server (in \<open>batch_env\<close>), GTID sets of the
  MySQL library (\<open>gtid_env\<close>, \<open>handler_env\<close>), \<open>encoding/gob\<close> and \<open>json.Unmarshal\<close> (\<open>go_env\<close>), the SQL parser
  (\<open>sql_env\<close>), the canal (\<open>canal_env\<close>), the supervisor's tokens (\<open>sup_env\<close>), the clock readings.

  \<^bold>\<open>Theories.\<close>

  \<^item> \<open>Prelude\<close>: results and their sequencing, association lists, folds that may fail, calls on a state.
    \<open>Go_Text\<close>: the used part of \<open>strings\<close> and \<open>strconv\<close>. \<open>Go_Values\<close>: Go's \<open>interface{}\<close> values, \<open>src/util/coerce.go\<close>.
    \<open>Conventions\<close>: \<open>src/util/conventions.go\<close>. \<open>Net_Addr\<close>: \<open>net.SplitHostPort\<close>.
    \<open>Keyed_Log\<close>: the locale \<open>keyed_log\<close> of maps that accumulate the events of each key.
  \<^item> \<open>Row_Change\<close>, \<open>Changeset\<close>: \<open>table_row_change.go\<close>, the row helpers of \<open>rule.go\<close>, \<open>changeset.go\<close>.
    \<open>Changeset_Spec\<close> interprets \<open>keyed_log\<close> for both maps of the fold: a row diff goes from the old row of the first
    change to the new row of the last. \<open>Changeset_Correct\<close> and \<open>Changed_Attrs\<close> define the table state behind a
    history of changes and show that an attribute that is not reported kept its source values.
  \<^item> \<open>Source_Config\<close>, \<open>Query_Text\<close>, \<open>DB_Value\<close>: the data source part of \<open>config.go\<close>, quoting and statement formatters,
    field formatting; that quoted text reads back, what the field formats accept, and the columns whose text is not quoted.
  \<^item> \<open>Ingest\<close>, \<open>Ingest_Correct\<close>, \<open>Ingest_Effects\<close>: \<open>rule.go\<close> with the rule set of \<open>river.go\<close> and the row notifications
    of \<open>nats_service.go\<close>: the shape and number of the changes of an event, what reaches the channel when a rule fails.
  \<^item> \<open>Sphinx\<close>, \<open>Sphinx_Correct\<close>: a backend connection with its retries, the maintenance requests, saving and loading
    the synchronization state; the number of attempts, what a failure leaves behind, agreement of the backends.
  \<^item> \<open>Batch\<close>, \<open>Batch_Queue\<close>, \<open>Batch_Apply\<close>: the queue, the fetch, the plan of statements and its execution. \<open>Batch_Queue\<close>
    interprets \<open>keyed_log\<close> for documents and for indexes; \<open>Batch_Apply\<close> has the plan and the order of the statements sent,
    \<open>Index_Store\<close> what they do to the documents of the index. \<open>Statement_Calls\<close> states the interface \<open>statement_calls\<close> of
    properties of the sending calls; it is interpreted for the order of the statements (\<open>Batch_Apply\<close>), their effect on the
    backends (\<open>Backend_Store\<close>), their success (\<open>Batch_Success\<close>) and for leaving MySQL alone.
  \<^item> \<open>Statement_Text\<close>, \<open>Statement_Effect\<close>, \<open>Backend_Store\<close>: a reader for the statement texts, the effect of executing
    them, and what a successful index change set leaves in every backend, retries included. The reader covers number,
    text and timestamp fields; the text of a JSON field can leave its literal (\<open>formatJson_unescaped_quote\<close>).
    \<open>Batch_Store\<close> extends this to batches over several indexes and adds the MySQL server that answers the queries;
    \<open>Batch_Success\<close> shows that a batch succeeds when the servers answer.
  \<^item> \<open>Master\<close>, \<open>Sync\<close>, \<open>Sync_Window\<close>, \<open>Sync_Safety\<close>, \<open>Sync_Correct\<close>: \<open>master.go\<close> and \<open>sync.go\<close>. \<open>Sync_Window\<close> states
    the interface \<open>change_queue\<close> between the loop and its queue and interprets it on \<open>batch.go\<close>; \<open>Sync_Safety\<close>
    defines the reachable states (\<open>sync_reach\<close>) and their invariants; \<open>Sync_Correct\<close> concludes that the saved
    position never passes an unapplied change, and shows where GTIDs break this for transactions.
  \<^item> \<open>Replication\<close>: the tables in MySQL behind the row events, from the events through the rules and the queue to change
    detection; the property of this theory rests on it.
  \<^item> \<open>Consistency\<close>, \<open>Loop_Consistency\<close>, \<open>Consistent_Index\<close>, \<open>Catch_Up\<close>, \<open>Stale_Index\<close>: the whole way from MySQL to the backends
    as one transition system (\<open>system_reach\<close>) of row events, turns of the loop, flushes and saves. Its invariant (\<open>doc_tracked\<close>)
    says of every document in a backend that the tables made it so before its queued changes; hence a document without queued
    changes is as MySQL has it, and a flush catches up. \<open>Stale_Index\<close> shows what happens when a fetch is ahead of the events.
  \<^item> \<open>Connections\<close>, \<open>Connections_Correct\<close>: opening the connections, their goroutines, the service that owns them
    (\<open>sphinx_service.go\<close>) and the checks over all indexes; that the readiness check agrees with asking one by one, and what
    requests after closing do.
  \<^item> \<open>Supervision\<close>, \<open>Supervision_Correct\<close>: \<open>Serve\<close>, \<open>Stop\<close> and the sync routine with the two handlers that use it, as a step
    relation over all interleavings (\<open>river_reach\<close>); registration as an invariant, the handlers as a refinement of a machine with
    three states, and what \<open>Stop\<close> does while \<open>Serve\<close> still waits for the indexes. \<open>Services\<close>: the stages of \<open>sync_service.go\<close>,
    \<open>cron_service.go\<close> and the NATS service, with the locale \<open>lost_stop\<close>, or \<open>trapped_stop\<close> where nothing ends the wait, interpreted on each of them. \<open>Sphinx_Handshake\<close>: the channels
    between the river and the service of the connections, which make starting and removing it single steps.
  \<^item> \<open>Path_Text\<close>, \<open>Query_Config\<close>, \<open>Query_Config_Correct\<close>, \<open>Config_Load\<close>: \<open>os.ExpandEnv\<close> and \<open>filepath.Join\<close>, reading the query of an
    index, and loading the configuration; what an accepted query and an accepted configuration guarantee.
  \<^item> \<open>River_Setup\<close>: \<open>NewRiver\<close>, the canal's settings and \<open>canal_service.go\<close>; that replication resumes where it was saved.
    \<open>Http_Status\<close>, \<open>Http_Status_Correct\<close>: the other handlers, counters and status of \<open>status.go\<close>; waiting for a GTID across handler
    and sync loop.
  \<^item> \<open>Nats\<close>: the publisher; \<open>Leader\<close>: the command and the leader poll, as a refinement of the election; \<open>Config_Text\<close>:
    the text types of the configuration with \<open>time.ParseDuration\<close>; \<open>Util_IO\<close>: log adapter, log set-up and file copy of \<open>src/util\<close>.

  \<^bold>\<open>Assumptions of the consistency theorems.\<close> The server answers the query of an index with the documents that a fixed view
  makes of its tables (\<open>serves_view\<close>), and a document is determined by the values of its columns (\<open>determined\<close>); a backend executes the
  statements as documented, or fails with or without their effect (\<open>executes_documented\<close>), and keeps the saved state outside the indexes
  (\<open>saves_elsewhere\<close>); no part of an index is named like a part of another (\<open>parts_apart\<close>). Events have full row images and ids
  that are not NULL (\<open>readable\<close>), rules are plain and one per table and index (\<open>plain_index\<close>). Two assumptions the program does not ensure:
  the server is not ahead of the events when a batch is flushed (\<open>fetch_ahead_goes_stale\<close>), and a document that is only
  updated is in the index (\<open>updates_present\<close>, \<open>attribute_only_document_missing\<close>).

  \<^bold>\<open>Bounds.\<close> Event ids are \<open>64 word\<close>, and the statements about the sync loop assume fewer than \<open>2 ^ 64 - 1\<close>
  position events, the point at which the program's counter wraps. \<open>retry_loop\<close> is the loop of
  \<open>retry\<close> with the remaining attempts as its measure, the loop of \<open>ParseDuration\<close> has the length of the rest; all recursions are total,
  so there is no fuel.

  \<^bold>\<open>Not modelled.\<close> Sockets, signals, the parsing of flags; the decoding of TOML; the SQL parser, whose walk over the syntax tree is a parameter with its documented behaviour; the supervisor
  and the cron library, of which the calls are recorded; the profiling handlers of the HTTP server.
\<close>

section \<open>From the tables in MySQL to the decision what to update\<close>

text \<open>
  C6. An attribute that is not reported did not change in MySQL. Take an index whose rules are
  plain (no JSON column, no type filter) and belong to different tables, and any row events with full
  row images that describe what happens to the tables, keep primary keys and have no NULL
  document id. If the rules accept all events and the changes they send are queued, and change
  detection on the queue entry of a document does not report an attribute (or there is no entry), then
  in every table the rows of the document have the same values in the columns that feed the attribute
  before and after the events. So the attributes that the program does not update need no update.
\<close>

theorem unreported_attribute_kept:
  assumes "plain_index S rs index" and "\<forall>e\<in>set es. readable S rs index e" and "full_tables S D"
    and "send_events E clock rs es = Some cs" and "replay_events E D es = Some D'"
    and "map untagged numbered = cs" and "rule_for rs index tb = Some r"
    and "attr_unreported E (batch_doc (queued numbered) index d) a"
  shows "attr_values E r (sch_Columns S tb) (id_column S r) d a (D tb) =
         attr_values E r (sch_Columns S tb) (id_column S r) d a (D' tb)"
  using assms by (rule unreported_values)

theorem unreported_attribute_kept_witness:
  "\<exists>D'. replay_events plain_env sample_db [sample_update] = Some D' \<and>
     attr_values plain_env sample_rule (ev_Columns sample_event) 1 5 ''id'' (sample_db ''db.t'') =
     attr_values plain_env sample_rule (ev_Columns sample_event) 1 5 ''id'' (D' ''db.t'')"
proof -
  obtain D' where D': "replay_events plain_env sample_db [sample_update] = Some D'"
    using sample_replay by blast
  have "\<forall>c\<in>set sample_sent. trc_EventID c = 0" by code_simp
  then have tags: "map untagged (map (\<lambda>c. c\<lparr>trc_EventID := 3\<rparr>) sample_sent) = sample_sent"
    by (simp add: map_idI)
  have rule: "rule_for [sample_rule] ''i'' ''db.t'' = Some sample_rule"
    by (simp add: rule_for_def sample_rule_def)
  have "id_column sample_schema sample_rule = 1"
    and "sch_Columns sample_schema ''db.t'' = ev_Columns sample_event"
    by (simp_all add: sample_rule_def id_column_def sample_schema_def sample_event_def)
  then have "attr_values plain_env sample_rule (ev_Columns sample_event) 1 5 ''id'' (sample_db ''db.t'') =
     attr_values plain_env sample_rule (ev_Columns sample_event) 1 5 ''id'' (D' ''db.t'')"
    using unreported_attribute_kept[OF sample_plain_index _ sample_full sample_send D' tags rule
        conjunct1[OF sample_unreported]] sample_readable by simp
  with D' show ?thesis by blast
qed

end
